theory Spec2Isabelle
  imports Complex_Main "HOL-Library.Sublist" "HOL-Library.Char_ord" "HOL-Library.List_Lexorder"
    "HOL-Library.Word" "HOL-Library.Log_Nat"
begin

section \<open>Strings and paths\<close>

text \<open>
  Go strings are byte sequences; they are modelled as \<open>string\<close> (a list of bytes).
  \<open>strings.HasPrefix\<close> and \<open>strings.HasSuffix\<close> are \<open>prefix\<close> and \<open>suffix\<close> with the
  arguments in Go's order.
\<close>

definition HasPrefix :: "string \<Rightarrow> string \<Rightarrow> bool" where
  "HasPrefix s p = prefix p s"

definition HasSuffix :: "string \<Rightarrow> string \<Rightarrow> bool" where
  "HasSuffix s x = suffix x s"

text \<open>
  \<open>strings.ReplaceAll s old new\<close>: non-overlapping occurrences of \<open>old\<close>, left to right.
  The counter of \<open>replace_from\<close> is the number of bytes of a matched occurrence still to
  be skipped. An empty \<open>old\<close> matches before every byte and at the end.
\<close>

fun replace_from :: "string \<Rightarrow> string \<Rightarrow> nat \<Rightarrow> string \<Rightarrow> string" where
  "replace_from old new k [] = []"
| "replace_from old new (Suc k) (x # xs) = replace_from old new k xs"
| "replace_from old new 0 (x # xs) =
     (if prefix old (x # xs) then new @ replace_from old new (length old - 1) xs
      else x # replace_from old new 0 xs)"

definition ReplaceAll :: "string \<Rightarrow> string \<Rightarrow> string \<Rightarrow> string" where
  "ReplaceAll s old new =
     (if old = [] then new @ concat (map (\<lambda>c. c # new) s) else replace_from old new 0 s)"

text \<open>\<open>strings.Split s "/"\<close> and \<open>strings.Join elems "/"\<close>.\<close>

fun split_slash :: "string \<Rightarrow> string list" where
  "split_slash [] = [[]]"
| "split_slash (c # cs) =
     (if c = CHR ''/'' then [] # split_slash cs
      else (case split_slash cs of [] \<Rightarrow> [[c]] | y # ys \<Rightarrow> (c # y) # ys))"

fun join_slash :: "string list \<Rightarrow> string" where
  "join_slash [] = []"
| "join_slash [x] = x"
| "join_slash (x # y # ys) = x @ ''/'' @ join_slash (y # ys)"

text \<open>
  \<open>filepath.Clean\<close> on a Unix system, computed on the path's elements: empty elements
  (repeated separators) and \<open>.\<close> are dropped, \<open>..\<close> removes the element before it, is
  dropped at the root and kept at the start of a relative path; the empty result is \<open>.\<close>.
\<close>

definition rooted :: "string \<Rightarrow> bool" where
  "rooted p = (case p of [] \<Rightarrow> False | c # _ \<Rightarrow> c = CHR ''/'')"

definition elements :: "string \<Rightarrow> string list" where
  "elements p = filter (\<lambda>s. s \<noteq> [] \<and> s \<noteq> ''.'') (split_slash p)"

definition dotdot :: "bool \<Rightarrow> string list \<Rightarrow> string \<Rightarrow> string list" where
  "dotdot r st c =
     (if c = ''..'' then
        (if st = [] then (if r then [] else [''..''])
         else if last st = ''..'' then st @ [''..'']
         else butlast st)
      else st @ [c])"

definition normalize :: "bool \<Rightarrow> string list \<Rightarrow> string list" where
  "normalize r cs = foldl (dotdot r) [] cs"

definition Clean :: "string \<Rightarrow> string" where
  "Clean p =
     (if p = [] then ''.''
      else let out = (if rooted p then ''/'' else []) @ join_slash (normalize (rooted p) (elements p))
           in if out = [] then ''.'' else out)"

text \<open>
  \<open>filepath.Join\<close>: leading empty elements are ignored, the rest is joined with the
  separator and cleaned; the result is empty when every element is empty.
\<close>

definition Join :: "string list \<Rightarrow> string" where
  "Join elem =
     (case dropWhile (\<lambda>e. e = []) elem of [] \<Rightarrow> [] | es \<Rightarrow> Clean (join_slash es))"

section \<open>Data model\<close>

text \<open>
  Errors are values. \<open>SysErr\<close> is an error of the operating system or of an external
  process; \<open>Wrap msg e\<close> is \<open>fmt.Errorf("msg: %w", e)\<close>.
\<close>

datatype error = SysErr string | Wrap string error

text \<open>\<open>target.Target\<close> (internal/target/discovery.go).\<close>

record target =
  Package :: string
  Name :: string
  FilePath :: string
  FuncName :: string
  Description :: string

text \<open>
  \<open>time.Duration\<close> is an \<open>int64\<close> count of nanoseconds: a word of 64 bits, read as a
  signed number by \<open>sint\<close>.
\<close>

type_synonym Duration = "64 word"

definition Second :: Duration where
  "Second = 1000000000"

definition Minute :: Duration where
  "Minute = 60 * Second"

text \<open>
  \<open>float64\<close> is the binary64 format of IEEE 754: a finite value, given by the rational
  number it stands for, an infinity with its sign (\<open>True\<close> for the negative one), or
  not a number. The sign of a zero is not kept: the program only multiplies and converts
  to an integer, and neither tells the two zeros apart.

  \<open>round_float64 x\<close> is the \<open>float64\<close> nearest to the number \<open>x\<close>, the even one of two
  that are equally near: \<open>exponent\<close> is the binary exponent of a positive number, the
  significand has 53 bits, or fewer below the smallest normal number, and what rounds
  beyond the largest finite value is an infinity. \<open>float64_lit\<close> is the value of a
  constant of the program text.
\<close>

datatype float64 = Finite rat | Infinity bool | NaN

definition pow2 :: "int \<Rightarrow> rat" where
  "pow2 q = (if 0 \<le> q then 2 ^ nat q else 1 / 2 ^ nat (- q))"

definition exponent :: "rat \<Rightarrow> int" where
  "exponent x = (if 1 \<le> x then bitlen \<lfloor>x\<rfloor> - 1 else - bitlen (\<lceil>1 / x\<rceil> - 1))"

definition round_half_even :: "rat \<Rightarrow> int" where
  "round_half_even r =
     (let f = \<lfloor>r\<rfloor>; d = r - of_int f
      in if d < 1/2 then f else if 1/2 < d then f + 1 else if even f then f else f + 1)"

definition round_float64 :: "rat \<Rightarrow> float64" where
  "round_float64 x =
     (if x = 0 then Finite 0
      else
        let e = exponent \<bar>x\<bar>;
            q = max (e - 52) (- 1074);
            m = round_half_even (x / pow2 q)
        in if 1024 \<le> e \<or> (e = 1023 \<and> \<bar>m\<bar> = 2 ^ 53) then Infinity (x < 0)
           else Finite (of_int m * pow2 q))"

definition float64_lit :: "rat \<Rightarrow> float64" where
  "float64_lit x = round_float64 x"

text \<open>The product of two \<open>float64\<close> values, rounded.\<close>

fun float64_mul :: "float64 \<Rightarrow> float64 \<Rightarrow> float64" where
  "float64_mul (Finite a) (Finite b) = round_float64 (a * b)"
| "float64_mul (Finite a) (Infinity s) = (if a = 0 then NaN else Infinity (s \<noteq> (a < 0)))"
| "float64_mul (Infinity s) (Finite b) = (if b = 0 then NaN else Infinity (s \<noteq> (b < 0)))"
| "float64_mul (Infinity s) (Infinity s') = Infinity (s \<noteq> s')"
| "float64_mul NaN y = NaN"
| "float64_mul x NaN = NaN"

text \<open>
  The conversion \<open>float64(d)\<close> of a duration rounds. The conversion
  \<open>time.Duration(x)\<close> discards the fraction; when \<open>int64\<close> cannot represent the result
  (too large, an infinity, not a number) the conversion succeeds with a value that
  depends on the implementation, which \<open>other\<close> gives.
\<close>

definition float64_of_Duration :: "Duration \<Rightarrow> float64" where
  "float64_of_Duration d = round_float64 (of_int (sint d))"

definition discard_fraction :: "rat \<Rightarrow> int" where
  "discard_fraction r = (if 0 \<le> r then \<lfloor>r\<rfloor> else \<lceil>r\<rceil>)"

definition Duration_of_float64 :: "(float64 \<Rightarrow> Duration) \<Rightarrow> float64 \<Rightarrow> Duration" where
  "Duration_of_float64 other x =
     (case x of
        Finite r \<Rightarrow>
          (if - (2 ^ 63) \<le> discard_fraction r \<and> discard_fraction r < 2 ^ 63
           then word_of_int (discard_fraction r)
           else other x)
      | Infinity s \<Rightarrow> other x
      | NaN \<Rightarrow> other x)"

text \<open>\<open>config.Config\<close> (pkg/config/config.go).\<close>

record config =
  Packages :: "string list"
  RootDir :: string
  CorpusDir :: string
  FuzzTime :: Duration
  Parallelism :: int
  HarnessDetection :: bool
  TimeAllocation :: "string \<rightharpoonup> float64"
  ReportDir :: string
  ChangedOnly :: bool
  GitRef :: string

definition Default :: config where
  "Default = \<lparr> Packages = [''./...''], RootDir = ''.'', CorpusDir = ''./fuzz-corpus'',
     FuzzTime = 5 * Minute, Parallelism = 4, HarnessDetection = True,
     TimeAllocation = [''default'' \<mapsto> float64_lit 1], ReportDir = ''./fuzz-reports'',
     ChangedOnly = False, GitRef = ''HEAD~1'' \<rparr>"

text \<open>Indexing a Go map with a missing key gives the zero value.\<close>

definition index_float :: "(string \<rightharpoonup> float64) \<Rightarrow> string \<Rightarrow> float64" where
  "index_float m k = (case m k of None \<Rightarrow> Finite 0 | Some v \<Rightarrow> v)"

section \<open>The file system\<close>

text \<open>
  The file system is a table from absolute paths, given by their elements, to entries;
  the first binding of a path is the valid one, and the root is always a directory.
  There are no links and no permissions: an operation fails only for the shape of the
  tree (a missing entry, a file where a directory is needed, a directory where a file
  is needed).
\<close>

datatype ent = RegFile string | Directory

record world =
  nodes :: "(string list \<times> ent) list"
  cwd :: "string list"
  TempDir :: string

definition ENOENT :: error where "ENOENT = SysErr ''no such file or directory''"
definition ENOTDIR :: error where "ENOTDIR = SysErr ''not a directory''"
definition EISDIR :: error where "EISDIR = SysErr ''is a directory''"
definition EEXIST :: error where "EEXIST = SysErr ''file exists''"

text \<open>
  A path is resolved lexically against the working directory; the empty path names
  nothing.
\<close>

definition resolve :: "world \<Rightarrow> string \<Rightarrow> string list option" where
  "resolve w p =
     (if p = [] then None
      else Some (normalize True ((if rooted p then [] else cwd w) @ elements p)))"

definition node_at :: "world \<Rightarrow> string list \<Rightarrow> ent option" where
  "node_at w k = (if k = [] then Some Directory else map_of (nodes w) k)"

definition put :: "string list \<Rightarrow> ent \<Rightarrow> world \<Rightarrow> world" where
  "put k v w = w\<lparr>nodes := (k, v) # filter (\<lambda>(k', v'). k' \<noteq> k) (nodes w)\<rparr>"

definition keys :: "world \<Rightarrow> string list list" where
  "keys w = remdups (map fst (nodes w))"

text \<open>\<open>os.Stat\<close>: the entry at a path, \<open>None\<close> for the error.\<close>

definition Stat :: "string \<Rightarrow> world \<Rightarrow> ent option" where
  "Stat p w = (case resolve w p of None \<Rightarrow> None | Some k \<Rightarrow> node_at w k)"

definition is_dir :: "ent option \<Rightarrow> bool" where
  "is_dir e = (e = Some Directory)"

text \<open>\<open>os.Mkdir\<close> on a resolved path.\<close>

definition mkdir_at :: "string list \<Rightarrow> world \<Rightarrow> error option \<times> world" where
  "mkdir_at k w =
     (if node_at w k \<noteq> None then (Some EEXIST, w)
      else if node_at w (butlast k) = Some Directory then (None, put k Directory w)
      else (Some ENOENT, w))"

definition Mkdir :: "string \<Rightarrow> world \<Rightarrow> error option \<times> world" where
  "Mkdir p w = (case resolve w p of None \<Rightarrow> (Some ENOENT, w) | Some k \<Rightarrow> mkdir_at k w)"

text \<open>
  \<open>os.MkdirAll\<close>: nothing to do for a directory, an error for a file, and otherwise the
  parent first. The recursion is on the reversed path, whose tail is the parent.
\<close>

fun mkdir_all_rev :: "string list \<Rightarrow> world \<Rightarrow> error option \<times> world" where
  "mkdir_all_rev [] w = (None, w)"
| "mkdir_all_rev (c # rk) w =
     (case node_at w (rev (c # rk)) of
        Some Directory \<Rightarrow> (None, w)
      | Some (RegFile b) \<Rightarrow> (Some ENOTDIR, w)
      | None \<Rightarrow>
          (case mkdir_all_rev rk w of
             (Some e, w') \<Rightarrow> (Some e, w')
           | (None, w') \<Rightarrow> mkdir_at (rev (c # rk)) w'))"

definition MkdirAll :: "string \<Rightarrow> world \<Rightarrow> error option \<times> world" where
  "MkdirAll p w =
     (case resolve w p of None \<Rightarrow> (Some ENOENT, w) | Some k \<Rightarrow> mkdir_all_rev (rev k) w)"

text \<open>\<open>os.ReadDir\<close>: the entries of a directory with their \<open>IsDir\<close>, sorted by name.\<close>

definition children :: "world \<Rightarrow> string list \<Rightarrow> (string \<times> bool) list" where
  "children w k =
     sort_key fst (map (\<lambda>k'. (last k', is_dir (node_at w k')))
                       (filter (\<lambda>k'. k' \<noteq> [] \<and> butlast k' = k) (keys w)))"

definition ReadDir :: "string \<Rightarrow> world \<Rightarrow> error + (string \<times> bool) list" where
  "ReadDir p w =
     (case resolve w p of
        None \<Rightarrow> Inl ENOENT
      | Some k \<Rightarrow>
          (case node_at w k of
             None \<Rightarrow> Inl ENOENT
           | Some (RegFile b) \<Rightarrow> Inl ENOTDIR
           | Some Directory \<Rightarrow> Inr (children w k)))"

text \<open>\<open>os.Create\<close>: creates the file or truncates it.\<close>

definition Create :: "string \<Rightarrow> world \<Rightarrow> error option \<times> world" where
  "Create p w =
     (case resolve w p of
        None \<Rightarrow> (Some ENOENT, w)
      | Some k \<Rightarrow>
          (if node_at w k = Some Directory then (Some EISDIR, w)
           else if node_at w (butlast k) = Some Directory then (None, put k (RegFile []) w)
           else (Some ENOENT, w)))"

text \<open>
  \<open>copyFile\<close> (the same function in manager.go and engine.go): open the source, create
  the destination, copy. The source is read after the destination was created; reading
  a directory fails.
\<close>

definition copyFile :: "string \<Rightarrow> string \<Rightarrow> world \<Rightarrow> error option \<times> world" where
  "copyFile src dst w =
     (case Stat src w of
        None \<Rightarrow> (Some ENOENT, w)
      | Some opened \<Rightarrow>
          (case Create dst w of
             (Some e, w') \<Rightarrow> (Some e, w')
           | (None, w') \<Rightarrow>
               (case Stat src w' of
                  Some (RegFile b) \<Rightarrow>
                    (case resolve w' dst of
                       None \<Rightarrow> (Some ENOENT, w')
                     | Some k \<Rightarrow> (None, put k (RegFile b) w'))
                | _ \<Rightarrow> (Some EISDIR, w'))))"

text \<open>\<open>os.RemoveAll\<close>: the entry and everything below it; its error is never looked at.\<close>

definition RemoveAll :: "string \<Rightarrow> world \<Rightarrow> world" where
  "RemoveAll p w =
     (case resolve w p of
        None \<Rightarrow> w
      | Some k \<Rightarrow> w\<lparr>nodes := filter (\<lambda>(k', v). \<not> prefix k k') (nodes w)\<rparr>)"

text \<open>\<open>filepath.Dir\<close> and \<open>filepath.Split\<close>.\<close>

definition Split :: "string \<Rightarrow> string \<times> string" where
  "Split p = (rev (dropWhile (\<lambda>c. c \<noteq> CHR ''/'') (rev p)),
              rev (takeWhile (\<lambda>c. c \<noteq> CHR ''/'') (rev p)))"

definition Dir :: "string \<Rightarrow> string" where
  "Dir p = Clean (fst (Split p))"

section \<open>External processes and library calls outside the model\<close>

text \<open>
  What the program cannot decide is a parameter:
  \<^item> \<open>harness name fuzztime parallel pkg cache w\<close> is the run of
    \<open>go test -run ^$ -fuzz name -fuzztime .. -parallel .. pkg\<close> with \<open>GOFUZZCACHE=cache\<close>:
    the error of \<open>CombinedOutput\<close> (\<open>None\<close> for exit status 0), the combined output, the
    time the process took, and the file system it leaves;
  \<^item> \<open>minimizer name pkg cache w\<close> is the run of the harness in minimization mode;
  \<^item> \<open>nextRandom w\<close> is the random part of the name that \<open>os.MkdirTemp\<close> settles on;
  \<^item> \<open>glob_other pattern w\<close> is \<open>filepath.Glob\<close> on the patterns the model does not
    compute;
  \<^item> \<open>unrepresentable x\<close> is what the platform makes of the conversion of \<open>x\<close> to
    \<open>int64\<close> when \<open>int64\<close> cannot represent the result.
\<close>

record env =
  harness :: "string \<Rightarrow> Duration \<Rightarrow> int \<Rightarrow> string \<Rightarrow> string \<Rightarrow> world
                \<Rightarrow> error option \<times> string \<times> Duration \<times> world"
  minimizer :: "string \<Rightarrow> string \<Rightarrow> string \<Rightarrow> world \<Rightarrow> error option \<times> world"
  nextRandom :: "world \<Rightarrow> string"
  glob_other :: "string \<Rightarrow> world \<Rightarrow> error + string list"
  unrepresentable :: "float64 \<Rightarrow> Duration"

text \<open>
  \<open>os.MkdirTemp dir pattern\<close>: the last \<open>*\<close> of the pattern is replaced by a random
  string, in \<open>os.TempDir()\<close> when \<open>dir\<close> is empty; a pattern with a separator is refused.
\<close>

definition prefixAndSuffix :: "string \<Rightarrow> string \<times> string" where
  "prefixAndSuffix pattern =
     (if CHR ''*'' \<in> set pattern
      then (rev (tl (dropWhile (\<lambda>c. c \<noteq> CHR ''*'') (rev pattern))),
            rev (takeWhile (\<lambda>c. c \<noteq> CHR ''*'') (rev pattern)))
      else (pattern, []))"

definition joinPath :: "string \<Rightarrow> string \<Rightarrow> string" where
  "joinPath dir name =
     (if dir \<noteq> [] \<and> last dir = CHR ''/'' then dir @ name else dir @ ''/'' @ name)"

definition MkdirTemp :: "env \<Rightarrow> string \<Rightarrow> string \<Rightarrow> world \<Rightarrow> (error + string) \<times> world" where
  "MkdirTemp en dir pattern w =
     (if CHR ''/'' \<in> set pattern then (Inl (SysErr ''pattern contains path separator''), w)
      else
        let d = (if dir = [] then TempDir w else dir);
            name = joinPath d (fst (prefixAndSuffix pattern) @ nextRandom en w
                               @ snd (prefixAndSuffix pattern))
        in (case Mkdir name w of
              (Some e, w') \<Rightarrow> (Inl e, w')
            | (None, w') \<Rightarrow> (Inr name, w')))"

text \<open>
  \<open>filepath.Glob\<close>, computed for a pattern whose last element is \<open>*\<close> below a directory
  path without metacharacters: the entries of that directory, files and directories
  alike, sorted by name, each joined to the directory path; nothing when the directory
  cannot be read.
\<close>

definition hasMeta :: "string \<Rightarrow> bool" where
  "hasMeta p =
     (\<exists>c \<in> set p. c = CHR ''*'' \<or> c = CHR ''?'' \<or> c = CHR ''['' \<or> c = CHR 0x5C)"

definition cleanGlobPath :: "string \<Rightarrow> string" where
  "cleanGlobPath p = (if p = [] then ''.'' else if p = ''/'' then p else butlast p)"

definition Glob :: "env \<Rightarrow> string \<Rightarrow> world \<Rightarrow> error + string list" where
  "Glob en pattern w =
     (let dir = cleanGlobPath (fst (Split pattern)) in
      if snd (Split pattern) = ''*'' \<and> \<not> hasMeta dir
      then Inr (case ReadDir dir w of
                  Inl e \<Rightarrow> []
                | Inr entries \<Rightarrow> map (\<lambda>(n, d). Join [dir, n]) entries)
      else glob_other en pattern w)"

section \<open>The corpus manager (internal/corpus/manager.go)\<close>

text \<open>\<open>MinimizationStrategy\<close> is a string type with two named values.\<close>

type_synonym MinimizationStrategy = string

definition NoMinimization :: MinimizationStrategy where
  "NoMinimization = ''none''"

definition CoverageMinimization :: MinimizationStrategy where
  "CoverageMinimization = ''coverage''"

record corpus_manager =
  BaseDir :: string
  TargetDirs :: "string \<rightharpoonup> string"
  Minimization :: MinimizationStrategy

definition NewCorpusManager ::
  "string \<Rightarrow> MinimizationStrategy \<Rightarrow> world \<Rightarrow> (error + corpus_manager) \<times> world" where
  "NewCorpusManager baseDir minimization w =
     (case MkdirAll baseDir w of
        (Some e, w') \<Rightarrow> (Inl (Wrap ''failed to create corpus directory'' e), w')
      | (None, w') \<Rightarrow>
          (Inr \<lparr> BaseDir = baseDir, TargetDirs = Map.empty, Minimization = minimization \<rparr>, w'))"

text \<open>
  \<open>GetTargetDir\<close> mutates the manager's map and may create a directory: it returns the
  path with the manager and the file system it leaves. The error of \<open>os.MkdirAll\<close> is
  dropped, as in the source.
\<close>

definition GetTargetDir ::
  "corpus_manager \<Rightarrow> target \<Rightarrow> world \<Rightarrow> string \<times> corpus_manager \<times> world" where
  "GetTargetDir m t w =
     (let targetKey = Package t @ ''.'' @ Name t in
      case TargetDirs m targetKey of
        Some dir \<Rightarrow> (dir, m, w)
      | None \<Rightarrow>
          let dir = Join [BaseDir m, ReplaceAll (Package t) ''/'' ''_'', Name t]
          in (dir, m\<lparr>TargetDirs := (TargetDirs m)(targetKey \<mapsto> dir)\<rparr>, snd (MkdirAll dir w)))"

definition Minimize ::
  "env \<Rightarrow> corpus_manager \<Rightarrow> target \<Rightarrow> world \<Rightarrow> error option \<times> corpus_manager \<times> world" where
  "Minimize en m t w =
     (if Minimization m = NoMinimization then (None, m, w)
      else
        (case GetTargetDir m t w of
           (targetDir, m', w') \<Rightarrow>
             (case minimizer en (Name t) (Package t) targetDir w' of
                (Some e, w'') \<Rightarrow> (Some (Wrap ''minimization failed'' e), m', w'')
              | (None, w'') \<Rightarrow> (None, m', w''))))"

text \<open>The loop of \<open>ImportNewCorpusEntries\<close> over the entries read from the new directory.\<close>

fun import_entries ::
  "string \<Rightarrow> string \<Rightarrow> (string \<times> bool) list \<Rightarrow> world \<Rightarrow> error option \<times> world" where
  "import_entries newEntriesDir targetDir [] w = (None, w)"
| "import_entries newEntriesDir targetDir ((name, isDir) # entries) w =
     (if isDir then import_entries newEntriesDir targetDir entries w
      else
        let srcPath = Join [newEntriesDir, name];
            dstPath = Join [targetDir, name]
        in if Stat dstPath w \<noteq> None then import_entries newEntriesDir targetDir entries w
           else (case copyFile srcPath dstPath w of
                   (Some e, w') \<Rightarrow> (Some (Wrap ''failed to copy corpus entry'' e), w')
                 | (None, w') \<Rightarrow> import_entries newEntriesDir targetDir entries w'))"

definition ImportNewCorpusEntries ::
  "env \<Rightarrow> corpus_manager \<Rightarrow> target \<Rightarrow> string \<Rightarrow> world
     \<Rightarrow> error option \<times> corpus_manager \<times> world" where
  "ImportNewCorpusEntries en m t newEntriesDir w =
     (case GetTargetDir m t w of
        (targetDir, m1, w1) \<Rightarrow>
          (case ReadDir newEntriesDir w1 of
             Inl e \<Rightarrow> (Some (Wrap ''failed to read new entries directory'' e), m1, w1)
           | Inr entries \<Rightarrow>
               (case import_entries newEntriesDir targetDir entries w1 of
                  (Some e, w2) \<Rightarrow> (Some e, m1, w2)
                | (None, w2) \<Rightarrow>
                    (if Minimization m1 = CoverageMinimization
                     then (case Minimize en m1 t w2 of
                             (Some e, m3, w3) \<Rightarrow> (Some (Wrap ''corpus minimization failed'' e), m3, w3)
                           | (None, m3, w3) \<Rightarrow> (None, m3, w3))
                     else (None, m1, w2)))))"

section \<open>The engine (internal/runner/engine.go)\<close>

record result =
  Target :: target
  Duration :: Duration
  Success :: bool
  ErrorMessage :: string
  CrashInputs :: "string list"
  NewCorpusItems :: int
  Coverage :: float64

record fuzz_engine =
  Config :: config
  Targets :: "target list"
  CorpusManager :: corpus_manager
  Results :: "result list"

definition NewFuzzEngine ::
  "config \<Rightarrow> target list \<Rightarrow> world \<Rightarrow> (error + fuzz_engine) \<times> world" where
  "NewFuzzEngine cfg targets w =
     (case NewCorpusManager (CorpusDir cfg) CoverageMinimization w of
        (Inl e, w') \<Rightarrow> (Inl (Wrap ''failed to create corpus manager'' e), w')
      | (Inr cm, w') \<Rightarrow>
          (Inr \<lparr> Config = cfg, Targets = targets, CorpusManager = cm, Results = [] \<rparr>, w'))"

definition getTargetDuration :: "env \<Rightarrow> fuzz_engine \<Rightarrow> target \<Rightarrow> Duration" where
  "getTargetDuration en e t =
     (let totalTime = FuzzTime (Config e);
          packageName = Package t
      in case TimeAllocation (Config e) packageName of
           Some allocation \<Rightarrow>
             Duration_of_float64 (unrepresentable en)
               (float64_mul (float64_of_Duration totalTime) allocation)
         | None \<Rightarrow>
             Duration_of_float64 (unrepresentable en)
               (float64_mul (float64_of_Duration totalTime)
                  (index_float (TimeAllocation (Config e)) ''default'')))"

text \<open>
  \<open>copyDir\<close>: \<open>filepath.Walk\<close> visits the entries found below \<open>src\<close> when it starts,
  a directory before its entries and the entries of a directory in the order of their
  names, and stops at the first error. For a visited path, \<open>filepath.Rel src path\<close> is
  the names below \<open>src\<close>, and \<open>.\<close> for \<open>src\<close> itself.
\<close>

definition rel_below :: "string list \<Rightarrow> string" where
  "rel_below names = (if names = [] then ''.'' else join_slash names)"

fun copy_walk ::
  "string \<Rightarrow> string \<Rightarrow> nat \<Rightarrow> string list list \<Rightarrow> world \<Rightarrow> error option \<times> world" where
  "copy_walk src dst n [] w = (None, w)"
| "copy_walk src dst n (k # ks) w =
     (case node_at w k of
        None \<Rightarrow> (Some ENOENT, w)
      | Some Directory \<Rightarrow> copy_walk src dst n ks w
      | Some (RegFile b) \<Rightarrow>
          let path = (if drop n k = [] then src else Join (src # drop n k));
              relPath = rel_below (drop n k);
              dstPath = Join [dst, relPath];
              dstDir = Dir dstPath
          in (case MkdirAll dstDir w of
                (Some e, w') \<Rightarrow> (Some e, w')
              | (None, w') \<Rightarrow>
                  (case copyFile path dstPath w' of
                     (Some e, w'') \<Rightarrow> (Some e, w'')
                   | (None, w'') \<Rightarrow> copy_walk src dst n ks w'')))"

definition copyDir :: "string \<Rightarrow> string \<Rightarrow> world \<Rightarrow> error option \<times> world" where
  "copyDir src dst w =
     (case resolve w src of
        None \<Rightarrow> (Some ENOENT, w)
      | Some k \<Rightarrow>
          (case node_at w k of
             None \<Rightarrow> (Some ENOENT, w)
           | Some found \<Rightarrow> copy_walk src dst (length k) (sort (filter (prefix k) (keys w))) w))"

text \<open>
  \<open>RunTarget\<close> after the temporary directory was made; the deferred \<open>os.RemoveAll\<close> is
  applied by \<open>RunTarget\<close> to whatever this part returns. The manager behind the
  engine's pointer is mutated, so the engine is returned too.
\<close>

definition collect_crashers :: "env \<Rightarrow> string \<Rightarrow> world \<Rightarrow> string list" where
  "collect_crashers en tempDir w =
     (case Glob en (Join [tempDir, ''crashers'', ''*'']) w of
        Inl errCrash \<Rightarrow> []
      | Inr crashers \<Rightarrow> filter (\<lambda>crasher. \<not> HasSuffix crasher ''.output'') crashers)"

definition run_in_workspace ::
  "env \<Rightarrow> fuzz_engine \<Rightarrow> target \<Rightarrow> string \<Rightarrow> world
     \<Rightarrow> (error + result) \<times> fuzz_engine \<times> world" where
  "run_in_workspace en e t tempDir w =
     (case GetTargetDir (CorpusManager e) t w of
        (corpusDir, cm1, w1) \<Rightarrow>
          let e1 = e\<lparr>CorpusManager := cm1\<rparr>;
              tempCorpusDir = Join [tempDir, ''corpus'']
          in
          (case MkdirAll tempCorpusDir w1 of
             (Some err, w2) \<Rightarrow> (Inl (Wrap ''failed to create temp corpus directory'' err), e1, w2)
           | (None, w2) \<Rightarrow>
          (case copyDir corpusDir tempCorpusDir w2 of
             (Some err, w3) \<Rightarrow> (Inl (Wrap ''failed to copy corpus'' err), e1, w3)
           | (None, w3) \<Rightarrow>
          let targetTime = getTargetDuration en e1 t;
              crashersDir = Join [tempDir, ''crashers'']
          in
          (case MkdirAll crashersDir w3 of
             (Some err, w4) \<Rightarrow> (Inl (Wrap ''failed to create crashers directory'' err), e1, w4)
           | (None, w4) \<Rightarrow>
          (case harness en (Name t) targetTime (Parallelism (Config e1)) (Package t) tempDir w4 of
             (err, output, elapsed, w5) \<Rightarrow>
          let result0 = \<lparr> Target = t, Duration = elapsed, Success = (err = None),
                          ErrorMessage = (if err \<noteq> None then output else []),
                          CrashInputs = (if err \<noteq> None then collect_crashers en tempDir w5 else []),
                          NewCorpusItems = 0, Coverage = Finite 0 \<rparr>;
              newCorpusDir = Join [tempDir, ''corpus'']
          in
          (case ImportNewCorpusEntries en (CorpusManager e1) t newCorpusDir w5 of
             (Some err, cm2, w6) \<Rightarrow>
               (Inl (Wrap ''failed to import new corpus entries'' err), e1\<lparr>CorpusManager := cm2\<rparr>, w6)
           | (None, cm2, w6) \<Rightarrow>
               (Inr (result0\<lparr>NewCorpusItems :=
                        (case ReadDir newCorpusDir w6 of
                           Inl e' \<Rightarrow> 0
                         | Inr entries \<Rightarrow> int (length entries))\<rparr>),
                e1\<lparr>CorpusManager := cm2\<rparr>, w6)))))))"

definition RunTarget ::
  "env \<Rightarrow> fuzz_engine \<Rightarrow> target \<Rightarrow> world \<Rightarrow> (error + result) \<times> fuzz_engine \<times> world" where
  "RunTarget en e t w =
     (case MkdirTemp en [] ''fuzz-run-*'' w of
        (Inl err, w0) \<Rightarrow> (Inl (Wrap ''failed to create temp directory'' err), e, w0)
      | (Inr tempDir, w0) \<Rightarrow>
          (case run_in_workspace en e t tempDir w0 of
             (r, e', w') \<Rightarrow> (r, e', RemoveAll tempDir w')))"

text \<open>The loop of \<open>RunAll\<close> over the engine's targets.\<close>

fun run_targets ::
  "env \<Rightarrow> fuzz_engine \<Rightarrow> target list \<Rightarrow> world \<Rightarrow> error option \<times> fuzz_engine \<times> world" where
  "run_targets en e [] w = (None, e, w)"
| "run_targets en e (t # ts) w =
     (case RunTarget en e t w of
        (Inl err, e', w') \<Rightarrow>
          (Some (Wrap (''failed to run target '' @ Package t @ ''.'' @ Name t) err), e', w')
      | (Inr r, e', w') \<Rightarrow> run_targets en (e'\<lparr>Results := Results e' @ [r]\<rparr>) ts w')"

definition RunAll :: "env \<Rightarrow> fuzz_engine \<Rightarrow> world \<Rightarrow> error option \<times> fuzz_engine \<times> world" where
  "RunAll en e w = run_targets en e (Targets e) w"

section \<open>Target discovery (internal/target/discovery.go)\<close>

text \<open>
  The part of \<open>go/ast\<close> that discovery inspects. \<open>SelectorExpr x sel\<close> carries the name
  of its selector identifier; \<open>OtherExpr\<close> stands for every other expression node.
  A \<open>Field\<close> is one entry of a parameter list: the names it declares and their type.
  \<open>FuncDecl doc recv name params\<close>: \<open>doc\<close> is the text of the doc comment group as
  \<open>Doc.Text()\<close> returns it (\<open>None\<close> when \<open>Doc\<close> is nil), \<open>recv\<close> the receiver fields of a
  method, \<open>params\<close> is \<open>Type.Params.List\<close> (nil is the empty list).
\<close>

datatype expr = Ident string | StarExpr expr | SelectorExpr expr string | OtherExpr

datatype field = Field "string list" expr

datatype decl = FuncDecl "string option" "field list" string "field list" | GenDecl

fun hasFuzzParameter :: "decl \<Rightarrow> bool" where
  "hasFuzzParameter (FuncDecl doc recv name [Field names (StarExpr (SelectorExpr (Ident x) sel))]) =
     (x = ''testing'' \<and> sel = ''F'')"
| "hasFuzzParameter _ = False"

text \<open>The loop over \<open>file.Decls\<close> of \<open>findTargetsInPackage\<close>.\<close>

fun targets_of_decls :: "string \<Rightarrow> string \<Rightarrow> decl list \<Rightarrow> target list" where
  "targets_of_decls pkg testFile [] = []"
| "targets_of_decls pkg testFile (GenDecl # ds) = targets_of_decls pkg testFile ds"
| "targets_of_decls pkg testFile (FuncDecl doc recv name params # ds) =
     (if HasPrefix name ''Fuzz'' \<and> hasFuzzParameter (FuncDecl doc recv name params)
      then \<lparr> Package = pkg, Name = name, FilePath = testFile, FuncName = name,
             Description = (case doc of None \<Rightarrow> [] | Some text \<Rightarrow> text) \<rparr>
           # targets_of_decls pkg testFile ds
      else targets_of_decls pkg testFile ds)"

text \<open>
  The external capabilities of discovery: \<open>go list -f {{.Dir}}\<close>, the glob for
  \<open>*_test.go\<close> in a directory, and \<open>parser.ParseFile\<close>.
\<close>

record discovery_env =
  go_list_dir :: "string \<Rightarrow> error + string"
  glob_test_files :: "string \<Rightarrow> error + string list"
  ParseFile :: "string \<Rightarrow> error + decl list"

fun targets_of_files :: "discovery_env \<Rightarrow> string \<Rightarrow> string list \<Rightarrow> error + target list" where
  "targets_of_files env pkg [] = Inr []"
| "targets_of_files env pkg (testFile # fs) =
     (case ParseFile env testFile of
        Inl e \<Rightarrow> Inl (Wrap (''failed to parse '' @ testFile) e)
      | Inr decls \<Rightarrow>
          (case targets_of_files env pkg fs of
             Inl e \<Rightarrow> Inl e
           | Inr ts \<Rightarrow> Inr (targets_of_decls pkg testFile decls @ ts)))"

definition findTargetsInPackage :: "discovery_env \<Rightarrow> string \<Rightarrow> error + target list" where
  "findTargetsInPackage env pkg =
     (case go_list_dir env pkg of
        Inl e \<Rightarrow> Inl (Wrap ''go list failed'' e)
      | Inr pkgDir \<Rightarrow>
          (case glob_test_files env pkgDir of
             Inl e \<Rightarrow> Inl (Wrap ''failed to glob test files'' e)
           | Inr testFiles \<Rightarrow> targets_of_files env pkg testFiles))"

section \<open>Command line (cmd/fuzzctl/run.go)\<close>

text \<open>
  \<open>truncate\<close>: the slice \<open>s[:maxLen-3]\<close> panics when \<open>maxLen - 3\<close> is negative; the
  panic is the value \<open>None\<close>. (The upper bound holds on that branch, where
  \<open>maxLen < len(s)\<close>.)
\<close>

definition truncate :: "string \<Rightarrow> int \<Rightarrow> string option" where
  "truncate s maxLen =
     (if int (length s) \<le> maxLen then Some s
      else if maxLen - 3 < 0 then None
      else Some (take (nat (maxLen - 3)) s @ ''...''))"

section \<open>Drivers and inputs of the scenarios\<close>

text \<open>
  \<open>resolve_each\<close> resolves the directories of a list of targets, one call of
  \<open>GetTargetDir\<close> after the other on the same manager.
\<close>

fun resolve_each :: "corpus_manager \<Rightarrow> target list \<Rightarrow> world \<Rightarrow> corpus_manager \<times> world" where
  "resolve_each m [] w = (m, w)"
| "resolve_each m (t # ts) w = (case GetTargetDir m t w of (d, m1, w1) \<Rightarrow> resolve_each m1 ts w1)"

definition target_in :: "string \<Rightarrow> string \<Rightarrow> target" where
  "target_in pkg name =
     \<lparr> Package = pkg, Name = name, FilePath = [], FuncName = name, Description = [] \<rparr>"

definition budget_config :: "Duration \<Rightarrow> (string \<rightharpoonup> float64) \<Rightarrow> fuzz_engine" where
  "budget_config T alloc =
     \<lparr> Config = Default\<lparr>FuzzTime := T, TimeAllocation := alloc\<rparr>, Targets = [],
       CorpusManager = \<lparr> BaseDir = ''./fuzz-corpus'', TargetDirs = Map.empty,
                         Minimization = CoverageMinimization \<rparr>,
       Results = [] \<rparr>"

text \<open>
  A working directory \<open>/work\<close> with a corpus of one seed for the target
  \<open>pkg/codec.FuzzDecode\<close>, and an empty \<open>/tmp\<close>.
\<close>

definition codec_world :: world where
  "codec_world =
     \<lparr> nodes = [([''tmp''], Directory), ([''work''], Directory),
                ([''work'', ''fuzz-corpus''], Directory),
                ([''work'', ''fuzz-corpus'', ''pkg_codec''], Directory),
                ([''work'', ''fuzz-corpus'', ''pkg_codec'', ''FuzzDecode''], Directory),
                ([''work'', ''fuzz-corpus'', ''pkg_codec'', ''FuzzDecode'', ''seed1''],
                 RegFile ''s1'')],
       cwd = [''work''], TempDir = ''/tmp'' \<rparr>"

definition fresh_manager :: "MinimizationStrategy \<Rightarrow> corpus_manager" where
  "fresh_manager s = \<lparr> BaseDir = ''./fuzz-corpus'', TargetDirs = Map.empty, Minimization = s \<rparr>"

text \<open>
  The end-to-end scenario: the target \<open>pkg/codec.FuzzDecode\<close>, a budget of five minutes
  with the allocation \<open>{pkg/codec: 0.5, default: 0.1}\<close>, and a harness that exits
  non-zero for \<open>FuzzDecode\<close> after writing the crasher \<open>abc123\<close>, its sidecar
  \<open>abc123.output\<close> and one new corpus entry into its cache directory, and exits zero
  for every other target. Minimization succeeds and changes nothing.
\<close>

definition codec_target :: target where
  "codec_target =
     \<lparr> Package = ''pkg/codec'', Name = ''FuzzDecode'', FilePath = ''/work/pkg/codec/codec_test.go'',
       FuncName = ''FuzzDecode'', Description = [] \<rparr>"

definition other_target :: target where
  "other_target =
     \<lparr> Package = ''pkg/other'', Name = ''FuzzOther'', FilePath = ''/work/pkg/other/other_test.go'',
       FuncName = ''FuzzOther'', Description = [] \<rparr>"

definition codec_engine :: "target list \<Rightarrow> fuzz_engine" where
  "codec_engine ts =
     \<lparr> Config = Default\<lparr>TimeAllocation := [''pkg/codec'' \<mapsto> float64_lit (1/2),
                                              ''default'' \<mapsto> float64_lit (1/10)]\<rparr>,
       Targets = ts, CorpusManager = fresh_manager CoverageMinimization, Results = [] \<rparr>"

definition crash_harness ::
  "string \<Rightarrow> string \<Rightarrow> Duration \<Rightarrow> int \<Rightarrow> string \<Rightarrow> string \<Rightarrow> world
     \<Rightarrow> error option \<times> string \<times> Duration \<times> world" where
  "crash_harness out name fuzztime procs pkg cache w =
     (if name = ''FuzzDecode'' then
        (case (resolve w (Join [cache, ''crashers'', ''abc123'']),
               resolve w (Join [cache, ''crashers'', ''abc123.output'']),
               resolve w (Join [cache, ''corpus'', ''new1''])) of
           (Some k1, Some k2, Some k3) \<Rightarrow>
             (Some (SysErr ''exit status 1''), out, fuzztime,
              put k3 (RegFile ''n1'') (put k2 (RegFile ''panic'') (put k1 (RegFile ''x'') w)))
         | _ \<Rightarrow> (Some (SysErr ''exit status 1''), out, fuzztime, w))
      else (None, ''ok'', fuzztime, w))"

definition crash_env :: "string \<Rightarrow> env" where
  "crash_env out =
     \<lparr> harness = crash_harness out,
       minimizer = (\<lambda>name pkg cache w. (None, w)),
       nextRandom = (\<lambda>w. ''1''),
       glob_other = (\<lambda>pattern w. Inl (SysErr ''syntax error in pattern'')),
       unrepresentable = (\<lambda>x. - (2 ^ 63)) \<rparr>"

definition no_tmp_world :: world where
  "no_tmp_world = \<lparr> nodes = [([''work''], Directory)], cwd = [''work''], TempDir = ''/tmp'' \<rparr>"

text \<open>
  The discovery scenarios: the package \<open>example.com/foo\<close> with one test file of the
  declarations given. \<open>foo_decls\<close> declares \<open>FuzzFoo(f *testing.F)\<close> under the doc comment
  \<open>finds foo bugs\<close>, and \<open>NotAFuzzFunc(x int)\<close>; \<open>testing.F\<close> is the fuzzing context of
  the harness. \<open>two_decls\<close> declares \<open>FuzzTwo(a, b *testing.F)\<close>, a function of two
  parameters, which the parser gives as one field with two names.
\<close>

definition foo_decls :: "decl list" where
  "foo_decls =
     [FuncDecl (Some (''finds foo bugs'' @ [CHR 0x0A])) [] ''FuzzFoo''
        [Field [''f''] (StarExpr (SelectorExpr (Ident ''testing'') ''F''))],
      FuncDecl None [] ''NotAFuzzFunc'' [Field [''x''] (Ident ''int'')]]"

definition two_decls :: "decl list" where
  "two_decls =
     [FuncDecl None [] ''FuzzTwo''
        [Field [''a'', ''b''] (StarExpr (SelectorExpr (Ident ''testing'') ''F''))]]"

definition foo_env :: "decl list \<Rightarrow> discovery_env" where
  "foo_env decls =
     \<lparr> go_list_dir = (\<lambda>pkg. Inr ''/src/foo''),
       glob_test_files = (\<lambda>dir. Inr [''/src/foo/foo_test.go'']),
       ParseFile = (\<lambda>testFile. Inr decls) \<rparr>"

text \<open>
  The names a directory can hold: not empty, not \<open>.\<close> or \<open>..\<close>, without a
  separator. In a well-formed file system every element of every path, and of the
  working directory, is such a name.
\<close>

definition valid_name :: "string \<Rightarrow> bool" where
  "valid_name n = (n \<noteq> [] \<and> n \<noteq> ''.'' \<and> n \<noteq> ''..'' \<and> CHR ''/'' \<notin> set n)"

definition wf_world :: "world \<Rightarrow> bool" where
  "wf_world w = (list_all (list_all valid_name) (map fst (nodes w)) \<and> list_all valid_name (cwd w))"

text \<open>The number of regular files at or below a path.\<close>

definition is_file :: "ent option \<Rightarrow> bool" where
  "is_file e = (case e of Some (RegFile b) \<Rightarrow> True | _ \<Rightarrow> False)"

definition file_count :: "string list \<Rightarrow> world \<Rightarrow> nat" where
  "file_count base w = length (filter (\<lambda>k. prefix base k \<and> is_file (node_at w k)) (keys w))"

text \<open>
  The elements a cleaned path is made of (\<open>..\<close> may be one of them), and the shape of
  a cleaned path: its elements, after a separator when it is rooted.
\<close>

definition element_ok :: "string \<Rightarrow> bool" where
  "element_ok c = (c \<noteq> [] \<and> c \<noteq> ''.'' \<and> CHR ''/'' \<notin> set c)"

definition cleaned :: "bool \<Rightarrow> string list \<Rightarrow> string" where
  "cleaned r cs = (if r then ''/'' @ join_slash cs else if cs = [] then ''.'' else join_slash cs)"

text \<open>
  The names of the entries of a directory, in the order of \<open>os.ReadDir\<close>; none when it
  cannot be read. \<open>base_elements d\<close> are the elements of the cleaned path \<open>d\<close>.
\<close>

definition names_in :: "string \<Rightarrow> world \<Rightarrow> string list" where
  "names_in dir w = (case ReadDir dir w of Inl e \<Rightarrow> [] | Inr entries \<Rightarrow> map fst entries)"

definition base_elements :: "string \<Rightarrow> string list" where
  "base_elements d = (if d = [] then [] else normalize (rooted d) (elements d))"

text \<open>
  A workspace whose harness left the crashers \<open>c1\<close> and \<open>c2\<close> and the sidecar
  \<open>c1.output\<close>.
\<close>

definition crashers_world :: world where
  "crashers_world =
     \<lparr> nodes = [([''tmp''], Directory), ([''tmp'', ''fuzz-run-7''], Directory),
                ([''tmp'', ''fuzz-run-7'', ''crashers''], Directory),
                ([''tmp'', ''fuzz-run-7'', ''crashers'', ''c2''], RegFile ''b''),
                ([''tmp'', ''fuzz-run-7'', ''crashers'', ''c1.output''], RegFile ''trace''),
                ([''tmp'', ''fuzz-run-7'', ''crashers'', ''c1''], RegFile ''a'')],
       cwd = [''work''], TempDir = ''/tmp'' \<rparr>"

text \<open>
  \<open>grows w w'\<close>: every entry of \<open>w\<close> is in \<open>w'\<close> with the same content, and paths are
  resolved alike. \<open>quiet en m\<close>: no minimization follows an import of the manager \<open>m\<close>,
  or the minimizer of the environment succeeds and leaves the file system as it is.
\<close>

definition grows :: "world \<Rightarrow> world \<Rightarrow> bool" where
  "grows w w' = (cwd w' = cwd w \<and> TempDir w' = TempDir w
                 \<and> (\<forall>k v. node_at w k = Some v \<longrightarrow> node_at w' k = Some v))"

definition quiet :: "env \<Rightarrow> corpus_manager \<Rightarrow> bool" where
  "quiet en m = (Minimization m \<noteq> CoverageMinimization
                 \<or> (\<forall>name pkg cache w. minimizer en name pkg cache w = (None, w)))"

text \<open>
  Two directories that offer different contents under the name \<open>x\<close> (the first one
  also holds a subdirectory), and an empty corpus.
\<close>

definition import_world :: world where
  "import_world =
     \<lparr> nodes = [([''work''], Directory), ([''work'', ''fuzz-corpus''], Directory),
                ([''work'', ''in1''], Directory), ([''work'', ''in1'', ''x''], RegFile ''first''),
                ([''work'', ''in1'', ''sub''], Directory),
                ([''work'', ''in2''], Directory), ([''work'', ''in2'', ''x''], RegFile ''second'')],
       cwd = [''work''], TempDir = ''/tmp'' \<rparr>"

text \<open>
  An environment whose harness passes without writing anything and whose minimizer
  removes the entry \<open>seed1\<close> from the directory it is given.
\<close>

definition shrink_env :: env where
  "shrink_env =
     \<lparr> harness = (\<lambda>name fuzztime procs pkg cache w. (None, ''ok'', fuzztime, w)),
       minimizer = (\<lambda>name pkg cache w. (None, RemoveAll (Join [cache, ''seed1'']) w)),
       nextRandom = (\<lambda>w. ''1''),
       glob_other = (\<lambda>pattern w. Inl (SysErr ''syntax error in pattern'')),
       unrepresentable = (\<lambda>x. - (2 ^ 63)) \<rparr>"

section \<open>Properties\<close>

subsection \<open>Time budget\<close>

text \<open>
  Rounding. \<open>round_half_even r\<close> is within a half of \<open>r\<close> and does not cross a whole
  number; the exponent of a positive number below \<open>2 ^ n\<close> is below \<open>n\<close>.
\<close>

lemma pow2_powi: "pow2 q = 2 powi q"
  by (simp add: pow2_def power_int_def power_inverse [symmetric] inverse_eq_divide power_one_over)

lemma pow2_pos: "0 < pow2 q"
  by (simp add: pow2_powi)

lemma pow2_mono: "q \<le> q' \<Longrightarrow> pow2 q \<le> pow2 q'"
  by (simp add: pow2_powi power_int_increasing)

lemma round_half_even_near: "\<bar>of_int (round_half_even r) - r\<bar> \<le> 1/2"
  unfolding round_half_even_def Let_def
  by (auto simp: abs_if split: if_splits) linarith+

lemma round_half_even_ge: "of_int j \<le> r \<Longrightarrow> j \<le> round_half_even r"
proof -
  assume "of_int j \<le> r"
  hence "j \<le> \<lfloor>r\<rfloor>" by (simp add: le_floor_iff)
  then show ?thesis by (simp add: round_half_even_def Let_def)
qed

lemma round_half_even_le: "r \<le> of_int j \<Longrightarrow> round_half_even r \<le> j"
proof -
  assume a: "r \<le> of_int j"
  show ?thesis
  proof (cases "r = of_int j")
    case True
    then show ?thesis by (simp add: round_half_even_def)
  next
    case False
    with a have "r < of_int j" by simp
    hence "\<lfloor>r\<rfloor> < j" by (simp add: floor_less_iff)
    then show ?thesis by (simp add: round_half_even_def Let_def)
  qed
qed

lemma exponent_less:
  assumes "0 < x" "x < 2 ^ n"
  shows "exponent x < int n"
proof (cases "1 \<le> x")
  case True
  have "\<lfloor>x\<rfloor> < 2 ^ n" using assms(2)
    by (metis floor_less_iff of_int_numeral of_int_power)
  hence "bitlen \<lfloor>x\<rfloor> \<le> int n" by (simp add: bitlen_le_iff_power)
  moreover have "0 < n" using True assms(2) by (cases n) auto
  ultimately show ?thesis using True by (simp add: exponent_def)
next
  case False
  have "1 < 1 / x" using False assms(1) by simp
  hence "1 < \<lceil>1 / x\<rceil>" by (simp add: less_ceiling_iff)
  hence "\<not> bitlen (\<lceil>1 / x\<rceil> - 1) \<le> 0" by (simp add: bitlen_le_iff_power)
  then show ?thesis using False by (simp add: exponent_def)
qed


text \<open>
  A positive number below \<open>2 ^ n\<close>, with \<open>n\<close> at most 53, rounds to a finite value at
  most \<open>2 ^ n / 2 ^ 54\<close> away, and no whole number lies strictly between the number
  and its rounding: below \<open>2 ^ 53\<close> every whole number is a \<open>float64\<close>.
\<close>

lemma pow2_nonpos: "q \<le> 0 \<Longrightarrow> pow2 q = 1 / of_int (2 ^ nat (- q))"
  by (cases "q = 0") (simp_all add: pow2_def)

lemma pow2_diff_53: "n \<le> 53 \<Longrightarrow> pow2 (int n - 53) = 2 ^ n / 2 ^ 53"
proof -
  assume "n \<le> 53"
  have "pow2 (int n - 53) = 2 powi (int n - 53)" by (rule pow2_powi)
  also have "\<dots> = 2 powi (int n) / 2 powi 53"
    by (subst power_int_diff) simp_all
  finally show ?thesis by simp
qed

lemma round_float64_bounds:
  assumes pos: "0 < x" and less: "x < 2 ^ n" and n: "n \<le> 53"
  shows "\<exists>y. round_float64 x = Finite y \<and> \<bar>y - x\<bar> \<le> 2 ^ n / 2 ^ 54 \<and>
             (\<forall>j. of_int j \<le> x \<longrightarrow> of_int j \<le> y) \<and> (\<forall>j. x \<le> of_int j \<longrightarrow> y \<le> of_int j)"
proof -
  define e where "e = exponent x"
  define q where "q = max (e - 52) (- 1074)"
  define m where "m = round_half_even (x / pow2 q)"
  define p :: int where "p = 2 ^ nat (- q)"
  have e: "e < int n" unfolding e_def by (rule exponent_less [OF pos less])
  have q: "q \<le> int n - 53" using e n by (simp add: q_def)
  hence q0: "q \<le> 0" using n by simp
  have pq: "pow2 q = 1 / of_int p" unfolding p_def by (rule pow2_nonpos [OF q0])
  have p: "0 < p" by (simp add: p_def)
  have le: "pow2 q \<le> 2 ^ n / 2 ^ 53"
    using pow2_mono [OF q] by (simp add: pow2_diff_53 [OF n])
  have val: "round_float64 x = Finite (of_int m * pow2 q)"
    using pos e n by (simp add: round_float64_def Let_def e_def [symmetric] q_def [symmetric]
          m_def [symmetric])
  have "\<bar>of_int m - x / pow2 q\<bar> \<le> 1/2" unfolding m_def by (rule round_half_even_near)
  hence "\<bar>of_int m - x / pow2 q\<bar> * pow2 q \<le> 1/2 * pow2 q"
    using pow2_pos [of q] by (simp only: mult_le_cancel_right_pos)
  moreover have "\<bar>of_int m - x / pow2 q\<bar> * pow2 q = \<bar>of_int m * pow2 q - x\<bar>"
  proof -
    have "\<bar>of_int m - x / pow2 q\<bar> * pow2 q = \<bar>(of_int m - x / pow2 q) * pow2 q\<bar>"
      using pow2_pos [of q] by (simp add: abs_mult)
    also have "(of_int m - x / pow2 q) * pow2 q = of_int m * pow2 q - x"
      using pow2_pos [of q] by (simp add: field_simps)
    finally show ?thesis .
  qed
  ultimately have "\<bar>of_int m * pow2 q - x\<bar> \<le> 1/2 * pow2 q" by simp
  also have "\<dots> \<le> 1/2 * (2 ^ n / 2 ^ 53)" using le by simp
  also have "\<dots> = 2 ^ n / 2 ^ 54" by simp
  finally have near: "\<bar>of_int m * pow2 q - x\<bar> \<le> 2 ^ n / 2 ^ 54" .
  have lower: "of_int j \<le> of_int m * pow2 q" if "of_int j \<le> x" for j
  proof -
    have "of_int (j * p) \<le> x / pow2 q" using that p by (simp add: pq mult_right_mono)
    hence "j * p \<le> m" unfolding m_def by (rule round_half_even_ge)
    hence "(of_int (j * p) :: rat) \<le> of_int m" by (simp only: of_int_le_iff)
    hence "of_int (j * p) / of_int p \<le> (of_int m :: rat) / of_int p"
      using p by (simp only: divide_right_mono of_int_0_le_iff less_imp_le)
    thus ?thesis using p by (simp add: pq)
  qed
  have upper: "of_int m * pow2 q \<le> of_int j" if "x \<le> of_int j" for j
  proof -
    have "x / pow2 q \<le> of_int (j * p)" using that p by (simp add: pq mult_right_mono)
    hence "m \<le> j * p" unfolding m_def by (rule round_half_even_le)
    hence "(of_int m :: rat) \<le> of_int (j * p)" by (simp only: of_int_le_iff)
    hence "(of_int m :: rat) / of_int p \<le> of_int (j * p) / of_int p"
      using p by (simp only: divide_right_mono of_int_0_le_iff less_imp_le)
    thus ?thesis using p by (simp add: pq)
  qed
  show ?thesis using val near lower upper by blast
qed

text \<open>
  The constants of the scenarios: \<open>0.5\<close> is a \<open>float64\<close>; \<open>0.1\<close> and \<open>0.7\<close> are not, and
  the program has their nearest \<open>float64\<close> instead.
\<close>

lemma lit_half: "float64_lit (1/2) = Finite (1/2)"
  by code_simp

lemma lit_tenth: "float64_lit (1/10) = Finite (3602879701896397 / 36028797018963968)"
  by code_simp

lemma lit_seven_tenths: "float64_lit (7/10) = Finite (3152519739159347 / 4503599627370496)"
  by code_simp

text \<open>Conversions between durations and \<open>float64\<close>.\<close>

lemma sint_Duration: "- (2 ^ 63) \<le> k \<Longrightarrow> k < 2 ^ 63 \<Longrightarrow> sint (word_of_int k :: 64 word) = k"
  by (simp add: sint_sbintrunc' signed_take_bit_int_eq_self)

lemma Duration_of_float64_floor:
  assumes "0 \<le> y" "\<lfloor>y\<rfloor> < 2 ^ 63"
  shows "sint (Duration_of_float64 other (Finite y)) = \<lfloor>y\<rfloor>"
proof -
  have "0 \<le> \<lfloor>y\<rfloor>" using assms(1) by simp
  hence "- (2 ^ 63) \<le> \<lfloor>y\<rfloor>" by simp
  thus ?thesis using assms
    by (simp add: Duration_of_float64_def discard_fraction_def sint_Duration)
qed

lemma round_float64_int_finite:
  assumes "\<bar>k\<bar> < 2 ^ 64"
  shows "\<exists>y. round_float64 (of_int k) = Finite y"
proof (cases "k = 0")
  case True
  then show ?thesis by (simp add: round_float64_def)
next
  case False
  define x :: rat where "x = of_int k"
  have "(of_int \<bar>k\<bar> :: rat) < of_int (2 ^ 64)" using assms by (simp only: of_int_less_iff)
  hence less: "\<bar>x\<bar> < 2 ^ 64" by (simp add: x_def)
  have pos: "0 < \<bar>x\<bar>" using False by (simp add: x_def)
  have "exponent \<bar>x\<bar> < 64" using exponent_less [OF pos less] by simp
  thus ?thesis using False
    by (simp add: round_float64_def Let_def x_def [symmetric])
qed

lemma round_float64_int_exact:
  assumes "0 \<le> k" "k < 2 ^ 53"
  shows "round_float64 (of_int k) = Finite (of_int k)"
proof (cases "k = 0")
  case True
  then show ?thesis by (simp add: round_float64_def)
next
  case False
  define x :: rat where "x = of_int k"
  have pos: "0 < x" using False assms(1) by (simp add: x_def)
  have "(of_int k :: rat) < of_int (2 ^ 53)" using assms(2) by (simp only: of_int_less_iff)
  hence less: "x < 2 ^ 53" by (simp add: x_def)
  obtain y where y: "round_float64 x = Finite y"
      and lo: "\<forall>j. of_int j \<le> x \<longrightarrow> of_int j \<le> y" and hi: "\<forall>j. x \<le> of_int j \<longrightarrow> y \<le> of_int j"
    using round_float64_bounds [OF pos less] by auto
  have "x \<le> y" using lo [rule_format, of k] by (simp add: x_def)
  moreover have "y \<le> x" using hi [rule_format, of k] by (simp add: x_def)
  ultimately show ?thesis using y by (simp add: x_def)
qed

lemma float64_of_Duration_finite: "\<exists>y. float64_of_Duration d = Finite y"
proof -
  have "- (2 ^ 63) \<le> sint d" "sint d < 2 ^ 63"
    using sint_range_size [of d] by (simp_all add: word_size)
  hence "\<bar>sint d\<bar> < 2 ^ 64" by simp
  thus ?thesis unfolding float64_of_Duration_def by (rule round_float64_int_finite)
qed

lemma float64_of_Duration_exact:
  assumes "0 \<le> sint d" "sint d < 2 ^ 53"
  shows "float64_of_Duration d = Finite (of_int (sint d))"
  unfolding float64_of_Duration_def using assms by (rule round_float64_int_exact)

lemma zero_fraction:
  "Duration_of_float64 other (float64_mul (float64_of_Duration d) (Finite 0)) = 0"
proof -
  obtain y where "float64_of_Duration d = Finite y"
    using float64_of_Duration_finite by blast
  thus ?thesis
    by (simp add: round_float64_def Duration_of_float64_def discard_fraction_def)
qed

text \<open>
  The products of the scenarios. Half of a budget below \<open>2 ^ 53\<close> nanoseconds, and a
  tenth of a budget below \<open>2 ^ 52\<close> nanoseconds, come out as the exact quotient without
  its fraction, although the \<open>float64\<close> for \<open>0.1\<close> is not a tenth and the product is
  rounded.
\<close>

lemma floor_between:
  fixes y :: rat
  assumes "of_int j \<le> y" "y < of_int j + 1"
  shows "\<lfloor>y\<rfloor> = j"
  using assms by (simp add: floor_unique)

lemma half_product:
  assumes k0: "0 \<le> k" and k53: "k < 2 ^ 53"
  shows "\<exists>y. round_float64 (of_int k * (1/2)) = Finite y \<and> 0 \<le> y \<and> \<lfloor>y\<rfloor> = k div 2"
proof (cases "k = 0")
  case True
  then show ?thesis by (simp add: round_float64_def)
next
  case False
  define x :: rat where "x = of_int k * (1/2)"
  define j where "j = k div 2"
  define r where "r = k mod 2"
  have "k = 2 * j + r" by (simp add: j_def r_def)
  hence "(of_int k :: rat) = of_int (2 * j + r)" by simp
  hence kr: "(of_int k :: rat) = 2 * of_int j + of_int r" by simp
  have "0 \<le> r" "r \<le> 1" by (simp_all add: r_def)
  hence r: "(0 :: rat) \<le> of_int r" "(of_int r :: rat) \<le> 1" by simp_all
  have "0 \<le> j" using k0 by (simp add: j_def)
  hence j: "(0 :: rat) \<le> of_int j" by simp
  have "(of_int k :: rat) < of_int (2 ^ 53)" using k53 by (simp only: of_int_less_iff)
  hence kless: "(of_int k :: rat) < 9007199254740992" by simp
  have pos: "0 < x" using False k0 by (simp add: x_def)
  have less: "x < 2 ^ 52" using kless by (simp add: x_def)
  obtain y where y: "round_float64 x = Finite y"
      and near: "\<bar>y - x\<bar> \<le> 2 ^ 52 / 2 ^ 54"
      and lo: "\<forall>i. of_int i \<le> x \<longrightarrow> of_int i \<le> y"
    using round_float64_bounds [OF pos less] by auto
  have "of_int j \<le> x" using kr r by (simp add: x_def)
  hence jy: "of_int j \<le> y" using lo by blast
  have "y - x \<le> 2 ^ 52 / 2 ^ 54" using abs_ge_self near by (rule order_trans)
  hence "y \<le> x + 1/4" by simp
  moreover have "x \<le> of_int j + 1/2" using kr r by (simp add: x_def)
  ultimately have "y < of_int j + 1" by linarith
  with jy have "\<lfloor>y\<rfloor> = j" by (rule floor_between)
  moreover have "0 \<le> y" using jy j by linarith
  ultimately show ?thesis using y by (simp add: x_def j_def)
qed

lemma tenth_product:
  assumes k0: "0 \<le> k" and k52: "k < 2 ^ 52"
  shows "\<exists>y. round_float64 (of_int k * (3602879701896397 / 36028797018963968)) = Finite y \<and>
             0 \<le> y \<and> \<lfloor>y\<rfloor> = k div 10"
proof (cases "k = 0")
  case True
  then show ?thesis by (simp add: round_float64_def)
next
  case False
  define x :: rat where "x = of_int k * (3602879701896397 / 36028797018963968)"
  define j where "j = k div 10"
  define r where "r = k mod 10"
  have "k = 10 * j + r" by (simp add: j_def r_def)
  hence "(of_int k :: rat) = of_int (10 * j + r)" by simp
  hence kr: "(of_int k :: rat) = 10 * of_int j + of_int r" by simp
  have "0 \<le> r" "r \<le> 9" by (simp_all add: r_def)
  hence r: "(0 :: rat) \<le> of_int r" "(of_int r :: rat) \<le> 9" by simp_all
  have "0 \<le> j" using k0 by (simp add: j_def)
  hence j: "(0 :: rat) \<le> of_int j" by simp
  have "(of_int k :: rat) < of_int (2 ^ 52)" using k52 by (simp only: of_int_less_iff)
  hence kless: "(of_int k :: rat) < 4503599627370496" by simp
  have kpos: "(0 :: rat) < of_int k" using False k0 by simp
  have pos: "0 < x" using kpos by (simp add: x_def)
  have "x < 562949953421312" using kless unfolding x_def by linarith
  hence less: "x < 2 ^ 49" by simp
  obtain y where y: "round_float64 x = Finite y"
      and near: "\<bar>y - x\<bar> \<le> 2 ^ 49 / 2 ^ 54"
      and lo: "\<forall>i. of_int i \<le> x \<longrightarrow> of_int i \<le> y"
    using round_float64_bounds [OF pos less] by auto
  have "of_int j \<le> x" using kr r j unfolding x_def by linarith
  hence jy: "of_int j \<le> y" using lo by blast
  have "y - x \<le> 2 ^ 49 / 2 ^ 54" using abs_ge_self near by (rule order_trans)
  hence "y \<le> x + 1/32" by simp
  moreover have "x < of_int j + 37/40" using kr r kless unfolding x_def by linarith
  ultimately have "y < of_int j + 1" by linarith
  with jy have "\<lfloor>y\<rfloor> = j" by (rule floor_between)
  moreover have "0 \<le> y" using jy j by linarith
  ultimately show ?thesis using y by (simp add: x_def j_def)
qed

lemma half_budget:
  assumes "0 \<le> sint T" "sint T < 2 ^ 53"
  shows "sint (Duration_of_float64 other
                 (float64_mul (float64_of_Duration T) (float64_lit (1/2)))) = sint T div 2"
proof -
  obtain y where y: "round_float64 (of_int (sint T) * (1/2)) = Finite y"
      and y0: "0 \<le> y" and fl: "\<lfloor>y\<rfloor> = sint T div 2"
    using half_product [OF assms] by blast
  have "sint T div 2 < 2 ^ 63" using assms by simp
  hence "\<lfloor>y\<rfloor> < 2 ^ 63" by (simp only: fl)
  hence "sint (Duration_of_float64 other (Finite y)) = \<lfloor>y\<rfloor>"
    using y0 by (simp only: Duration_of_float64_floor)
  thus ?thesis
    by (simp only: float64_of_Duration_exact [OF assms] lit_half float64_mul.simps y fl)
qed

lemma tenth_budget:
  assumes "0 \<le> sint T" "sint T < 2 ^ 52"
  shows "sint (Duration_of_float64 other
                 (float64_mul (float64_of_Duration T) (float64_lit (1/10)))) = sint T div 10"
proof -
  have less: "sint T < 2 ^ 53" using assms(2) by simp
  obtain y where y: "round_float64 (of_int (sint T) * (3602879701896397 / 36028797018963968)) = Finite y"
      and y0: "0 \<le> y" and fl: "\<lfloor>y\<rfloor> = sint T div 10"
    using tenth_product [OF assms] by blast
  have "sint T div 10 < 2 ^ 63" using assms by simp
  hence "\<lfloor>y\<rfloor> < 2 ^ 63" by (simp only: fl)
  hence "sint (Duration_of_float64 other (Finite y)) = \<lfloor>y\<rfloor>"
    using y0 by (simp only: Duration_of_float64_floor)
  thus ?thesis
    by (simp only: float64_of_Duration_exact [OF assms(1) less] lit_tenth float64_mul.simps y fl)
qed

text \<open>
  For any fraction between 0 and 1 and a budget below \<open>2 ^ 53\<close> nanoseconds, the result
  is the exact product rounded to one of its two neighbouring whole numbers.
\<close>

lemma unit_product:
  assumes k0: "0 \<le> k" and k53: "k < 2 ^ 53" and a0: "0 \<le> a" and a1: "a \<le> 1"
  shows "\<exists>y. round_float64 (of_int k * a) = Finite y \<and> 0 \<le> y \<and>
             \<lfloor>of_int k * a\<rfloor> \<le> \<lfloor>y\<rfloor> \<and> \<lfloor>y\<rfloor> \<le> \<lceil>of_int k * a\<rceil>"
proof (cases "of_int k * a = 0")
  case True
  show ?thesis unfolding True by (simp add: round_float64_def)
next
  case False
  define x :: rat where "x = of_int k * a"
  have kr: "(0 :: rat) \<le> of_int k" using k0 by simp
  have "(of_int k :: rat) < of_int (2 ^ 53)" using k53 by (simp only: of_int_less_iff)
  hence kless: "(of_int k :: rat) < 2 ^ 53" by simp
  have "0 \<le> x" unfolding x_def using kr a0 by (rule mult_nonneg_nonneg)
  moreover have "x \<noteq> 0" using False unfolding x_def .
  ultimately have pos: "0 < x" by simp
  have "x \<le> of_int k * 1" unfolding x_def using a1 kr by (rule mult_left_mono)
  hence less: "x < 2 ^ 53" using kless by simp
  obtain y where y: "round_float64 x = Finite y"
      and lo: "\<forall>i. of_int i \<le> x \<longrightarrow> of_int i \<le> y"
      and hi: "\<forall>i. x \<le> of_int i \<longrightarrow> y \<le> of_int i"
    using round_float64_bounds [OF pos less] by auto
  have l: "of_int \<lfloor>x\<rfloor> \<le> y" using lo by simp
  hence "\<lfloor>x\<rfloor> \<le> \<lfloor>y\<rfloor>" by (simp only: le_floor_iff)
  moreover have "y \<le> of_int \<lceil>x\<rceil>" using hi by simp
  hence "\<lfloor>y\<rfloor> \<le> \<lceil>x\<rceil>" by (simp add: floor_le_iff) 
  moreover have "0 \<le> y" using l \<open>0 \<le> x\<close> by (simp add: order_trans [of 0 "of_int \<lfloor>x\<rfloor>" y])
  ultimately show ?thesis using y by (simp add: x_def)
qed

lemma unit_budget:
  assumes T: "0 \<le> sint T" "sint T < 2 ^ 53" and a: "0 \<le> a" "a \<le> 1"
  shows "\<lfloor>of_int (sint T) * a\<rfloor>
           \<le> sint (Duration_of_float64 other (float64_mul (float64_of_Duration T) (Finite a)))
         \<and> sint (Duration_of_float64 other (float64_mul (float64_of_Duration T) (Finite a)))
           \<le> \<lceil>of_int (sint T) * a\<rceil>"
proof -
  obtain y where y: "round_float64 (of_int (sint T) * a) = Finite y"
      and y0: "0 \<le> y" and lo: "\<lfloor>of_int (sint T) * a\<rfloor> \<le> \<lfloor>y\<rfloor>"
      and hi: "\<lfloor>y\<rfloor> \<le> \<lceil>of_int (sint T) * a\<rceil>"
    using unit_product [OF T a] by blast
  have "(0 :: rat) \<le> of_int (sint T)" using T(1) by (simp only: of_int_0_le_iff)
  with a(2) have "of_int (sint T) * a \<le> of_int (sint T) * 1" by (rule mult_left_mono)
  hence "\<lceil>of_int (sint T) * a\<rceil> \<le> \<lceil>(of_int (sint T) :: rat)\<rceil>"
    by (simp only: mult_1_right ceiling_mono)
  hence "\<lceil>of_int (sint T) * a\<rceil> \<le> sint T" by (simp only: ceiling_of_int)
  with hi have "\<lfloor>y\<rfloor> \<le> sint T" by (rule order_trans)
  moreover have "sint T < 2 ^ 63" using T(2) by simp
  ultimately have "\<lfloor>y\<rfloor> < 2 ^ 63" by (rule le_less_trans)
  hence "\<lfloor>y\<rfloor> < 2 ^ 63" .
  hence "sint (Duration_of_float64 other (Finite y)) = \<lfloor>y\<rfloor>"
    using y0 by (simp only: Duration_of_float64_floor)
  thus ?thesis using lo hi
    by (simp only: float64_of_Duration_exact [OF T] float64_mul.simps y)
qed

lemma getTargetDuration_cases:
  "getTargetDuration en e t =
     Duration_of_float64 (unrepresentable en)
       (float64_mul (float64_of_Duration (FuzzTime (Config e)))
          (case TimeAllocation (Config e) (Package t) of
             Some a \<Rightarrow> a
           | None \<Rightarrow> (case TimeAllocation (Config e) ''default'' of
                        Some d \<Rightarrow> d | None \<Rightarrow> Finite 0)))"
  by (simp add: getTargetDuration_def index_float_def split: option.splits)

text \<open>
  C2. The time budget of a target is the global budget times the fraction of its
  package when the allocation map has that key, else times the fraction under the key
  \<open>default\<close> when that key is present, else \<open>0\<close>. The product is the one the program
  computes: the budget \<open>T\<close> converted to \<open>float64\<close>, multiplied in \<open>float64\<close>, and
  converted to a duration, a whole number of nanoseconds in 64 bits. For a fraction
  \<open>a\<close> between 0 and 1 and \<open>0 \<le> T < 2 ^ 53\<close> nanoseconds (104 days) the result lies
  between the exact product \<open>T a\<close> rounded down and rounded up. With the allocation
  \<open>{pkgA: 0.5, default: 0.1}\<close>, a target in \<open>pkgA\<close> gets \<open>0.5 T\<close>, which is
  \<open>T div 2\<close> nanoseconds for \<open>0 \<le> T < 2 ^ 53\<close>, and a target in any other package gets
  \<open>0.1 T\<close>, which is \<open>T div 10\<close> nanoseconds for \<open>0 \<le> T < 2 ^ 52\<close>.
\<close>

theorem getTargetDuration_budget:
  "getTargetDuration en e t =
     Duration_of_float64 (unrepresentable en)
       (float64_mul (float64_of_Duration (FuzzTime (Config e)))
          (case TimeAllocation (Config e) (Package t) of
             Some a \<Rightarrow> a
           | None \<Rightarrow> (case TimeAllocation (Config e) ''default'' of
                        Some d \<Rightarrow> d | None \<Rightarrow> Finite 0)))
   \<and> (TimeAllocation (Config e) (Package t) = None \<and> TimeAllocation (Config e) ''default'' = None
        \<longrightarrow> getTargetDuration en e t = 0)
   \<and> (\<forall>a. (TimeAllocation (Config e) (Package t) = Some (Finite a) \<or>
             TimeAllocation (Config e) (Package t) = None \<and>
             TimeAllocation (Config e) ''default'' = Some (Finite a)) \<and>
            0 \<le> a \<and> a \<le> 1 \<and> 0 \<le> sint (FuzzTime (Config e)) \<and> sint (FuzzTime (Config e)) < 2 ^ 53
        \<longrightarrow> \<lfloor>of_int (sint (FuzzTime (Config e))) * a\<rfloor> \<le> sint (getTargetDuration en e t) \<and>
            sint (getTargetDuration en e t) \<le> \<lceil>of_int (sint (FuzzTime (Config e))) * a\<rceil>)
   \<and> (TimeAllocation (Config e) = [''pkgA'' \<mapsto> float64_lit (1/2), ''default'' \<mapsto> float64_lit (1/10)] \<longrightarrow>
        (Package t = ''pkgA'' \<longrightarrow>
           getTargetDuration en e t
             = Duration_of_float64 (unrepresentable en)
                 (float64_mul (float64_of_Duration (FuzzTime (Config e))) (float64_lit (1/2))) \<and>
           (0 \<le> sint (FuzzTime (Config e)) \<and> sint (FuzzTime (Config e)) < 2 ^ 53 \<longrightarrow>
              sint (getTargetDuration en e t) = sint (FuzzTime (Config e)) div 2)) \<and>
        (Package t \<noteq> ''pkgA'' \<longrightarrow>
           getTargetDuration en e t
             = Duration_of_float64 (unrepresentable en)
                 (float64_mul (float64_of_Duration (FuzzTime (Config e))) (float64_lit (1/10))) \<and>
           (0 \<le> sint (FuzzTime (Config e)) \<and> sint (FuzzTime (Config e)) < 2 ^ 52 \<longrightarrow>
              sint (getTargetDuration en e t) = sint (FuzzTime (Config e)) div 10)))"
proof (intro conjI)
  show "getTargetDuration en e t =
     Duration_of_float64 (unrepresentable en)
       (float64_mul (float64_of_Duration (FuzzTime (Config e)))
          (case TimeAllocation (Config e) (Package t) of
             Some a \<Rightarrow> a
           | None \<Rightarrow> (case TimeAllocation (Config e) ''default'' of
                        Some d \<Rightarrow> d | None \<Rightarrow> Finite 0)))"
    by (rule getTargetDuration_cases)
next
  show "TimeAllocation (Config e) (Package t) = None \<and> TimeAllocation (Config e) ''default'' = None
        \<longrightarrow> getTargetDuration en e t = 0"
    by (simp add: getTargetDuration_cases zero_fraction)
next
  show "\<forall>a. (TimeAllocation (Config e) (Package t) = Some (Finite a) \<or>
             TimeAllocation (Config e) (Package t) = None \<and>
             TimeAllocation (Config e) ''default'' = Some (Finite a)) \<and>
            0 \<le> a \<and> a \<le> 1 \<and> 0 \<le> sint (FuzzTime (Config e)) \<and> sint (FuzzTime (Config e)) < 2 ^ 53
        \<longrightarrow> \<lfloor>of_int (sint (FuzzTime (Config e))) * a\<rfloor> \<le> sint (getTargetDuration en e t) \<and>
            sint (getTargetDuration en e t) \<le> \<lceil>of_int (sint (FuzzTime (Config e))) * a\<rceil>"
  proof (intro allI impI, elim conjE)
    fix a
    assume key: "TimeAllocation (Config e) (Package t) = Some (Finite a) \<or>
             TimeAllocation (Config e) (Package t) = None \<and>
             TimeAllocation (Config e) ''default'' = Some (Finite a)"
      and a: "0 \<le> a" "a \<le> 1"
      and T: "0 \<le> sint (FuzzTime (Config e))" "sint (FuzzTime (Config e)) < 2 ^ 53"
    from key have "getTargetDuration en e t =
        Duration_of_float64 (unrepresentable en)
          (float64_mul (float64_of_Duration (FuzzTime (Config e))) (Finite a))"
      by (auto simp: getTargetDuration_cases)
    thus "\<lfloor>of_int (sint (FuzzTime (Config e))) * a\<rfloor> \<le> sint (getTargetDuration en e t) \<and>
            sint (getTargetDuration en e t) \<le> \<lceil>of_int (sint (FuzzTime (Config e))) * a\<rceil>"
      using unit_budget [OF T a, of "unrepresentable en"] by (simp only:)
  qed
next
  show "TimeAllocation (Config e) = [''pkgA'' \<mapsto> float64_lit (1/2), ''default'' \<mapsto> float64_lit (1/10)] \<longrightarrow>
        (Package t = ''pkgA'' \<longrightarrow>
           getTargetDuration en e t
             = Duration_of_float64 (unrepresentable en)
                 (float64_mul (float64_of_Duration (FuzzTime (Config e))) (float64_lit (1/2))) \<and>
           (0 \<le> sint (FuzzTime (Config e)) \<and> sint (FuzzTime (Config e)) < 2 ^ 53 \<longrightarrow>
              sint (getTargetDuration en e t) = sint (FuzzTime (Config e)) div 2)) \<and>
        (Package t \<noteq> ''pkgA'' \<longrightarrow>
           getTargetDuration en e t
             = Duration_of_float64 (unrepresentable en)
                 (float64_mul (float64_of_Duration (FuzzTime (Config e))) (float64_lit (1/10))) \<and>
           (0 \<le> sint (FuzzTime (Config e)) \<and> sint (FuzzTime (Config e)) < 2 ^ 52 \<longrightarrow>
              sint (getTargetDuration en e t) = sint (FuzzTime (Config e)) div 10))"
  proof (intro impI conjI; (elim conjE)?)
    assume alloc: "TimeAllocation (Config e) = [''pkgA'' \<mapsto> float64_lit (1/2), ''default'' \<mapsto> float64_lit (1/10)]"
      and pkg: "Package t = ''pkgA''"
    show half: "getTargetDuration en e t
             = Duration_of_float64 (unrepresentable en)
                 (float64_mul (float64_of_Duration (FuzzTime (Config e))) (float64_lit (1/2)))"
      by (simp add: getTargetDuration_cases alloc pkg)
    assume "0 \<le> sint (FuzzTime (Config e))" "sint (FuzzTime (Config e)) < 2 ^ 53"
    thus "sint (getTargetDuration en e t) = sint (FuzzTime (Config e)) div 2"
      by (simp only: half half_budget)
  next
    assume alloc: "TimeAllocation (Config e) = [''pkgA'' \<mapsto> float64_lit (1/2), ''default'' \<mapsto> float64_lit (1/10)]"
      and pkg: "Package t \<noteq> ''pkgA''"
    show tenth: "getTargetDuration en e t
             = Duration_of_float64 (unrepresentable en)
                 (float64_mul (float64_of_Duration (FuzzTime (Config e))) (float64_lit (1/10)))"
      using pkg by (simp add: getTargetDuration_cases alloc)
    assume "0 \<le> sint (FuzzTime (Config e))" "sint (FuzzTime (Config e)) < 2 ^ 52"
    thus "sint (getTargetDuration en e t) = sint (FuzzTime (Config e)) div 10"
      by (simp only: tenth tenth_budget)
  qed
qed

text \<open>
  With a total budget of five minutes: two and a half minutes for \<open>pkgA\<close>, thirty
  seconds for a package without a key, nothing when there is no \<open>default\<close> either; and
  with the fraction \<open>0.7\<close>, whose \<open>float64\<close> is below seven tenths, a budget between
  209999999999 and 210000000000 nanoseconds.
\<close>

theorem getTargetDuration_budget_witness:
  "getTargetDuration (crash_env [])
      (budget_config (5 * Minute) [''pkgA'' \<mapsto> float64_lit (1/2), ''default'' \<mapsto> float64_lit (1/10)])
      (target_in ''pkgA'' ''FuzzA'') = 2 * Minute + 30 * Second
   \<and> getTargetDuration (crash_env [])
      (budget_config (5 * Minute) [''pkgA'' \<mapsto> float64_lit (1/2), ''default'' \<mapsto> float64_lit (1/10)])
      (target_in ''pkgB'' ''FuzzB'') = 30 * Second
   \<and> getTargetDuration (crash_env [])
      (budget_config (5 * Minute) [''pkgA'' \<mapsto> float64_lit (1/2)])
      (target_in ''pkgB'' ''FuzzB'') = 0
   \<and> 209999999999 \<le> sint (getTargetDuration (crash_env [])
      (budget_config (5 * Minute) [''pkgA'' \<mapsto> float64_lit (7/10)]) (target_in ''pkgA'' ''FuzzA''))
   \<and> sint (getTargetDuration (crash_env [])
      (budget_config (5 * Minute) [''pkgA'' \<mapsto> float64_lit (7/10)]) (target_in ''pkgA'' ''FuzzA''))
        \<le> 210000000000"
proof -
  define T :: Duration where "T = 5 * Minute"
  define A where "A = [''pkgA'' \<mapsto> float64_lit (1/2), ''default'' \<mapsto> float64_lit (1/10)]"
  define B where "B = [''pkgA'' \<mapsto> float64_lit (1/2)]"
  define C where "C = [''pkgA'' \<mapsto> float64_lit (7/10)]"
  define tA where "tA = target_in ''pkgA'' ''FuzzA''"
  define tB where "tB = target_in ''pkgB'' ''FuzzB''"
  have time: "FuzzTime (Config (budget_config T m)) = T" for m
    by (simp add: budget_config_def)
  have alloc: "TimeAllocation (Config (budget_config T m)) = m" for m
    by (simp add: budget_config_def)
  have pkg: "Package tA = ''pkgA''" "Package tB = ''pkgB''"
    by (simp_all add: tA_def tB_def target_in_def)
  have T: "sint T = 300000000000" unfolding T_def by code_simp
  have half: "2 * Minute + 30 * Second = (word_of_int 150000000000 :: Duration)" by code_simp
  have tenth: "30 * Second = (word_of_int 30000000000 :: Duration)" by code_simp
  have A: "TimeAllocation (Config (budget_config T A)) =
             [''pkgA'' \<mapsto> float64_lit (1/2), ''default'' \<mapsto> float64_lit (1/10)]"
    by (simp only: alloc A_def)
  have r53: "0 \<le> sint (FuzzTime (Config (budget_config T A))) \<and>
             sint (FuzzTime (Config (budget_config T A))) < 2 ^ 53"
    by (simp add: time T)
  have r52: "0 \<le> sint (FuzzTime (Config (budget_config T A))) \<and>
             sint (FuzzTime (Config (budget_config T A))) < 2 ^ 52"
    by (simp add: time T)
  have other: "Package tB \<noteq> ''pkgA''" by (simp add: pkg)
  have "sint (getTargetDuration (crash_env []) (budget_config T A) tA)
          = sint (FuzzTime (Config (budget_config T A))) div 2"
    using getTargetDuration_budget [where en = "crash_env []" and e = "budget_config T A" and t = tA,
            THEN conjunct2, THEN conjunct2, THEN conjunct2, THEN mp, OF A,
            THEN conjunct1, THEN mp, OF pkg(1), THEN conjunct2, THEN mp, OF r53] .
  hence "sint (getTargetDuration (crash_env []) (budget_config T A) tA) = 150000000000"
    by (simp add: time T)
  hence 1: "getTargetDuration (crash_env []) (budget_config T A) tA = 2 * Minute + 30 * Second"
    unfolding half by (intro signed_word_eqI) (simp add: sint_Duration)
  have "sint (getTargetDuration (crash_env []) (budget_config T A) tB)
          = sint (FuzzTime (Config (budget_config T A))) div 10"
    using getTargetDuration_budget [where en = "crash_env []" and e = "budget_config T A" and t = tB,
            THEN conjunct2, THEN conjunct2, THEN conjunct2, THEN mp, OF A,
            THEN conjunct2, THEN mp, OF other, THEN conjunct2, THEN mp, OF r52] .
  hence "sint (getTargetDuration (crash_env []) (budget_config T A) tB) = 30000000000"
    by (simp add: time T)
  hence 2: "getTargetDuration (crash_env []) (budget_config T A) tB = 30 * Second"
    unfolding tenth by (intro signed_word_eqI) (simp add: sint_Duration)
  have none: "TimeAllocation (Config (budget_config T B)) (Package tB) = None \<and>
              TimeAllocation (Config (budget_config T B)) ''default'' = None"
    by (simp add: alloc pkg B_def)
  have 3: "getTargetDuration (crash_env []) (budget_config T B) tB = 0"
    using getTargetDuration_budget [where en = "crash_env []" and e = "budget_config T B" and t = tB,
            THEN conjunct2, THEN conjunct1, THEN mp, OF none] .
  have fl: "\<lfloor>(300000000000 :: rat) * (3152519739159347 / 4503599627370496)\<rfloor> = 209999999999"
    by code_simp
  have ce: "\<lceil>(300000000000 :: rat) * (3152519739159347 / 4503599627370496)\<rceil> = 210000000000"
    by code_simp
  have unit: "(TimeAllocation (Config (budget_config T C)) (Package tA)
                 = Some (Finite (3152519739159347 / 4503599627370496)) \<or>
               TimeAllocation (Config (budget_config T C)) (Package tA) = None \<and>
               TimeAllocation (Config (budget_config T C)) ''default''
                 = Some (Finite (3152519739159347 / 4503599627370496))) \<and>
              (0 :: rat) \<le> 3152519739159347 / 4503599627370496 \<and>
              (3152519739159347 / 4503599627370496 :: rat) \<le> 1 \<and>
              0 \<le> sint (FuzzTime (Config (budget_config T C))) \<and>
              sint (FuzzTime (Config (budget_config T C))) < 2 ^ 53"
    by (simp add: time alloc pkg C_def lit_seven_tenths T)
  have "\<lfloor>of_int (sint (FuzzTime (Config (budget_config T C)))) * (3152519739159347 / 4503599627370496 :: rat)\<rfloor>
           \<le> sint (getTargetDuration (crash_env []) (budget_config T C) tA) \<and>
        sint (getTargetDuration (crash_env []) (budget_config T C) tA)
           \<le> \<lceil>of_int (sint (FuzzTime (Config (budget_config T C)))) * (3152519739159347 / 4503599627370496 :: rat)\<rceil>"
    using getTargetDuration_budget [where en = "crash_env []" and e = "budget_config T C" and t = tA,
            THEN conjunct2, THEN conjunct2, THEN conjunct1, THEN spec, THEN mp, OF unit] .
  hence 4: "209999999999 \<le> sint (getTargetDuration (crash_env []) (budget_config T C) tA) \<and>
        sint (getTargetDuration (crash_env []) (budget_config T C) tA) \<le> 210000000000"
    by (simp only: time T of_int_numeral fl ce)
  show ?thesis using 1 2 3 4
    by (simp only: T_def A_def B_def C_def tA_def tB_def)
qed

text \<open>
  Beyond these bounds the arithmetic of \<open>float64\<close> shows. Five minutes times \<open>0.7\<close> is
  210 seconds, the rounded product, where the exact product of the two \<open>float64\<close>
  values is a fraction of a nanosecond less. A budget of \<open>2 ^ 53 + 1\<close> nanoseconds times
  \<open>1.0\<close> is \<open>2 ^ 53\<close> nanoseconds: the conversion of the budget to \<open>float64\<close> rounds.
  Five minutes times \<open>1e9\<close> is more than 64 bits hold, and the budget is whatever the
  platform's conversion gives.
\<close>

lemma getTargetDuration_rounds:
  "getTargetDuration (crash_env []) (budget_config (5 * Minute) [''pkgA'' \<mapsto> float64_lit (7/10)])
     (target_in ''pkgA'' ''FuzzA'') = 210 * Second"
  "getTargetDuration (crash_env []) (budget_config (2 ^ 53 + 1) [''default'' \<mapsto> float64_lit 1])
     (target_in ''pkgA'' ''FuzzA'') = 2 ^ 53"
  "getTargetDuration (crash_env []) (budget_config (5 * Minute) [''default'' \<mapsto> float64_lit 1000000000])
     (target_in ''pkgA'' ''FuzzA'')
     = unrepresentable (crash_env []) (Finite 300000000000000000000)"
  by code_simp+


subsection \<open>Resolving a target's directory\<close>

lemma GetTargetDir_cached:
  assumes "GetTargetDir m t w = (d, m1, w1)"
  shows "TargetDirs m1 (Package t @ ''.'' @ Name t) = Some d"
  using assms by (auto simp: GetTargetDir_def Let_def split: option.splits)

lemma GetTargetDir_hit:
  assumes "TargetDirs m (Package t @ ''.'' @ Name t) = Some d"
  shows "GetTargetDir m t w = (d, m, w)"
  using assms by (simp add: GetTargetDir_def)

lemma GetTargetDir_keeps:
  assumes "TargetDirs m k = Some d" "GetTargetDir m t w = (d', m1, w1)"
  shows "TargetDirs m1 k = Some d"
  using assms by (auto simp: GetTargetDir_def Let_def split: option.splits)

lemma GetTargetDir_world:
  assumes "GetTargetDir m t w = (d, m1, w1)"
  shows "w1 = w \<or> w1 = snd (MkdirAll d w)"
  using assms by (auto simp: GetTargetDir_def Let_def split: option.splits)

lemma resolve_each_keeps:
  "TargetDirs m k = Some d \<Longrightarrow> resolve_each m ts w = (m2, w2) \<Longrightarrow> TargetDirs m2 k = Some d"
proof (induction ts arbitrary: m w)
  case Nil
  then show ?case by simp
next
  case (Cons t ts)
  obtain d' m1 w1 where g: "GetTargetDir m t w = (d', m1, w1)"
    by (cases "GetTargetDir m t w") auto
  from Cons.prems(1) g have "TargetDirs m1 k = Some d" by (rule GetTargetDir_keeps)
  moreover from Cons.prems(2) g have "resolve_each m1 ts w1 = (m2, w2)" by simp
  ultimately show ?case by (rule Cons.IH)
qed

text \<open>
  C7. On one manager, resolving a target's directory is idempotent and deterministic.
  After a first call for a target returned the path \<open>d\<close>, every later call for the same
  package and name returns \<open>d\<close>, also after calls for any other targets \<open>ts\<close> in between;
  a later call leaves the manager as it is and returns the file system \<open>w'\<close> it was
  given, whatever that is: it neither reads nor changes it. The first call makes at
  most one \<open>MkdirAll\<close>, so the directory is created at most once.
\<close>

theorem GetTargetDir_idempotent:
  assumes first: "GetTargetDir m t w = (d, m1, w1)"
    and others: "resolve_each m1 ts w1 = (m2, w2)"
  shows "GetTargetDir m1 t w' = (d, m1, w')
       \<and> GetTargetDir m2 t w' = (d, m2, w')
       \<and> (w1 = w \<or> w1 = snd (MkdirAll d w))"
proof -
  have c: "TargetDirs m1 (Package t @ ''.'' @ Name t) = Some d"
    using first by (rule GetTargetDir_cached)
  have c2: "TargetDirs m2 (Package t @ ''.'' @ Name t) = Some d"
    using c others by (rule resolve_each_keeps)
  show ?thesis
    using GetTargetDir_hit [OF c] GetTargetDir_hit [OF c2] GetTargetDir_world [OF first]
    by simp
qed

text \<open>
  A first resolution that creates the directory, a resolution for another target, and the
  same answer afterwards from either manager, with the file system handed back.
\<close>

theorem GetTargetDir_idempotent_witness:
  "(let first = GetTargetDir (fresh_manager NoMinimization) (target_in ''pkg/new'' ''FuzzNew'')
                  codec_world;
        others = resolve_each (fst (snd first)) [target_in ''pkg/codec'' ''FuzzDecode'']
                   (snd (snd first))
    in fst first = ''fuzz-corpus/pkg_new/FuzzNew''
     \<and> node_at (snd (snd first)) [''work'', ''fuzz-corpus'', ''pkg_new'', ''FuzzNew'']
         = Some Directory
     \<and> GetTargetDir (fst (snd first)) (target_in ''pkg/new'' ''FuzzNew'') codec_world
         = (''fuzz-corpus/pkg_new/FuzzNew'', fst (snd first), codec_world)
     \<and> GetTargetDir (fst others) (target_in ''pkg/new'' ''FuzzNew'') codec_world
         = (''fuzz-corpus/pkg_new/FuzzNew'', fst others, codec_world))"
proof -
  define first where
    "first = GetTargetDir (fresh_manager NoMinimization) (target_in ''pkg/new'' ''FuzzNew'')
               codec_world"
  define others where
    "others = resolve_each (fst (snd first)) [target_in ''pkg/codec'' ''FuzzDecode'']
                (snd (snd first))"
  have h1: "GetTargetDir (fresh_manager NoMinimization) (target_in ''pkg/new'' ''FuzzNew'')
              codec_world = (fst first, fst (snd first), snd (snd first))"
    by (simp add: first_def)
  have h2: "resolve_each (fst (snd first)) [target_in ''pkg/codec'' ''FuzzDecode'']
              (snd (snd first)) = (fst others, snd others)"
    by (simp add: others_def)
  have d: "fst first = ''fuzz-corpus/pkg_new/FuzzNew''"
    unfolding first_def by code_simp
  have n: "node_at (snd (snd first)) [''work'', ''fuzz-corpus'', ''pkg_new'', ''FuzzNew'']
             = Some Directory"
    unfolding first_def by code_simp
  have "GetTargetDir (fst (snd first)) (target_in ''pkg/new'' ''FuzzNew'') codec_world
          = (''fuzz-corpus/pkg_new/FuzzNew'', fst (snd first), codec_world)
      \<and> GetTargetDir (fst others) (target_in ''pkg/new'' ''FuzzNew'') codec_world
          = (''fuzz-corpus/pkg_new/FuzzNew'', fst others, codec_world)"
    using GetTargetDir_idempotent [OF h1 h2, of codec_world] d by simp
  with d n show ?thesis
    unfolding Let_def first_def [symmetric] others_def [symmetric] by blast
qed

lemma replace_from_slash:
  "replace_from ''/'' ''_'' 0 s = map (\<lambda>c. if c = CHR ''/'' then CHR ''_'' else c) s"
  by (induction s) auto

text \<open>
  C10. The mapping from a target to its corpus directory is not injective. The package
  identifier is sanitized by replacing every \<open>/\<close> with \<open>_\<close> before it is joined with
  the base directory and the target name, so the targets \<open>a/b.name\<close> and \<open>a_b.name\<close>,
  whose packages differ, are resolved by one manager to the same directory: both calls
  return \<open>Join [base, a_b, name]\<close>, the second one under its own key of the map.
\<close>

theorem GetTargetDir_not_injective:
  "ReplaceAll pkg ''/'' ''_'' = map (\<lambda>c. if c = CHR ''/'' then CHR ''_'' else c) pkg
   \<and> Package (target_in ''a/b'' name) \<noteq> Package (target_in ''a_b'' name)
   \<and> Name (target_in ''a/b'' name) = Name (target_in ''a_b'' name)
   \<and> GetTargetDir \<lparr> BaseDir = base, TargetDirs = Map.empty, Minimization = s \<rparr>
        (target_in ''a/b'' name) w
     = (Join [base, ''a_b'', name],
        \<lparr> BaseDir = base, TargetDirs = [''a/b.'' @ name \<mapsto> Join [base, ''a_b'', name]],
          Minimization = s \<rparr>,
        snd (MkdirAll (Join [base, ''a_b'', name]) w))
   \<and> fst (GetTargetDir
            \<lparr> BaseDir = base, TargetDirs = [''a/b.'' @ name \<mapsto> Join [base, ''a_b'', name]],
              Minimization = s \<rparr>
            (target_in ''a_b'' name) w')
     = Join [base, ''a_b'', name]"
  by (simp add: GetTargetDir_def target_in_def ReplaceAll_def Let_def replace_from_slash)

subsection \<open>Running a target\<close>

lemma getTargetDuration_CorpusManager:
  "getTargetDuration en (e\<lparr>CorpusManager := cm\<rparr>) t = getTargetDuration en e t"
  by (simp add: getTargetDuration_def Let_def split: option.splits)

lemma run_in_workspace_Inr:
  assumes "run_in_workspace en e t tempDir w = (Inr r, e', w')"
  shows "\<exists>corpusDir cm1 w1 w2 w3 w4 err output elapsed w5 cm2.
           GetTargetDir (CorpusManager e) t w = (corpusDir, cm1, w1)
         \<and> MkdirAll (Join [tempDir, ''corpus'']) w1 = (None, w2)
         \<and> copyDir corpusDir (Join [tempDir, ''corpus'']) w2 = (None, w3)
         \<and> MkdirAll (Join [tempDir, ''crashers'']) w3 = (None, w4)
         \<and> harness en (Name t) (getTargetDuration en e t) (Parallelism (Config e)) (Package t)
              tempDir w4 = (err, output, elapsed, w5)
         \<and> ImportNewCorpusEntries en cm1 t (Join [tempDir, ''corpus'']) w5 = (None, cm2, w')
         \<and> e' = e\<lparr>CorpusManager := cm2\<rparr>
         \<and> r = \<lparr> Target = t, Duration = elapsed, Success = (err = None),
                   ErrorMessage = (if err \<noteq> None then output else []),
                   CrashInputs = (if err \<noteq> None then collect_crashers en tempDir w5 else []),
                   NewCorpusItems = (case ReadDir (Join [tempDir, ''corpus'']) w' of
                                       Inl x \<Rightarrow> 0 | Inr entries \<Rightarrow> int (length entries)),
                   Coverage = Finite 0 \<rparr>"
proof -
  obtain corpusDir cm1 w1 where g: "GetTargetDir (CorpusManager e) t w = (corpusDir, cm1, w1)"
    by (metis prod_cases3)
  show ?thesis
    using assms g
    by (fastforce simp: run_in_workspace_def Let_def getTargetDuration_CorpusManager
          split: prod.splits option.splits)
qed

lemma run_in_workspace_Inl:
  assumes "run_in_workspace en e t tempDir w = (Inl x, e', w')"
  shows "(\<exists>err w1. x = Wrap ''failed to create temp corpus directory'' err
            \<and> MkdirAll (Join [tempDir, ''corpus'']) w1 = (Some err, w'))
       \<or> (\<exists>err corpusDir w2. x = Wrap ''failed to copy corpus'' err
            \<and> copyDir corpusDir (Join [tempDir, ''corpus'']) w2 = (Some err, w'))
       \<or> (\<exists>err w3. x = Wrap ''failed to create crashers directory'' err
            \<and> MkdirAll (Join [tempDir, ''crashers'']) w3 = (Some err, w'))
       \<or> (\<exists>err cm1 w5 cm2. x = Wrap ''failed to import new corpus entries'' err
            \<and> ImportNewCorpusEntries en cm1 t (Join [tempDir, ''corpus'']) w5
                = (Some err, cm2, w'))"
proof -
  obtain corpusDir cm1 w1 where g: "GetTargetDir (CorpusManager e) t w = (corpusDir, cm1, w1)"
    by (metis prod_cases3)
  show ?thesis
    using assms g
    by (auto simp: run_in_workspace_def Let_def split: prod.splits option.splits)
qed

lemma run_in_workspace_engine:
  assumes "run_in_workspace en e t tempDir w = (x, e', w')"
  shows "Results e' = Results e \<and> Config e' = Config e \<and> Targets e' = Targets e"
proof -
  obtain corpusDir cm1 w1 where g: "GetTargetDir (CorpusManager e) t w = (corpusDir, cm1, w1)"
    by (metis prod_cases3)
  show ?thesis
    using assms g
    by (auto simp: run_in_workspace_def Let_def split: prod.splits option.splits)
qed

lemma RunTarget_engine:
  assumes "RunTarget en e t w = (x, e', w')"
  shows "Results e' = Results e \<and> Config e' = Config e \<and> Targets e' = Targets e"
  using assms
  by (auto simp: RunTarget_def split: prod.splits sum.splits dest: run_in_workspace_engine)

lemma RunTarget_Inr:
  assumes "RunTarget en e t w = (Inr r, e', w')"
  shows "\<exists>tempDir w0 corpusDir cm1 w1 w2 w3 w4 err output elapsed w5 cm2 w6.
           MkdirTemp en [] ''fuzz-run-*'' w = (Inr tempDir, w0)
         \<and> GetTargetDir (CorpusManager e) t w0 = (corpusDir, cm1, w1)
         \<and> MkdirAll (Join [tempDir, ''corpus'']) w1 = (None, w2)
         \<and> copyDir corpusDir (Join [tempDir, ''corpus'']) w2 = (None, w3)
         \<and> MkdirAll (Join [tempDir, ''crashers'']) w3 = (None, w4)
         \<and> harness en (Name t) (getTargetDuration en e t) (Parallelism (Config e)) (Package t)
              tempDir w4 = (err, output, elapsed, w5)
         \<and> ImportNewCorpusEntries en cm1 t (Join [tempDir, ''corpus'']) w5 = (None, cm2, w6)
         \<and> e' = e\<lparr>CorpusManager := cm2\<rparr>
         \<and> w' = RemoveAll tempDir w6
         \<and> r = \<lparr> Target = t, Duration = elapsed, Success = (err = None),
                   ErrorMessage = (if err \<noteq> None then output else []),
                   CrashInputs = (if err \<noteq> None then collect_crashers en tempDir w5 else []),
                   NewCorpusItems = (case ReadDir (Join [tempDir, ''corpus'']) w6 of
                                       Inl x \<Rightarrow> 0 | Inr entries \<Rightarrow> int (length entries)),
                   Coverage = Finite 0 \<rparr>"
proof -
  from assms obtain tempDir w0 w6 where
    t: "MkdirTemp en [] ''fuzz-run-*'' w = (Inr tempDir, w0)" and
    r: "run_in_workspace en e t tempDir w0 = (Inr r, e', w6)" and
    w: "w' = RemoveAll tempDir w6"
    by (auto simp: RunTarget_def split: prod.splits sum.splits)
  from run_in_workspace_Inr [OF r] t w show ?thesis
    by blast
qed

lemma RunTarget_Inl:
  assumes "RunTarget en e t w = (Inl x, e', w')"
  shows "(\<exists>err. x = Wrap ''failed to create temp directory'' err
            \<and> MkdirTemp en [] ''fuzz-run-*'' w = (Inl err, w'))
       \<or> (\<exists>tempDir w0 w6. MkdirTemp en [] ''fuzz-run-*'' w = (Inr tempDir, w0)
            \<and> ((\<exists>err w1. x = Wrap ''failed to create temp corpus directory'' err
                  \<and> MkdirAll (Join [tempDir, ''corpus'']) w1 = (Some err, w6))
              \<or> (\<exists>err corpusDir w2. x = Wrap ''failed to copy corpus'' err
                  \<and> copyDir corpusDir (Join [tempDir, ''corpus'']) w2 = (Some err, w6))
              \<or> (\<exists>err w3. x = Wrap ''failed to create crashers directory'' err
                  \<and> MkdirAll (Join [tempDir, ''crashers'']) w3 = (Some err, w6))
              \<or> (\<exists>err cm1 w5 cm2. x = Wrap ''failed to import new corpus entries'' err
                  \<and> ImportNewCorpusEntries en cm1 t (Join [tempDir, ''corpus'']) w5
                      = (Some err, cm2, w6))))"
proof (cases "MkdirTemp en [] ''fuzz-run-*'' w")
  case (Pair a w0)
  show ?thesis
  proof (cases a)
    case (Inl err)
    with Pair assms show ?thesis
      by (auto simp: RunTarget_def)
  next
    case (Inr tempDir)
    with Pair assms obtain w6 where
      r: "run_in_workspace en e t tempDir w0 = (Inl x, e', w6)"
      by (auto simp: RunTarget_def split: prod.splits)
    have m: "MkdirTemp en [] ''fuzz-run-*'' w = (Inr tempDir, w0)"
      using Pair Inr by simp
    show ?thesis
      apply (rule disjI2)
      apply (rule exI [of _ tempDir])
      apply (rule exI [of _ w0])
      apply (rule exI [of _ w6])
      apply (rule conjI [OF m])
      apply (rule run_in_workspace_Inl [OF r])
      done
  qed
qed

lemma run_targets_results:
  "run_targets en e ts w = (res, e', w') \<Longrightarrow>
   \<exists>rs. Results e' = Results e @ rs
      \<and> map Target rs = take (length rs) ts
      \<and> (case res of
           None \<Rightarrow> length rs = length ts
         | Some y \<Rightarrow>
             length rs < length ts
           \<and> (\<exists>x ek wk.
                 y = Wrap (''failed to run target '' @ Package (ts ! length rs) @ ''.''
                           @ Name (ts ! length rs)) x
               \<and> RunTarget en ek (ts ! length rs) wk = (Inl x, e', w')))"
proof (induction ts arbitrary: e w)
  case Nil
  then show ?case by simp
next
  case (Cons t ts)
  obtain a e1 w1 where rt: "RunTarget en e t w = (a, e1, w1)"
    by (metis prod_cases3)
  have eng: "Results e1 = Results e"
    using RunTarget_engine [OF rt] by simp
  show ?case
  proof (cases a)
    case (Inl x)
    with rt Cons.prems have
      "res = Some (Wrap (''failed to run target '' @ Package t @ ''.'' @ Name t) x)"
      "e' = e1" "w' = w1"
      by auto
    with eng rt Inl show ?thesis
      by (intro exI [of _ "[]"]) auto
  next
    case (Inr r)
    with rt Cons.prems have
      rest: "run_targets en (e1\<lparr>Results := Results e1 @ [r]\<rparr>) ts w1 = (res, e', w')"
      by simp
    from Cons.IH [OF rest] obtain rs where
      rs: "Results e' = Results (e1\<lparr>Results := Results e1 @ [r]\<rparr>) @ rs"
          "map Target rs = take (length rs) ts"
          "(case res of
              None \<Rightarrow> length rs = length ts
            | Some y \<Rightarrow>
                length rs < length ts
              \<and> (\<exists>x ek wk.
                    y = Wrap (''failed to run target '' @ Package (ts ! length rs) @ ''.''
                              @ Name (ts ! length rs)) x
                  \<and> RunTarget en ek (ts ! length rs) wk = (Inl x, e', w')))"
      by blast
    have tr: "Target r = t"
      using RunTarget_Inr [of en e t w r e1 w1] rt Inr by auto
    show ?thesis
      using rs eng tr
      by (intro exI [of _ "r # rs"]) (auto split: option.splits)
  qed
qed
text \<open>
  C1. A non-zero exit of the harness is not an engine error. When making the workspace,
  staging the corpus and importing the new entries succeed and the harness process
  fails, \<open>RunTarget\<close> returns a result with \<open>Success = False\<close> and no error; the
  \<open>Success\<close> of every result it returns is the exit status of the harness. An error of
  \<open>RunTarget\<close> wraps the error of making the temporary directory, of making the corpus
  or crashers directory in it, of copying the corpus, or of the import, and leaves the
  result list as it was. \<open>RunAll\<close> appends one result per target, in the order of the
  targets; it returns an error exactly when it stopped at a target whose \<open>RunTarget\<close>
  returned one, and then the results are those of the targets before it and the engine
  and the file system are as that \<open>RunTarget\<close> left them: no later target was run.
\<close>

theorem harness_failure_is_a_result:
  "(MkdirTemp en [] ''fuzz-run-*'' w = (Inr tempDir, w0)
      \<and> GetTargetDir (CorpusManager e) t w0 = (corpusDir, cm1, w1)
      \<and> MkdirAll (Join [tempDir, ''corpus'']) w1 = (None, w2)
      \<and> copyDir corpusDir (Join [tempDir, ''corpus'']) w2 = (None, w3)
      \<and> MkdirAll (Join [tempDir, ''crashers'']) w3 = (None, w4)
      \<and> harness en (Name t) (getTargetDuration en e t) (Parallelism (Config e)) (Package t)
           tempDir w4 = (Some herr, out, elapsed, w5)
      \<and> ImportNewCorpusEntries en cm1 t (Join [tempDir, ''corpus'']) w5 = (None, cm2, w6)
    \<longrightarrow> (\<exists>r. RunTarget en e t w = (Inr r, e\<lparr>CorpusManager := cm2\<rparr>, RemoveAll tempDir w6)
            \<and> Success r = False \<and> Target r = t))
   \<and> (RunTarget en e t w = (Inr r, e', w')
    \<longrightarrow> Results e' = Results e
      \<and> (\<exists>tempDir w4 err out elapsed w5.
            harness en (Name t) (getTargetDuration en e t) (Parallelism (Config e)) (Package t)
              tempDir w4 = (err, out, elapsed, w5)
          \<and> Success r = (err = None)))
   \<and> (RunTarget en e t w = (Inl x, e', w')
    \<longrightarrow> Results e' = Results e
      \<and> ((\<exists>err. x = Wrap ''failed to create temp directory'' err
             \<and> MkdirTemp en [] ''fuzz-run-*'' w = (Inl err, w'))
        \<or> (\<exists>tempDir w0 w6. MkdirTemp en [] ''fuzz-run-*'' w = (Inr tempDir, w0)
             \<and> ((\<exists>err w1. x = Wrap ''failed to create temp corpus directory'' err
                   \<and> MkdirAll (Join [tempDir, ''corpus'']) w1 = (Some err, w6))
               \<or> (\<exists>err corpusDir w2. x = Wrap ''failed to copy corpus'' err
                   \<and> copyDir corpusDir (Join [tempDir, ''corpus'']) w2 = (Some err, w6))
               \<or> (\<exists>err w3. x = Wrap ''failed to create crashers directory'' err
                   \<and> MkdirAll (Join [tempDir, ''crashers'']) w3 = (Some err, w6))
               \<or> (\<exists>err cm1 w5 cm2. x = Wrap ''failed to import new corpus entries'' err
                   \<and> ImportNewCorpusEntries en cm1 t (Join [tempDir, ''corpus'']) w5
                       = (Some err, cm2, w6))))))
   \<and> (RunAll en e w = (res, e', w')
    \<longrightarrow> (\<exists>rs. Results e' = Results e @ rs
            \<and> map Target rs = take (length rs) (Targets e)
            \<and> (case res of
                 None \<Rightarrow> length rs = length (Targets e)
               | Some y \<Rightarrow>
                   length rs < length (Targets e)
                 \<and> (\<exists>x ek wk.
                       y = Wrap (''failed to run target '' @ Package (Targets e ! length rs)
                                 @ ''.'' @ Name (Targets e ! length rs)) x
                     \<and> RunTarget en ek (Targets e ! length rs) wk = (Inl x, e', w')))))"
proof (intro conjI impI)
  assume a: "MkdirTemp en [] ''fuzz-run-*'' w = (Inr tempDir, w0)
      \<and> GetTargetDir (CorpusManager e) t w0 = (corpusDir, cm1, w1)
      \<and> MkdirAll (Join [tempDir, ''corpus'']) w1 = (None, w2)
      \<and> copyDir corpusDir (Join [tempDir, ''corpus'']) w2 = (None, w3)
      \<and> MkdirAll (Join [tempDir, ''crashers'']) w3 = (None, w4)
      \<and> harness en (Name t) (getTargetDuration en e t) (Parallelism (Config e)) (Package t)
           tempDir w4 = (Some herr, out, elapsed, w5)
      \<and> ImportNewCorpusEntries en cm1 t (Join [tempDir, ''corpus'']) w5 = (None, cm2, w6)"
  then show "\<exists>r. RunTarget en e t w = (Inr r, e\<lparr>CorpusManager := cm2\<rparr>, RemoveAll tempDir w6)
            \<and> Success r = False \<and> Target r = t"
    by (simp add: RunTarget_def run_in_workspace_def Let_def getTargetDuration_CorpusManager)
next
  assume "RunTarget en e t w = (Inr r, e', w')"
  then show "Results e' = Results e"
    using RunTarget_engine by blast
next
  assume a: "RunTarget en e t w = (Inr r, e', w')"
  from RunTarget_Inr [OF a] show
    "\<exists>tempDir w4 err out elapsed w5.
        harness en (Name t) (getTargetDuration en e t) (Parallelism (Config e)) (Package t)
          tempDir w4 = (err, out, elapsed, w5)
      \<and> Success r = (err = None)"
    by fastforce
next
  assume "RunTarget en e t w = (Inl x, e', w')"
  then show "Results e' = Results e"
    using RunTarget_engine by blast
next
  assume a: "RunTarget en e t w = (Inl x, e', w')"
  show "(\<exists>err. x = Wrap ''failed to create temp directory'' err
             \<and> MkdirTemp en [] ''fuzz-run-*'' w = (Inl err, w'))
        \<or> (\<exists>tempDir w0 w6. MkdirTemp en [] ''fuzz-run-*'' w = (Inr tempDir, w0)
             \<and> ((\<exists>err w1. x = Wrap ''failed to create temp corpus directory'' err
                   \<and> MkdirAll (Join [tempDir, ''corpus'']) w1 = (Some err, w6))
               \<or> (\<exists>err corpusDir w2. x = Wrap ''failed to copy corpus'' err
                   \<and> copyDir corpusDir (Join [tempDir, ''corpus'']) w2 = (Some err, w6))
               \<or> (\<exists>err w3. x = Wrap ''failed to create crashers directory'' err
                   \<and> MkdirAll (Join [tempDir, ''crashers'']) w3 = (Some err, w6))
               \<or> (\<exists>err cm1 w5 cm2. x = Wrap ''failed to import new corpus entries'' err
                   \<and> ImportNewCorpusEntries en cm1 t (Join [tempDir, ''corpus'']) w5
                       = (Some err, cm2, w6))))"
    by (rule RunTarget_Inl [OF a])
next
  assume a: "RunAll en e w = (res, e', w')"
  then have "run_targets en e (Targets e) w = (res, e', w')"
    by (simp add: RunAll_def)
  then show "\<exists>rs. Results e' = Results e @ rs
            \<and> map Target rs = take (length rs) (Targets e)
            \<and> (case res of
                 None \<Rightarrow> length rs = length (Targets e)
               | Some y \<Rightarrow>
                   length rs < length (Targets e)
                 \<and> (\<exists>x ek wk.
                       y = Wrap (''failed to run target '' @ Package (Targets e ! length rs)
                                 @ ''.'' @ Name (Targets e ! length rs)) x
                     \<and> RunTarget en ek (Targets e ! length rs) wk = (Inl x, e', w')))"
    by (rule run_targets_results)
qed

text \<open>
  The scenario harness fails for \<open>FuzzDecode\<close>: its run is a result with
  \<open>Success = False\<close>. Without a temporary directory the run is an error and no result.
  A campaign over \<open>FuzzDecode\<close> and a second target goes on after the failure and has
  both results.
\<close>

theorem harness_failure_is_a_result_witness:
  "(\<exists>r e' w'. RunTarget (crash_env ''FAIL'') (codec_engine [codec_target]) codec_target
                 codec_world = (Inr r, e', w')
             \<and> Success r = False \<and> Results e' = [])
   \<and> (\<exists>e' w'. RunTarget (crash_env ''FAIL'') (codec_engine [codec_target]) codec_target
                 no_tmp_world = (Inl (Wrap ''failed to create temp directory'' ENOENT), e', w')
             \<and> Results e' = [])
   \<and> (\<exists>e' w'. RunAll (crash_env ''FAIL'') (codec_engine [codec_target, other_target])
                 codec_world = (None, e', w')
             \<and> map Target (Results e') = [codec_target, other_target]
             \<and> map Success (Results e') = [False, True])"
proof (intro conjI)
  define X where
    "X = RunTarget (crash_env ''FAIL'') (codec_engine [codec_target]) codec_target codec_world"
  have s: "(case fst X of Inr r \<Rightarrow> Success r = False | Inl x \<Rightarrow> False)"
    unfolding X_def by code_simp
  then obtain r where r: "fst X = Inr r" "Success r = False"
    by (cases "fst X") auto
  then have x: "RunTarget (crash_env ''FAIL'') (codec_engine [codec_target]) codec_target
                  codec_world = (Inr r, fst (snd X), snd (snd X))"
    by (simp add: X_def [symmetric] prod_eq_iff)
  from RunTarget_Inr [OF x] r(2) obtain tempDir w0 corpusDir cm1 w1 w2 w3 w4 herr out elapsed
      w5 cm2 w6 where
    staged: "MkdirTemp (crash_env ''FAIL'') [] ''fuzz-run-*'' codec_world = (Inr tempDir, w0)
      \<and> GetTargetDir (CorpusManager (codec_engine [codec_target])) codec_target w0
          = (corpusDir, cm1, w1)
      \<and> MkdirAll (Join [tempDir, ''corpus'']) w1 = (None, w2)
      \<and> copyDir corpusDir (Join [tempDir, ''corpus'']) w2 = (None, w3)
      \<and> MkdirAll (Join [tempDir, ''crashers'']) w3 = (None, w4)
      \<and> harness (crash_env ''FAIL'') (Name codec_target)
           (getTargetDuration (crash_env ''FAIL'') (codec_engine [codec_target]) codec_target)
           (Parallelism (Config (codec_engine [codec_target]))) (Package codec_target)
           tempDir w4 = (Some herr, out, elapsed, w5)
      \<and> ImportNewCorpusEntries (crash_env ''FAIL'') cm1 codec_target (Join [tempDir, ''corpus''])
          w5 = (None, cm2, w6)"
    by fastforce
  have th: "(\<exists>r'. RunTarget (crash_env ''FAIL'') (codec_engine [codec_target]) codec_target
                    codec_world
                  = (Inr r', (codec_engine [codec_target])\<lparr>CorpusManager := cm2\<rparr>,
                     RemoveAll tempDir w6)
                \<and> Success r' = False \<and> Target r' = codec_target)
            \<and> Results (fst (snd X)) = Results (codec_engine [codec_target])"
    using harness_failure_is_a_result
            [where en = "crash_env ''FAIL''" and w = codec_world
               and e = "codec_engine [codec_target]" and t = codec_target
               and tempDir = tempDir and ?w0.0 = w0 and corpusDir = corpusDir
               and ?cm1.0 = cm1 and ?w1.0 = w1 and ?w2.0 = w2 and ?w3.0 = w3 and ?w4.0 = w4
               and herr = herr and out = out and elapsed = elapsed and ?w5.0 = w5
               and ?cm2.0 = cm2 and ?w6.0 = w6
               and r = r and e' = "fst (snd X)" and w' = "snd (snd X)"] x staged
    by blast
  then have "Results (fst (snd X)) = []"
    by (simp add: codec_engine_def)
  with x r show
    "\<exists>r e' w'. RunTarget (crash_env ''FAIL'') (codec_engine [codec_target]) codec_target
                 codec_world = (Inr r, e', w')
             \<and> Success r = False \<and> Results e' = []"
    by blast
next
  define Y where
    "Y = RunTarget (crash_env ''FAIL'') (codec_engine [codec_target]) codec_target no_tmp_world"
  have "fst Y = Inl (Wrap ''failed to create temp directory'' ENOENT)"
    unfolding Y_def by code_simp
  then have y: "RunTarget (crash_env ''FAIL'') (codec_engine [codec_target]) codec_target
                  no_tmp_world
                = (Inl (Wrap ''failed to create temp directory'' ENOENT), fst (snd Y), snd (snd Y))"
    by (simp add: Y_def [symmetric] prod_eq_iff)
  have "Results (fst (snd Y)) = Results (codec_engine [codec_target])"
    using harness_failure_is_a_result
            [where en = "crash_env ''FAIL''" and w = no_tmp_world
               and e = "codec_engine [codec_target]" and t = codec_target
               and x = "Wrap ''failed to create temp directory'' ENOENT"
               and e' = "fst (snd Y)" and w' = "snd (snd Y)"] y
    by blast
  then have "Results (fst (snd Y)) = []"
    by (simp add: codec_engine_def)
  with y show
    "\<exists>e' w'. RunTarget (crash_env ''FAIL'') (codec_engine [codec_target]) codec_target
                 no_tmp_world = (Inl (Wrap ''failed to create temp directory'' ENOENT), e', w')
             \<and> Results e' = []"
    by blast
next
  define Z where
    "Z = RunAll (crash_env ''FAIL'') (codec_engine [codec_target, other_target]) codec_world"
  have z1: "fst Z = None"
    unfolding Z_def by code_simp
  have z2: "map Success (Results (fst (snd Z))) = [False, True]"
    unfolding Z_def by code_simp
  have z: "RunAll (crash_env ''FAIL'') (codec_engine [codec_target, other_target]) codec_world
             = (None, fst (snd Z), snd (snd Z))"
    using z1 by (simp add: Z_def [symmetric] prod_eq_iff)
  have "\<exists>rs. Results (fst (snd Z)) = Results (codec_engine [codec_target, other_target]) @ rs
           \<and> map Target rs = take (length rs) (Targets (codec_engine [codec_target, other_target]))
           \<and> length rs = length (Targets (codec_engine [codec_target, other_target]))"
    using harness_failure_is_a_result
            [where en = "crash_env ''FAIL''" and w = codec_world
               and e = "codec_engine [codec_target, other_target]"
               and res = None and e' = "fst (snd Z)" and w' = "snd (snd Z)"] z
    by simp
  then have z3: "map Target (Results (fst (snd Z))) = [codec_target, other_target]"
    by (auto simp: codec_engine_def)
  show
    "\<exists>e' w'. RunAll (crash_env ''FAIL'') (codec_engine [codec_target, other_target])
                 codec_world = (None, e', w')
             \<and> map Target (Results e') = [codec_target, other_target]
             \<and> map Success (Results e') = [False, True]"
    by (rule exI [of _ "fst (snd Z)"], rule exI [of _ "snd (snd Z)"]) (intro conjI z z2 z3)
qed
subsection \<open>Diagnostic text\<close>

lemma truncate_100:
  "\<exists>shown. truncate msg 100 = Some shown \<and> length shown \<le> 100
         \<and> (if length msg \<le> 100 then shown = msg else shown = take 97 msg @ ''...'')"
  by (simp add: truncate_def)

text \<open>
  C4, as the code has it. The result of a failing run stores the complete output of the
  harness as its error message, whatever its length; a successful run stores none. The
  bound is on what the run command prints: it shows \<open>truncate msg 100\<close>, which is the
  message itself up to 100 bytes and otherwise its first 97 bytes followed by three
  dots.
\<close>

theorem ErrorMessage_is_whole_output:
  "(RunTarget en e t w = (Inr r, e', w')
    \<longrightarrow> (\<exists>tempDir w4 err output elapsed w5.
            harness en (Name t) (getTargetDuration en e t) (Parallelism (Config e)) (Package t)
              tempDir w4 = (err, output, elapsed, w5)
          \<and> Success r = (err = None)
          \<and> ErrorMessage r = (if Success r then [] else output)))
   \<and> (\<exists>shown. truncate msg 100 = Some shown \<and> length shown \<le> 100
         \<and> (if length msg \<le> 100 then shown = msg else shown = take 97 msg @ ''...''))"
proof (intro conjI impI)
  assume a: "RunTarget en e t w = (Inr r, e', w')"
  from RunTarget_Inr [OF a] show
    "\<exists>tempDir w4 err output elapsed w5.
        harness en (Name t) (getTargetDuration en e t) (Parallelism (Config e)) (Package t)
          tempDir w4 = (err, output, elapsed, w5)
      \<and> Success r = (err = None)
      \<and> ErrorMessage r = (if Success r then [] else output)"
    by fastforce
next
  show "\<exists>shown. truncate msg 100 = Some shown \<and> length shown \<le> 100
         \<and> (if length msg \<le> 100 then shown = msg else shown = take 97 msg @ ''...'')"
    by (rule truncate_100)
qed

text \<open>
  C4, as the claim has it, fails: a harness that fails with 150 bytes of output leaves
  all 150 bytes on the stored result.
\<close>

theorem ErrorMessage_truncated_counterexample:
  "fst (RunTarget (crash_env (replicate 150 (CHR ''x''))) (codec_engine [codec_target])
          codec_target codec_world)
     = Inr \<lparr> Target = codec_target, Duration = 2 * Minute + 30 * Second, Success = False,
             ErrorMessage = replicate 150 (CHR ''x''),
             CrashInputs = [''/tmp/fuzz-run-1/crashers/abc123''],
             NewCorpusItems = 2, Coverage = Finite 0 \<rparr>
   \<and> length (replicate 150 (CHR ''x'')) = 150"
  by code_simp

theorem ErrorMessage_is_whole_output_witness:
  "(\<exists>r e' w'. RunTarget (crash_env (replicate 150 (CHR ''x''))) (codec_engine [codec_target])
                 codec_target codec_world = (Inr r, e', w')
             \<and> Success r = False \<and> length (ErrorMessage r) = 150)
   \<and> truncate (replicate 150 (CHR ''x'')) 100 = Some (replicate 97 (CHR ''x'') @ ''...'')"
proof (intro conjI)
  define X where
    "X = RunTarget (crash_env (replicate 150 (CHR ''x''))) (codec_engine [codec_target])
           codec_target codec_world"
  have s: "(case fst X of Inr r \<Rightarrow> Success r = False \<and> length (ErrorMessage r) = 150
            | Inl x \<Rightarrow> False)"
    unfolding X_def by code_simp
  then obtain r where r: "fst X = Inr r" "Success r = False" "length (ErrorMessage r) = 150"
    by (cases "fst X") auto
  then have x: "RunTarget (crash_env (replicate 150 (CHR ''x''))) (codec_engine [codec_target])
                  codec_target codec_world = (Inr r, fst (snd X), snd (snd X))"
    by (simp add: X_def [symmetric] prod_eq_iff)
  have "\<exists>tempDir w4 err output elapsed w5.
          harness (crash_env (replicate 150 (CHR ''x''))) (Name codec_target)
            (getTargetDuration (crash_env (replicate 150 (CHR ''x''))) (codec_engine [codec_target]) codec_target)
            (Parallelism (Config (codec_engine [codec_target]))) (Package codec_target)
            tempDir w4 = (err, output, elapsed, w5)
        \<and> Success r = (err = None)
        \<and> ErrorMessage r = (if Success r then [] else output)"
    using ErrorMessage_is_whole_output
            [where en = "crash_env (replicate 150 (CHR ''x''))" and w = codec_world
               and e = "codec_engine [codec_target]" and t = codec_target
               and r = r and e' = "fst (snd X)" and w' = "snd (snd X)"] x
    by blast
  show "\<exists>r e' w'. RunTarget (crash_env (replicate 150 (CHR ''x''))) (codec_engine [codec_target])
                 codec_target codec_world = (Inr r, e', w')
             \<and> Success r = False \<and> length (ErrorMessage r) = 150"
    by (rule exI [of _ r], rule exI [of _ "fst (snd X)"], rule exI [of _ "snd (snd X)"])
       (intro conjI x r(2) r(3))
next
  show "truncate (replicate 150 (CHR ''x'')) 100 = Some (replicate 97 (CHR ''x'') @ ''...'')"
    using ErrorMessage_is_whole_output [where msg = "replicate 150 (CHR ''x'')"]
    by (auto simp: take_replicate)
qed

subsection \<open>Discovery\<close>

lemma hasFuzzParameter_iff:
  "hasFuzzParameter d \<longleftrightarrow>
     (\<exists>doc recv name names.
        d = FuncDecl doc recv name [Field names (StarExpr (SelectorExpr (Ident ''testing'') ''F''))])"
  by (induction d rule: hasFuzzParameter.induct) auto

lemma targets_of_decls_member:
  "tg \<in> set (targets_of_decls pkg testFile ds) \<longleftrightarrow>
     (\<exists>doc recv name names.
        FuncDecl doc recv name [Field names (StarExpr (SelectorExpr (Ident ''testing'') ''F''))]
          \<in> set ds
      \<and> HasPrefix name ''Fuzz''
      \<and> tg = \<lparr> Package = pkg, Name = name, FilePath = testFile, FuncName = name,
                Description = (case doc of None \<Rightarrow> [] | Some text \<Rightarrow> text) \<rparr>)"
proof (induction ds)
  case Nil
  then show ?case by simp
next
  case (Cons d ds)
  show ?case
  proof (cases d)
    case GenDecl
    with Cons show ?thesis by simp
  next
    case (FuncDecl doc recv name params)
    show ?thesis
    proof (cases "HasPrefix name ''Fuzz'' \<and> hasFuzzParameter d")
      case True
      then obtain names where
        p: "params = [Field names (StarExpr (SelectorExpr (Ident ''testing'') ''F''))]"
        using FuncDecl by (auto simp: hasFuzzParameter_iff)
      from True FuncDecl p Cons show ?thesis
        by auto
    next
      case False
      then have "\<not> (HasPrefix name ''Fuzz''
                   \<and> (\<exists>names. params
                         = [Field names (StarExpr (SelectorExpr (Ident ''testing'') ''F''))]))"
        using FuncDecl by (auto simp: hasFuzzParameter_iff)
      with False FuncDecl Cons show ?thesis
        by auto
    qed
  qed
qed

lemma targets_of_decls_length:
  "length (targets_of_decls pkg testFile ds)
     = length (filter (\<lambda>d. \<exists>doc recv name names.
                 d = FuncDecl doc recv name
                       [Field names (StarExpr (SelectorExpr (Ident ''testing'') ''F''))]
               \<and> HasPrefix name ''Fuzz'') ds)"
proof (induction ds)
  case Nil
  then show ?case by simp
next
  case (Cons d ds)
  show ?case
  proof (cases d)
    case GenDecl
    with Cons show ?thesis by simp
  next
    case (FuncDecl doc recv name params)
    have "hasFuzzParameter (FuncDecl doc recv name params) \<longleftrightarrow>
            (\<exists>names. params = [Field names (StarExpr (SelectorExpr (Ident ''testing'') ''F''))])"
      by (auto simp: hasFuzzParameter_iff)
    with FuncDecl Cons show ?thesis
      by auto
  qed
qed

text \<open>
  What discovery emits: a target for each function declaration, with or without a
  receiver, whose name has the prefix \<open>Fuzz\<close> and whose parameter list is one field of
  the type written \<open>*testing.F\<close>, whatever the number of names in that field; one
  target per such declaration, with the text of the doc comment as description when
  there is one.
\<close>

lemma targets_of_decls_emitted:
  "(tg \<in> set (targets_of_decls pkg testFile ds) \<longleftrightarrow>
     (\<exists>doc recv name names.
        FuncDecl doc recv name [Field names (StarExpr (SelectorExpr (Ident ''testing'') ''F''))]
          \<in> set ds
      \<and> HasPrefix name ''Fuzz''
      \<and> tg = \<lparr> Package = pkg, Name = name, FilePath = testFile, FuncName = name,
                Description = (case doc of None \<Rightarrow> [] | Some text \<Rightarrow> text) \<rparr>))
   \<and> length (targets_of_decls pkg testFile ds)
       = length (filter (\<lambda>d. \<exists>doc recv name names.
                   d = FuncDecl doc recv name
                         [Field names (StarExpr (SelectorExpr (Ident ''testing'') ''F''))]
                 \<and> HasPrefix name ''Fuzz'') ds)"
  by (simp add: targets_of_decls_member targets_of_decls_length)

text \<open>
  The discovery scenario: a test file with \<open>func FuzzFoo(f *testing.F)\<close> under the doc
  comment \<open>finds foo bugs\<close> and \<open>func NotAFuzzFunc(x int)\<close> yields exactly one target,
  \<open>FuzzFoo\<close>, with the text of that comment as description.
\<close>

lemma discovery_scenario:
  "findTargetsInPackage (foo_env foo_decls) ''example.com/foo''
     = Inr [\<lparr> Package = ''example.com/foo'', Name = ''FuzzFoo'',
              FilePath = ''/src/foo/foo_test.go'', FuncName = ''FuzzFoo'',
              Description = ''finds foo bugs'' @ [CHR 0x0A] \<rparr>]"
  by (simp add: findTargetsInPackage_def foo_env_def foo_decls_def HasPrefix_def)

text \<open>
  C9. Discovery should emit a target exactly for the function declarations whose name
  has the prefix \<open>Fuzz\<close> and whose single parameter is of type \<open>*testing.F\<close>. The code
  emits a target for \<open>func FuzzTwo(a, b *testing.F)\<close>, a function of two parameters:
  \<open>hasFuzzParameter\<close> compares \<open>len(Params.List)\<close> with 1, which counts the fields of the
  parameter list and not the parameters, and \<open>a, b *testing.F\<close> is one field.
\<close>

theorem discovery_two_parameters:
  "findTargetsInPackage (foo_env two_decls) ''example.com/foo''
     = Inr [\<lparr> Package = ''example.com/foo'', Name = ''FuzzTwo'',
              FilePath = ''/src/foo/foo_test.go'', FuncName = ''FuzzTwo'',
              Description = [] \<rparr>]"
  by (simp add: findTargetsInPackage_def foo_env_def two_decls_def HasPrefix_def)

subsection \<open>Paths\<close>

lemma split_slash_not_Nil [simp]: "split_slash s \<noteq> []"
  by (induction s) (auto split: list.splits)

lemma split_slash_append:
  "split_slash (a @ CHR ''/'' # b) = split_slash a @ split_slash b"
  by (induction a) (auto split: list.splits)

lemma split_slash_name: "CHR ''/'' \<notin> set n \<Longrightarrow> split_slash n = [n]"
  by (induction n) auto

lemma split_slash_no_slash: "c \<in> set (split_slash s) \<Longrightarrow> CHR ''/'' \<notin> set c"
  by (induction s arbitrary: c) (auto split: list.splits if_splits)

lemma valid_name_element_ok: "valid_name n \<Longrightarrow> element_ok n"
  by (simp add: valid_name_def element_ok_def)

lemma elements_ok: "c \<in> set (elements p) \<Longrightarrow> element_ok c"
  by (auto simp: elements_def element_ok_def dest: split_slash_no_slash)

lemma elements_snoc:
  "valid_name n \<Longrightarrow> elements (d @ ''/'' @ n) = elements d @ [n]"
  by (simp add: elements_def split_slash_append split_slash_name valid_name_def)

lemma elements_name: "valid_name n \<Longrightarrow> elements n = [n]"
  by (simp add: elements_def split_slash_name valid_name_def)

lemma normalize_snoc:
  "n \<noteq> ''..'' \<Longrightarrow> normalize r (cs @ [n]) = normalize r cs @ [n]"
  by (simp add: normalize_def dotdot_def)

lemma dotdot_subset: "set (dotdot r st c) \<subseteq> insert c (set st)"
  by (auto simp: dotdot_def dest: in_set_butlastD)

lemma foldl_dotdot_subset: "set (foldl (dotdot r) st cs) \<subseteq> set st \<union> set cs"
proof (induction cs arbitrary: st)
  case Nil
  then show ?case by simp
next
  case (Cons c cs)
  have "set (foldl (dotdot r) (dotdot r st c) cs) \<subseteq> set (dotdot r st c) \<union> set cs"
    by (rule Cons.IH)
  with dotdot_subset [of r st c] show ?case
    by auto
qed

lemma normalize_subset: "set (normalize r cs) \<subseteq> set cs"
  using foldl_dotdot_subset [of r "[]" cs] by (simp add: normalize_def)

lemma dotdot_rooted_no_dotdot:
  "''..'' \<notin> set st \<Longrightarrow> ''..'' \<notin> set (dotdot True st c)"
  by (auto simp: dotdot_def dest: in_set_butlastD) (metis last_in_set)

lemma foldl_rooted_no_dotdot:
  "''..'' \<notin> set st \<Longrightarrow> ''..'' \<notin> set (foldl (dotdot True) st cs)"
  by (induction cs arbitrary: st) (simp_all add: dotdot_rooted_no_dotdot)

lemma normalize_rooted_no_dotdot: "''..'' \<notin> set (normalize True cs)"
  by (simp add: normalize_def foldl_rooted_no_dotdot)

lemma join_slash_snoc:
  "join_slash (xs @ [n]) = (if xs = [] then n else join_slash xs @ ''/'' @ n)"
  by (induction xs rule: join_slash.induct) auto

lemma split_slash_join:
  "cs \<noteq> [] \<Longrightarrow> \<forall>c \<in> set cs. CHR ''/'' \<notin> set c \<Longrightarrow> split_slash (join_slash cs) = cs"
proof (induction cs rule: join_slash.induct)
  case 1
  then show ?case by simp
next
  case (2 x)
  then show ?case by (simp add: split_slash_name)
next
  case (3 x y ys)
  then show ?case
    by (simp add: split_slash_append split_slash_name)
qed

lemma elements_join_slash:
  assumes "\<forall>c \<in> set cs. element_ok c"
  shows "elements (join_slash cs) = cs" and "elements (''/'' @ join_slash cs) = cs"
proof -
  have f: "filter (\<lambda>s. s \<noteq> [] \<and> s \<noteq> ''.'') cs = cs"
    using assms by (auto simp: element_ok_def filter_id_conv)
  show "elements (join_slash cs) = cs"
  proof (cases "cs = []")
    case True
    then show ?thesis by (simp add: elements_def)
  next
    case False
    with assms have "split_slash (join_slash cs) = cs"
      by (intro split_slash_join) (auto simp: element_ok_def)
    with f show ?thesis by (simp add: elements_def)
  qed
  show "elements (''/'' @ join_slash cs) = cs"
  proof (cases "cs = []")
    case True
    then show ?thesis by (simp add: elements_def)
  next
    case False
    with assms have "split_slash (join_slash cs) = cs"
      by (intro split_slash_join) (auto simp: element_ok_def)
    with f show ?thesis by (simp add: elements_def)
  qed
qed

lemma rooted_append: "d \<noteq> [] \<Longrightarrow> rooted (d @ s) = rooted d"
  by (cases d) (simp_all add: rooted_def)

lemma join_slash_Nil_iff:
  "\<forall>c \<in> set cs. c \<noteq> [] \<Longrightarrow> join_slash cs = [] \<longleftrightarrow> cs = []"
  by (induction cs rule: join_slash.induct) auto

lemma Clean_cleaned:
  "p \<noteq> [] \<Longrightarrow> Clean p = cleaned (rooted p) (normalize (rooted p) (elements p))"
proof -
  assume "p \<noteq> []"
  have "\<forall>c \<in> set (normalize (rooted p) (elements p)). c \<noteq> []"
    using normalize_subset [of "rooted p" "elements p"] elements_ok
    by (auto simp: element_ok_def)
  then have "join_slash (normalize (rooted p) (elements p)) = []
               \<longleftrightarrow> normalize (rooted p) (elements p) = []"
    by (rule join_slash_Nil_iff)
  with \<open>p \<noteq> []\<close> show ?thesis
    by (auto simp: Clean_def cleaned_def Let_def)
qed

lemma Join_name:
  assumes "valid_name n"
  shows "\<exists>r cs. Join [d, n] = cleaned r (cs @ [n]) \<and> (\<forall>c \<in> set cs. element_ok c)
               \<and> (r \<longleftrightarrow> rooted d)"
proof (cases "d = []")
  case True
  have "n \<noteq> []" "\<not> rooted n"
    using assms by (auto simp: valid_name_def rooted_def split: list.splits)
  then have "Join [d, n] = cleaned False ([] @ [n])"
    using True assms
    by (simp add: Join_def Clean_cleaned elements_name normalize_def dotdot_def valid_name_def)
  with True show ?thesis
    by (intro exI [of _ False] exI [of _ "[]"]) (simp add: rooted_def)
next
  case False
  have e: "elements (d @ ''/'' @ n) = elements d @ [n]"
    using assms by (rule elements_snoc)
  have "n \<noteq> ''..''"
    using assms by (simp add: valid_name_def)
  then have "Join [d, n]
               = cleaned (rooted d) (normalize (rooted d) (elements d) @ [n])"
    using False e
    by (simp add: Join_def Clean_cleaned rooted_append normalize_snoc)
  moreover have "\<forall>c \<in> set (normalize (rooted d) (elements d)). element_ok c"
    using normalize_subset [of "rooted d" "elements d"] elements_ok by blast
  ultimately show ?thesis
    by blast
qed

lemma cleaned_ends:
  "cleaned r (cs @ [n]) = n \<or> (\<exists>x. cleaned r (cs @ [n]) = x @ ''/'' @ n)"
proof (cases r)
  case True
  then show ?thesis
    by (cases "cs = []") (auto simp: cleaned_def join_slash_snoc intro: exI [of _ "[]"])
next
  case False
  then show ?thesis
    by (cases "cs = []") (auto simp: cleaned_def join_slash_snoc)
qed

lemma suffix_after_slash:
  assumes "CHR ''/'' \<notin> set s"
  shows "suffix s (x @ CHR ''/'' # n) \<longleftrightarrow> suffix s n"
proof
  assume "suffix s (x @ CHR ''/'' # n)"
  then have "suffix s ((x @ [CHR ''/'']) @ n)" by simp
  then have "suffix s n \<or> (\<exists>s'. s = s' @ n \<and> suffix s' (x @ [CHR ''/'']))"
    unfolding suffix_append .
  then show "suffix s n"
  proof
    assume "suffix s n"
    then show ?thesis .
  next
    assume "\<exists>s'. s = s' @ n \<and> suffix s' (x @ [CHR ''/''])"
    then obtain s' where s': "s = s' @ n" "suffix s' (x @ [CHR ''/''])" by blast
    have "s' = []"
    proof (rule ccontr)
      assume ne: "s' \<noteq> []"
      from s'(2) obtain y where "x @ [CHR ''/''] = y @ s'"
        by (auto simp: suffix_def)
      then have "last s' = CHR ''/''"
        using ne by (metis last_appendR last_snoc)
      with ne have "CHR ''/'' \<in> set s'"
        using last_in_set by metis
      with s'(1) assms show False by simp
    qed
    with s'(1) show "suffix s n" by simp
  qed
next
  assume "suffix s n"
  then show "suffix s (x @ CHR ''/'' # n)"
    by (metis suffix_append append_Cons append_Nil append_assoc)
qed

lemma HasSuffix_Join_name:
  assumes "valid_name n" "CHR ''/'' \<notin> set s"
  shows "HasSuffix (Join [d, n]) s \<longleftrightarrow> HasSuffix n s"
proof -
  from Join_name [OF assms(1)] obtain r cs where j: "Join [d, n] = cleaned r (cs @ [n])"
    by blast
  from cleaned_ends [of r cs n] show ?thesis
    using j assms(2) by (auto simp: HasSuffix_def suffix_after_slash)
qed

lemma resolve_Join_name:
  assumes "valid_name n"
  shows "\<exists>kd. resolve w (Join [d, n]) = Some (kd @ [n])"
proof -
  from Join_name [OF assms] obtain r cs where
    j: "Join [d, n] = cleaned r (cs @ [n])" and ok: "\<forall>c \<in> set cs. element_ok c"
    by blast
  have okn: "\<forall>c \<in> set (cs @ [n]). element_ok c"
    using ok assms by (auto dest: valid_name_element_ok)
  have ne: "cleaned r (cs @ [n]) \<noteq> []"
    using assms by (auto simp: cleaned_def join_slash_snoc valid_name_def)
  have el: "elements (cleaned r (cs @ [n])) = cs @ [n]"
    using elements_join_slash [OF okn] by (auto simp: cleaned_def)
  have "n \<noteq> ''..''"
    using assms by (simp add: valid_name_def)
  then show ?thesis
    using j ne el
    by (simp add: resolve_def normalize_snoc [of n True, symmetric] del: append_assoc)
       (metis append_assoc normalize_snoc)
qed

subsection \<open>Crash inputs\<close>

lemma base_elements_ok: "\<forall>c \<in> set (base_elements d). element_ok c"
  using normalize_subset [of "rooted d" "elements d"] elements_ok
  by (auto simp: base_elements_def)

lemma Join_one_name:
  assumes "valid_name n"
  shows "Join [d, n] = cleaned (rooted d) (base_elements d @ [n])"
proof (cases "d = []")
  case True
  have "n \<noteq> []" "\<not> rooted n"
    using assms by (auto simp: valid_name_def rooted_def split: list.splits)
  then show ?thesis
    using True assms
    by (simp add: Join_def Clean_cleaned elements_name normalize_def dotdot_def valid_name_def
          base_elements_def rooted_def)
next
  case False
  have "n \<noteq> ''..''"
    using assms by (simp add: valid_name_def)
  then show ?thesis
    using False elements_snoc [OF assms, of d]
    by (simp add: Join_def Clean_cleaned rooted_append normalize_snoc base_elements_def)
qed

lemma Join_two_names:
  assumes "valid_name a" "valid_name b"
  shows "Join [d, a, b] = cleaned (rooted d) (base_elements d @ [a, b])"
proof -
  have ab: "a \<noteq> ''..''" "b \<noteq> ''..''" "a \<noteq> []"
    using assms by (simp_all add: valid_name_def)
  have n2: "normalize r (cs @ [a, b]) = normalize r cs @ [a, b]" for r cs
    using normalize_snoc [OF ab(2), of r "cs @ [a]"] normalize_snoc [OF ab(1), of r cs]
    by simp
  show ?thesis
  proof (cases "d = []")
    case True
    have e: "elements (a @ ''/'' @ b) = [a, b]"
      using elements_snoc [OF assms(2), of a] elements_name [OF assms(1)] by simp
    have r: "\<not> rooted (a @ ''/'' @ b)"
      using assms(1) by (cases a) (auto simp: valid_name_def rooted_def)
    have "normalize False [a, b] = [a, b]"
      using n2 [of False "[]"] by (simp add: normalize_def)
    with True e r ab(3) show ?thesis
      by (simp add: Join_def Clean_cleaned base_elements_def rooted_def)
  next
    case False
    have "elements (d @ ''/'' @ a @ ''/'' @ b) = elements d @ [a, b]"
      using elements_snoc [OF assms(2), of "d @ ''/'' @ a"] elements_snoc [OF assms(1), of d]
      by simp
    moreover have "rooted (d @ ''/'' @ a @ ''/'' @ b) = rooted d"
      using False by (rule rooted_append)
    ultimately show ?thesis
      using False n2 [of "rooted d" "elements d"]
      by (simp add: Join_def Clean_cleaned base_elements_def)
  qed
qed

lemma cleaned_snoc:
  "cs \<noteq> [] \<Longrightarrow> cleaned r (cs @ [b]) = cleaned r cs @ ''/'' @ b"
  by (simp add: cleaned_def join_slash_snoc)

lemma Join_two_names_split:
  assumes "valid_name a" "valid_name b"
  shows "Join [d, a, b] = Join [d, a] @ ''/'' @ b"
  using cleaned_snoc [of "base_elements d @ [a]" "rooted d" b]
  by (simp add: Join_two_names [OF assms] Join_one_name [OF assms(1)])

lemma Split_after_slash:
  assumes "CHR ''/'' \<notin> set b"
  shows "Split (p @ ''/'' @ b) = (p @ ''/'', b)"
proof -
  have a: "\<And>x. x \<in> set (rev b) \<Longrightarrow> x \<noteq> CHR ''/''"
    using assms by auto
  have t: "takeWhile (\<lambda>c. c \<noteq> CHR ''/'') (rev b @ CHR ''/'' # rev p)
             = rev b @ takeWhile (\<lambda>c. c \<noteq> CHR ''/'') (CHR ''/'' # rev p)"
    by (rule takeWhile_append2) (rule a)
  have d: "dropWhile (\<lambda>c. c \<noteq> CHR ''/'') (rev b @ CHR ''/'' # rev p)
             = dropWhile (\<lambda>c. c \<noteq> CHR ''/'') (CHR ''/'' # rev p)"
    by (rule dropWhile_append2) (rule a)
  show ?thesis
    by (simp add: Split_def t d)
qed

lemma Join_one_name_not_Nil: "valid_name n \<Longrightarrow> Join [d, n] \<noteq> []"
  by (auto simp: Join_one_name cleaned_def join_slash_snoc valid_name_def)

lemma set_split_slash_member:
  "c \<in> set (split_slash s) \<Longrightarrow> x \<in> set c \<Longrightarrow> x \<in> set s"
  by (induction s arbitrary: c) (fastforce split: list.splits if_splits)+

lemma set_split_slash: "c \<in> set (split_slash s) \<Longrightarrow> set c \<subseteq> set s"
  using set_split_slash_member by blast

lemma set_join_slash: "x \<in> set (join_slash cs) \<Longrightarrow> x = CHR ''/'' \<or> (\<exists>c \<in> set cs. x \<in> set c)"
  by (induction cs rule: join_slash.induct) auto

lemma set_cleaned:
  "x \<in> set (cleaned r cs) \<Longrightarrow> x = CHR ''/'' \<or> x = CHR ''.'' \<or> (\<exists>c \<in> set cs. x \<in> set c)"
  by (auto simp: cleaned_def dest: set_join_slash split: if_splits)

lemma set_base_elements: "c \<in> set (base_elements d) \<Longrightarrow> set c \<subseteq> set d"
  using normalize_subset [of "rooted d" "elements d"]
  by (auto simp: base_elements_def elements_def dest!: set_split_slash split: if_splits)

lemma hasMeta_Join_one_name:
  assumes "valid_name n" "\<not> hasMeta d" "\<not> hasMeta n"
  shows "\<not> hasMeta (Join [d, n])"
proof
  assume "hasMeta (Join [d, n])"
  then obtain x where x: "x \<in> set (cleaned (rooted d) (base_elements d @ [n]))"
      "x = CHR ''*'' \<or> x = CHR ''?'' \<or> x = CHR ''['' \<or> x = CHR 0x5C"
    by (auto simp: hasMeta_def Join_one_name [OF assms(1)])
  from set_cleaned [OF x(1)] x(2) have "\<exists>c \<in> set (base_elements d @ [n]). x \<in> set c"
    by auto
  then have "x \<in> set d \<or> x \<in> set n"
    using set_base_elements by fastforce
  with x(2) assms(2,3) show False
    by (auto simp: hasMeta_def)
qed

lemma valid_crashers: "valid_name ''crashers''" and valid_star: "valid_name ''*''"
  by (simp_all add: valid_name_def)

lemma Glob_crashers:
  assumes "\<not> hasMeta tempDir"
  shows "Glob en (Join [tempDir, ''crashers'', ''*'']) w
           = Inr (map (\<lambda>n. Join [Join [tempDir, ''crashers''], n])
                      (names_in (Join [tempDir, ''crashers'']) w))"
proof -
  let ?P = "Join [tempDir, ''crashers'']"
  have j: "Join [tempDir, ''crashers'', ''*''] = ?P @ ''/'' @ ''*''"
    by (rule Join_two_names_split [OF valid_crashers valid_star])
  have s: "Split (?P @ ''/'' @ ''*'') = (?P @ ''/'', ''*'')"
    by (rule Split_after_slash) simp
  have ne: "?P \<noteq> []"
    by (rule Join_one_name_not_Nil [OF valid_crashers])
  then have c: "cleanGlobPath (?P @ ''/'') = ?P"
    by (simp add: cleanGlobPath_def)
  have m: "\<not> hasMeta ?P"
    by (rule hasMeta_Join_one_name [OF valid_crashers assms]) (simp add: hasMeta_def)
  show ?thesis
    unfolding Glob_def j s using c m
    by (auto simp: Let_def names_in_def split: sum.splits)
qed

lemma filter_paths_names:
  assumes "list_all valid_name ns"
  shows "filter (\<lambda>p. \<not> HasSuffix p ''.output'') (map (\<lambda>n. Join [d, n]) ns)
           = map (\<lambda>n. Join [d, n]) (filter (\<lambda>n. \<not> HasSuffix n ''.output'') ns)"
  using assms
  by (induction ns) (simp_all add: HasSuffix_Join_name)

text \<open>
  C8. The crash inputs of a failing run are the entries of the workspace's crashers
  directory whose names do not end in \<open>.output\<close>, each reported by its path, in the
  order of their names. The workspace path is taken to be free of pattern
  metacharacters, and the entries to have the names a directory can hold. A successful
  run reports none.
\<close>

theorem crash_inputs_exclude_output:
  "(\<not> hasMeta tempDir \<longrightarrow>
      collect_crashers en tempDir w5
        = filter (\<lambda>p. \<not> HasSuffix p ''.output'')
            (map (\<lambda>n. Join [Join [tempDir, ''crashers''], n])
                 (names_in (Join [tempDir, ''crashers'']) w5))
    \<and> (list_all valid_name (names_in (Join [tempDir, ''crashers'']) w5) \<longrightarrow>
        collect_crashers en tempDir w5
          = map (\<lambda>n. Join [Join [tempDir, ''crashers''], n])
              (filter (\<lambda>n. \<not> HasSuffix n ''.output'')
                 (names_in (Join [tempDir, ''crashers'']) w5))))
   \<and> (RunTarget en e t w = (Inr r, e', w') \<longrightarrow>
        (\<exists>tempDir w0 w4 err out elapsed w5.
            MkdirTemp en [] ''fuzz-run-*'' w = (Inr tempDir, w0)
          \<and> harness en (Name t) (getTargetDuration en e t) (Parallelism (Config e)) (Package t)
                tempDir w4 = (err, out, elapsed, w5)
          \<and> Success r = (err = None)
          \<and> CrashInputs r = (if Success r then [] else collect_crashers en tempDir w5)))"
proof (intro conjI impI)
  assume m: "\<not> hasMeta tempDir"
  show "collect_crashers en tempDir w5
        = filter (\<lambda>p. \<not> HasSuffix p ''.output'')
            (map (\<lambda>n. Join [Join [tempDir, ''crashers''], n])
                 (names_in (Join [tempDir, ''crashers'']) w5))"
    by (simp add: collect_crashers_def Glob_crashers [OF m])
next
  assume m: "\<not> hasMeta tempDir"
    and v: "list_all valid_name (names_in (Join [tempDir, ''crashers'']) w5)"
  show "collect_crashers en tempDir w5
          = map (\<lambda>n. Join [Join [tempDir, ''crashers''], n])
              (filter (\<lambda>n. \<not> HasSuffix n ''.output'')
                 (names_in (Join [tempDir, ''crashers'']) w5))"
    by (simp add: collect_crashers_def Glob_crashers [OF m] filter_paths_names [OF v])
next
  assume a: "RunTarget en e t w = (Inr r, e', w')"
  from RunTarget_Inr [OF a] show
    "\<exists>tempDir w0 w4 err out elapsed w5.
        MkdirTemp en [] ''fuzz-run-*'' w = (Inr tempDir, w0)
      \<and> harness en (Name t) (getTargetDuration en e t) (Parallelism (Config e)) (Package t)
            tempDir w4 = (err, out, elapsed, w5)
      \<and> Success r = (err = None)
      \<and> CrashInputs r = (if Success r then [] else collect_crashers en tempDir w5)"
    by fastforce
qed

text \<open>
  With the crashers \<open>c1\<close>, \<open>c1.output\<close> and \<open>c2\<close> the crash inputs are \<open>c1\<close> and
  \<open>c2\<close>; the end-to-end scenario, with \<open>abc123\<close> and \<open>abc123.output\<close>, gives a
  failed result with the one crash input \<open>abc123\<close>.
\<close>

theorem crash_inputs_exclude_output_witness:
  "names_in ''/tmp/fuzz-run-7/crashers'' crashers_world = [''c1'', ''c1.output'', ''c2'']
   \<and> collect_crashers (crash_env ''FAIL'') ''/tmp/fuzz-run-7'' crashers_world
       = [''/tmp/fuzz-run-7/crashers/c1'', ''/tmp/fuzz-run-7/crashers/c2'']
   \<and> (\<exists>r e' w'. RunTarget (crash_env ''FAIL'') (codec_engine [codec_target]) codec_target
                   codec_world = (Inr r, e', w')
               \<and> Success r = False
               \<and> CrashInputs r = [''/tmp/fuzz-run-1/crashers/abc123'']
               \<and> length (CrashInputs r) = 1)"
proof (intro conjI)
  have j: "Join [''/tmp/fuzz-run-7'', ''crashers''] = ''/tmp/fuzz-run-7/crashers''"
    by code_simp
  show n: "names_in ''/tmp/fuzz-run-7/crashers'' crashers_world = [''c1'', ''c1.output'', ''c2'']"
    by code_simp
  have m: "\<not> hasMeta ''/tmp/fuzz-run-7''"
    by (simp add: hasMeta_def)
  have v: "list_all valid_name (names_in (Join [''/tmp/fuzz-run-7'', ''crashers'']) crashers_world)"
    unfolding j n by (simp add: valid_name_def)
  have "collect_crashers (crash_env ''FAIL'') ''/tmp/fuzz-run-7'' crashers_world
          = map (\<lambda>n. Join [Join [''/tmp/fuzz-run-7'', ''crashers''], n])
              (filter (\<lambda>n. \<not> HasSuffix n ''.output'')
                 (names_in (Join [''/tmp/fuzz-run-7'', ''crashers'']) crashers_world))"
    using crash_inputs_exclude_output
            [where tempDir = "''/tmp/fuzz-run-7''" and ?w5.0 = crashers_world
               and en = "crash_env ''FAIL''"] m v
    by blast
  also have "\<dots> = [''/tmp/fuzz-run-7/crashers/c1'', ''/tmp/fuzz-run-7/crashers/c2'']"
    unfolding j n by code_simp
  finally show "collect_crashers (crash_env ''FAIL'') ''/tmp/fuzz-run-7'' crashers_world
       = [''/tmp/fuzz-run-7/crashers/c1'', ''/tmp/fuzz-run-7/crashers/c2'']" .
next
  define X where
    "X = RunTarget (crash_env ''FAIL'') (codec_engine [codec_target]) codec_target codec_world"
  have s: "(case fst X of
              Inr r \<Rightarrow> Success r = False \<and> CrashInputs r = [''/tmp/fuzz-run-1/crashers/abc123'']
            | Inl x \<Rightarrow> False)"
    unfolding X_def by code_simp
  then obtain r where r: "fst X = Inr r" "Success r = False"
      "CrashInputs r = [''/tmp/fuzz-run-1/crashers/abc123'']"
    by (cases "fst X") auto
  then have x: "RunTarget (crash_env ''FAIL'') (codec_engine [codec_target]) codec_target
                  codec_world = (Inr r, fst (snd X), snd (snd X))"
    by (simp add: X_def [symmetric] prod_eq_iff)
  have "\<exists>tempDir w0 w4 err out elapsed w5.
          MkdirTemp (crash_env ''FAIL'') [] ''fuzz-run-*'' codec_world = (Inr tempDir, w0)
        \<and> harness (crash_env ''FAIL'') (Name codec_target)
            (getTargetDuration (crash_env ''FAIL'') (codec_engine [codec_target]) codec_target)
            (Parallelism (Config (codec_engine [codec_target]))) (Package codec_target)
            tempDir w4 = (err, out, elapsed, w5)
        \<and> Success r = (err = None)
        \<and> CrashInputs r = (if Success r then [] else collect_crashers (crash_env ''FAIL'') tempDir w5)"
    using crash_inputs_exclude_output
            [where en = "crash_env ''FAIL''" and w = codec_world
               and e = "codec_engine [codec_target]" and t = codec_target
               and r = r and e' = "fst (snd X)" and w' = "snd (snd X)"] x
    by blast
  have l: "length (CrashInputs r) = 1"
    using r(3) by simp
  show "\<exists>r e' w'. RunTarget (crash_env ''FAIL'') (codec_engine [codec_target]) codec_target
                   codec_world = (Inr r, e', w')
               \<and> Success r = False
               \<and> CrashInputs r = [''/tmp/fuzz-run-1/crashers/abc123'']
               \<and> length (CrashInputs r) = 1"
    by (rule exI [of _ r], rule exI [of _ "fst (snd X)"], rule exI [of _ "snd (snd X)"])
       (intro conjI x r(2) r(3) l)
qed

subsection \<open>The file system only grows under an import\<close>

lemma map_of_filter_neq:
  "map_of (filter (\<lambda>(k', v'). k' \<noteq> k) al) x = (if x = k then None else map_of al x)"
  by (induction al) auto

lemma node_at_Nil [simp]: "node_at w [] = Some Directory"
  by (simp add: node_at_def)

lemma node_at_put:
  "node_at (put k v w) x = (if x = [] then Some Directory else if x = k then Some v else node_at w x)"
  by (simp add: node_at_def put_def map_of_filter_neq)

lemma cwd_put [simp]: "cwd (put k v w) = cwd w" and TempDir_put [simp]: "TempDir (put k v w) = TempDir w"
  by (simp_all add: put_def)

lemma resolve_cwd: "cwd w' = cwd w \<Longrightarrow> resolve w' p = resolve w p"
  by (simp add: resolve_def)

lemma resolve_put [simp]: "resolve (put k v w) p = resolve w p"
  by (simp add: resolve_def)

lemma grows_refl [simp]: "grows w w"
  by (simp add: grows_def)

lemma grows_trans: "grows w w' \<Longrightarrow> grows w' w'' \<Longrightarrow> grows w w''"
  by (simp add: grows_def)

lemma grows_put: "node_at w k = None \<Longrightarrow> grows w (put k v w)"
  by (auto simp: grows_def node_at_put)

lemma grows_put_put: "node_at w k = None \<Longrightarrow> grows w (put k v' (put k v w))"
  by (auto simp: grows_def node_at_put)

lemma grows_resolve: "grows w w' \<Longrightarrow> resolve w' p = resolve w p"
  by (simp add: grows_def resolve_def)

lemma grows_Stat:
  assumes "grows w w'" "Stat p w = Some v"
  shows "Stat p w' = Some v"
  using assms grows_resolve [OF assms(1), of p]
  by (auto simp: Stat_def grows_def split: option.splits)

lemma Create_cases:
  assumes "Create p w = (r, w')"
  shows "(r \<noteq> None \<and> w' = w)
       \<or> (\<exists>k. r = None \<and> resolve w p = Some k \<and> w' = put k (RegFile []) w)"
  using assms by (auto simp: Create_def split: option.splits if_splits)

lemma copyFile_cases:
  assumes "copyFile src dst w = (r, w')"
  shows "(r \<noteq> None \<and> w' = w)
       \<or> (\<exists>k. resolve w dst = Some k
            \<and> ((r \<noteq> None \<and> w' = put k (RegFile []) w)
              \<or> (\<exists>b. r = None \<and> w' = put k (RegFile b) (put k (RegFile []) w)
                     \<and> Stat src (put k (RegFile []) w) = Some (RegFile b))))"
proof (cases "Stat src w")
  case None
  with assms have "r = Some ENOENT" "w' = w"
    by (auto simp: copyFile_def)
  then show ?thesis by simp
next
  case (Some opened)
  obtain rc wc where c: "Create dst w = (rc, wc)"
    by (cases "Create dst w") auto
  from Create_cases [OF c] show ?thesis
  proof
    assume "rc \<noteq> None \<and> wc = w"
    with assms Some c show ?thesis
      by (auto simp: copyFile_def)
  next
    assume "\<exists>k. rc = None \<and> resolve w dst = Some k \<and> wc = put k (RegFile []) w"
    then obtain k where k: "rc = None" "resolve w dst = Some k" "wc = put k (RegFile []) w"
      by blast
    with assms Some c show ?thesis
      by (auto simp: copyFile_def split: option.splits ent.splits)
  qed
qed

lemma copyFile_grows:
  assumes "Stat dst w = None" "copyFile src dst w = (r, w')"
  shows "grows w w'"
proof -
  from copyFile_cases [OF assms(2)] show ?thesis
  proof
    assume "r \<noteq> None \<and> w' = w"
    then show ?thesis by simp
  next
    assume "\<exists>k. resolve w dst = Some k
            \<and> ((r \<noteq> None \<and> w' = put k (RegFile []) w)
              \<or> (\<exists>b. r = None \<and> w' = put k (RegFile b) (put k (RegFile []) w)
                     \<and> Stat src (put k (RegFile []) w) = Some (RegFile b)))"
    then obtain k where k: "resolve w dst = Some k"
      "w' = put k (RegFile []) w \<or> (\<exists>b. w' = put k (RegFile b) (put k (RegFile []) w))"
      by blast
    with assms(1) have "node_at w k = None"
      by (simp add: Stat_def)
    with k(2) show ?thesis
      by (auto intro: grows_put grows_put_put)
  qed
qed

lemma copyFile_done:
  assumes "copyFile src dst w = (None, w')"
  shows "\<exists>k b. resolve w dst = Some k \<and> k \<noteq> [] \<and> node_at w' k = Some (RegFile b)
             \<and> w' = put k (RegFile b) (put k (RegFile []) w)"
proof -
  from copyFile_cases [OF assms] obtain k b where
    k: "resolve w dst = Some k" "w' = put k (RegFile b) (put k (RegFile []) w)"
    by auto
  have "k \<noteq> []"
  proof
    assume "k = []"
    with k(1) have "Create dst w = (Some EISDIR, w)"
      by (simp add: Create_def node_at_def)
    with assms show False
      by (auto simp: copyFile_def split: option.splits)
  qed
  with k show ?thesis
    by (auto simp: node_at_put)
qed

lemma import_entries_skip:
  "d \<or> Stat (Join [targetDir, n]) w \<noteq> None
     \<Longrightarrow> import_entries src targetDir ((n, d) # es) w = import_entries src targetDir es w"
  by (auto simp: Let_def)

lemma import_entries_copy:
  "\<not> d \<Longrightarrow> Stat (Join [targetDir, n]) w = None
     \<Longrightarrow> copyFile (Join [src, n]) (Join [targetDir, n]) w = (rc, wc)
     \<Longrightarrow> import_entries src targetDir ((n, d) # es) w
           = (case rc of
                Some e \<Rightarrow> (Some (Wrap ''failed to copy corpus entry'' e), wc)
              | None \<Rightarrow> import_entries src targetDir es wc)"
  by (simp add: Let_def split: option.splits)

lemma import_entries_grows:
  "import_entries src targetDir es w = (r, w') \<Longrightarrow> grows w w'"
proof (induction es arbitrary: w)
  case Nil
  then show ?case by simp
next
  case (Cons a es)
  obtain n d where a: "a = (n, d)" by (cases a) auto
  show ?case
  proof (cases "d \<or> Stat (Join [targetDir, n]) w \<noteq> None")
    case True
    from Cons.prems have "import_entries src targetDir es w = (r, w')"
      unfolding a import_entries_skip [OF True] .
    then show ?thesis by (rule Cons.IH)
  next
    case False
    then have nd: "\<not> d" and st: "Stat (Join [targetDir, n]) w = None" by simp_all
    obtain rc wc where c: "copyFile (Join [src, n]) (Join [targetDir, n]) w = (rc, wc)"
      by (cases "copyFile (Join [src, n]) (Join [targetDir, n]) w") auto
    have g: "grows w wc"
      using st c by (rule copyFile_grows)
    have step: "(case rc of
                   Some e \<Rightarrow> (Some (Wrap ''failed to copy corpus entry'' e), wc)
                 | None \<Rightarrow> import_entries src targetDir es wc) = (r, w')"
      using Cons.prems unfolding a import_entries_copy [OF nd st c] .
    show ?thesis
    proof (cases rc)
      case None
      with step have "import_entries src targetDir es wc = (r, w')" by simp
      then have "grows wc w'" by (rule Cons.IH)
      with g show ?thesis by (rule grows_trans)
    next
      case (Some e)
      with step have "w' = wc" by simp
      with g show ?thesis by simp
    qed
  qed
qed

lemma import_entries_present:
  "import_entries src targetDir es w = (None, w') \<Longrightarrow> (n, False) \<in> set es
     \<Longrightarrow> Stat (Join [targetDir, n]) w' \<noteq> None"
proof (induction es arbitrary: w)
  case Nil
  then show ?case by simp
next
  case (Cons a es)
  obtain n0 d where a: "a = (n0, d)" by (cases a) auto
  show ?case
  proof (cases "d \<or> Stat (Join [targetDir, n0]) w \<noteq> None")
    case True
    from Cons.prems(1) have rest: "import_entries src targetDir es w = (None, w')"
      unfolding a import_entries_skip [OF True] .
    show ?thesis
    proof (cases "(n, False) \<in> set es")
      case True
      with rest show ?thesis by (rule Cons.IH)
    next
      case False
      with Cons.prems(2) a have "n0 = n" "\<not> d" by auto
      with True obtain v where "Stat (Join [targetDir, n]) w = Some v" by auto
      with import_entries_grows [OF rest] have "Stat (Join [targetDir, n]) w' = Some v"
        by (rule grows_Stat)
      then show ?thesis by simp
    qed
  next
    case False
    then have nd: "\<not> d" and st: "Stat (Join [targetDir, n0]) w = None" by simp_all
    obtain rc wc where c: "copyFile (Join [src, n0]) (Join [targetDir, n0]) w = (rc, wc)"
      by (cases "copyFile (Join [src, n0]) (Join [targetDir, n0]) w") auto
    have step: "(case rc of
                   Some e \<Rightarrow> (Some (Wrap ''failed to copy corpus entry'' e), wc)
                 | None \<Rightarrow> import_entries src targetDir es wc) = (None, w')"
      using Cons.prems(1) unfolding a import_entries_copy [OF nd st c] .
    then have rc: "rc = None"
      by (cases rc) simp_all
    with step have rest: "import_entries src targetDir es wc = (None, w')" by simp
    show ?thesis
    proof (cases "(n, False) \<in> set es")
      case True
      with rest show ?thesis by (rule Cons.IH)
    next
      case False
      with Cons.prems(2) a have n0: "n0 = n" by auto
      from copyFile_done [of "Join [src, n0]" "Join [targetDir, n0]" w wc] c rc obtain k b where
        k: "resolve w (Join [targetDir, n0]) = Some k" "node_at wc k = Some (RegFile b)"
        by auto
      have gw: "grows w wc"
        using st c by (rule copyFile_grows)
      have "Stat (Join [targetDir, n0]) wc = Some (RegFile b)"
        using k by (simp add: Stat_def grows_resolve [OF gw])
      with import_entries_grows [OF rest] have "Stat (Join [targetDir, n0]) w' = Some (RegFile b)"
        by (rule grows_Stat)
      with n0 show ?thesis by simp
    qed
  qed
qed

lemma import_entries_noop:
  "(\<And>n d. (n, d) \<in> set es \<Longrightarrow> d \<or> Stat (Join [targetDir, n]) w \<noteq> None)
     \<Longrightarrow> import_entries src targetDir es w = (None, w)"
proof (induction es)
  case Nil
  then show ?case by simp
next
  case (Cons a es)
  obtain n d where a: "a = (n, d)" by (cases a) auto
  have "d \<or> Stat (Join [targetDir, n]) w \<noteq> None"
    using Cons.prems [of n d] a by simp
  then have "import_entries src targetDir (a # es) w = import_entries src targetDir es w"
    unfolding a by (rule import_entries_skip)
  moreover have "import_entries src targetDir es w = (None, w)"
    by (rule Cons.IH) (rule Cons.prems, simp)
  ultimately show ?case by simp
qed

lemma import_entries_new:
  "import_entries src targetDir es w = (r, w') \<Longrightarrow> node_at w k = None \<Longrightarrow> node_at w' k \<noteq> None
     \<Longrightarrow> \<exists>n. (n, False) \<in> set es \<and> resolve w (Join [targetDir, n]) = Some k"
proof (induction es arbitrary: w)
  case Nil
  then show ?case by simp
next
  case (Cons a es)
  obtain n0 d where a: "a = (n0, d)" by (cases a) auto
  show ?case
  proof (cases "d \<or> Stat (Join [targetDir, n0]) w \<noteq> None")
    case True
    from Cons.prems(1) have "import_entries src targetDir es w = (r, w')"
      unfolding a import_entries_skip [OF True] .
    from Cons.IH [OF this Cons.prems(2,3)] show ?thesis by auto
  next
    case False
    then have nd: "\<not> d" and st: "Stat (Join [targetDir, n0]) w = None" by simp_all
    obtain rc wc where c: "copyFile (Join [src, n0]) (Join [targetDir, n0]) w = (rc, wc)"
      by (cases "copyFile (Join [src, n0]) (Join [targetDir, n0]) w") auto
    have step: "(case rc of
                   Some e \<Rightarrow> (Some (Wrap ''failed to copy corpus entry'' e), wc)
                 | None \<Rightarrow> import_entries src targetDir es wc) = (r, w')"
      using Cons.prems(1) unfolding a import_entries_copy [OF nd st c] .
    have gw: "grows w wc"
      using st c by (rule copyFile_grows)
    have changed: "resolve w (Join [targetDir, n0]) = Some k" if "node_at wc k \<noteq> None"
      using copyFile_cases [OF c] Cons.prems(2) that
      by (auto simp: node_at_put split: if_splits)
    show ?thesis
    proof (cases "node_at wc k = None")
      case False
      then have "resolve w (Join [targetDir, n0]) = Some k" by (rule changed)
      with a nd show ?thesis by auto
    next
      case True
      have "rc = None"
      proof (rule ccontr)
        assume "rc \<noteq> None"
        with step have "w' = wc" by auto
        with True Cons.prems(3) show False by simp
      qed
      with step have "import_entries src targetDir es wc = (r, w')" by simp
      from Cons.IH [OF this True Cons.prems(3)] obtain n where
        "(n, False) \<in> set es" "resolve wc (Join [targetDir, n]) = Some k"
        by blast
      with grows_resolve [OF gw] show ?thesis
        by auto
    qed
  qed
qed

lemma mkdir_at_grows: "mkdir_at k w = (r, w') \<Longrightarrow> grows w w'"
  by (auto simp: mkdir_at_def intro: grows_put split: if_splits)

lemma mkdir_all_rev_grows: "mkdir_all_rev rk w = (r, w') \<Longrightarrow> grows w w'"
proof (induction rk arbitrary: r w')
  case Nil
  then show ?case by simp
next
  case (Cons c rk)
  show ?case
  proof (cases "node_at w (rev (c # rk))")
    case None
    obtain r1 w1 where p: "mkdir_all_rev rk w = (r1, w1)"
      by (cases "mkdir_all_rev rk w") auto
    then have g: "grows w w1" by (rule Cons.IH)
    show ?thesis
    proof (cases r1)
      case None
      with Cons.prems \<open>node_at w (rev (c # rk)) = None\<close> p
      have "mkdir_at (rev (c # rk)) w1 = (r, w')" by simp
      then have "grows w1 w'" by (rule mkdir_at_grows)
      with g show ?thesis by (rule grows_trans)
    next
      case (Some e)
      with Cons.prems \<open>node_at w (rev (c # rk)) = None\<close> p have "w' = w1" by simp
      with g show ?thesis by simp
    qed
  next
    case (Some v)
    with Cons.prems show ?thesis
      by (cases v) auto
  qed
qed

lemma MkdirAll_grows: "MkdirAll p w = (r, w') \<Longrightarrow> grows w w'"
  by (auto simp: MkdirAll_def split: option.splits dest: mkdir_all_rev_grows)

lemma GetTargetDir_grows:
  assumes "GetTargetDir m t w = (d, m1, w1)"
  shows "grows w w1 \<and> Minimization m1 = Minimization m \<and> BaseDir m1 = BaseDir m"
proof -
  have "grows w (snd (MkdirAll p w))" for p
    using MkdirAll_grows [of p w] by (cases "MkdirAll p w") auto
  with assms show ?thesis
    by (auto simp: GetTargetDir_def Let_def split: option.splits)
qed
lemma keys_iff: "k \<in> set (keys w) \<longleftrightarrow> map_of (nodes w) k \<noteq> None"
  by (simp add: keys_def map_of_eq_None_iff)

lemma distinct_keys: "distinct (keys w)"
  by (simp add: keys_def)

lemma is_file_key: "is_file (node_at w k) \<Longrightarrow> k \<in> set (keys w)"
  by (cases "k = []") (auto simp: is_file_def node_at_def keys_iff split: option.splits)

lemma file_count_card:
  "file_count base w = card {k \<in> set (keys w). prefix base k \<and> is_file (node_at w k)}"
proof -
  have "file_count base w
          = card ({k. prefix base k \<and> is_file (node_at w k)} \<inter> set (keys w))"
    unfolding file_count_def by (rule distinct_length_filter) (rule distinct_keys)
  also have "{k. prefix base k \<and> is_file (node_at w k)} \<inter> set (keys w)
               = {k \<in> set (keys w). prefix base k \<and> is_file (node_at w k)}"
    by auto
  finally show ?thesis .
qed

lemma grows_is_file: "grows w w' \<Longrightarrow> is_file (node_at w k) \<Longrightarrow> is_file (node_at w' k)"
  by (auto simp: grows_def is_file_def split: option.splits ent.splits)

lemma grows_file_count:
  assumes "grows w w'"
  shows "file_count base w \<le> file_count base w'"
proof -
  have "{k \<in> set (keys w). prefix base k \<and> is_file (node_at w k)}
          \<subseteq> {k \<in> set (keys w'). prefix base k \<and> is_file (node_at w' k)}"
    using grows_is_file [OF assms] is_file_key by blast
  moreover have "finite {k \<in> set (keys w'). prefix base k \<and> is_file (node_at w' k)}"
    by simp
  ultimately show ?thesis
    unfolding file_count_card by (rule card_mono [rotated])
qed

lemma strategies_differ: "CoverageMinimization \<noteq> NoMinimization"
  by (simp add: CoverageMinimization_def NoMinimization_def)

lemma ImportNewCorpusEntries_quiet:
  assumes q: "quiet en m" and g: "GetTargetDir m t w = (targetDir, m1, w1)"
  shows "ImportNewCorpusEntries en m t src w
           = (case ReadDir src w1 of
                Inl e \<Rightarrow> (Some (Wrap ''failed to read new entries directory'' e), m1, w1)
              | Inr entries \<Rightarrow>
                  (case import_entries src targetDir entries w1 of (r, w2) \<Rightarrow> (r, m1, w2)))"
proof (cases "ReadDir src w1")
  case (Inl e)
  with g show ?thesis
    by (simp add: ImportNewCorpusEntries_def)
next
  case (Inr entries)
  obtain r w2 where l: "import_entries src targetDir entries w1 = (r, w2)"
    by (cases "import_entries src targetDir entries w1") auto
  have m1: "Minimization m1 = Minimization m"
    using GetTargetDir_grows [OF g] by simp
  show ?thesis
  proof (cases "r = None \<and> Minimization m1 = CoverageMinimization")
    case False
    with g Inr l show ?thesis
      by (auto simp: ImportNewCorpusEntries_def split: option.splits)
  next
    case True
    with q m1 have mz: "minimizer en (Name t) (Package t) targetDir w2 = (None, w2)"
      by (simp add: quiet_def)
    have hit: "GetTargetDir m1 t w2 = (targetDir, m1, w2)"
      by (rule GetTargetDir_hit) (rule GetTargetDir_cached [OF g])
    have "Minimize en m1 t w2 = (None, m1, w2)"
      using True strategies_differ hit mz by (simp add: Minimize_def)
    with g Inr l True show ?thesis
      by (simp add: ImportNewCorpusEntries_def)
  qed
qed

lemma ReadDir_cases:
  assumes "ReadDir p w = Inr es"
  shows "\<exists>k. resolve w p = Some k \<and> node_at w k = Some Directory \<and> es = children w k"
  using assms by (auto simp: ReadDir_def split: option.splits ent.splits)

lemma ImportNewCorpusEntries_grows:
  assumes q: "quiet en m" and i: "ImportNewCorpusEntries en m t src w = (r, m', w')"
  shows "grows w w'"
proof -
  obtain targetDir m1 w1 where g: "GetTargetDir m t w = (targetDir, m1, w1)"
    by (metis prod_cases3)
  have g1: "grows w w1"
    using GetTargetDir_grows [OF g] by simp
  show ?thesis
  proof (cases "ReadDir src w1")
    case (Inl e)
    with i g1 show ?thesis
      unfolding ImportNewCorpusEntries_quiet [OF q g] by simp
  next
    case (Inr entries)
    obtain r2 w2 where l: "import_entries src targetDir entries w1 = (r2, w2)"
      by (cases "import_entries src targetDir entries w1") auto
    with i Inr have "w' = w2"
      unfolding ImportNewCorpusEntries_quiet [OF q g] by simp
    with import_entries_grows [OF l] g1 show ?thesis
      by (auto intro: grows_trans)
  qed
qed

subsection \<open>Well-formed file systems\<close>

lemma resolve_valid:
  assumes "list_all valid_name (cwd w)" "resolve w p = Some k"
  shows "list_all valid_name k"
proof -
  define cs where "cs = (if rooted p then [] else cwd w) @ elements p"
  from assms(2) have k: "k = normalize True cs"
    by (auto simp: resolve_def cs_def split: if_splits)
  have "\<forall>c \<in> set cs. element_ok c"
    using assms(1) elements_ok
    by (auto simp: cs_def list_all_iff dest: valid_name_element_ok)
  then have "\<forall>c \<in> set k. element_ok c"
    using normalize_subset [of True cs] k by blast
  moreover have "''..'' \<notin> set k"
    unfolding k by (rule normalize_rooted_no_dotdot)
  ultimately show ?thesis
    by (auto simp: list_all_iff element_ok_def valid_name_def)
qed

lemma wf_put: "wf_world w \<Longrightarrow> list_all valid_name k \<Longrightarrow> wf_world (put k v w)"
  by (auto simp: wf_world_def put_def list_all_iff)

lemma wf_resolve: "wf_world w \<Longrightarrow> resolve w p = Some k \<Longrightarrow> list_all valid_name k"
  by (rule resolve_valid) (simp_all add: wf_world_def)

lemma mkdir_at_wf:
  "wf_world w \<Longrightarrow> list_all valid_name k \<Longrightarrow> mkdir_at k w = (r, w') \<Longrightarrow> wf_world w'"
  by (auto simp: mkdir_at_def wf_put split: if_splits)

lemma mkdir_all_rev_wf:
  "wf_world w \<Longrightarrow> list_all valid_name rk \<Longrightarrow> mkdir_all_rev rk w = (r, w') \<Longrightarrow> wf_world w'"
proof (induction rk arbitrary: r w')
  case Nil
  then show ?case by simp
next
  case (Cons c rk)
  show ?case
  proof (cases "node_at w (rev (c # rk))")
    case None
    obtain r1 w1 where p: "mkdir_all_rev rk w = (r1, w1)"
      by (cases "mkdir_all_rev rk w") auto
    have wf1: "wf_world w1"
      using Cons.prems(1) _ p by (rule Cons.IH) (use Cons.prems(2) in simp)
    show ?thesis
    proof (cases r1)
      case None
      with Cons.prems(3) \<open>node_at w (rev (c # rk)) = None\<close> p
      have mk: "mkdir_at (rev (c # rk)) w1 = (r, w')" by simp
      have v: "list_all valid_name (rev (c # rk))"
        using Cons.prems(2) by simp
      from wf1 v mk show ?thesis
        by (rule mkdir_at_wf)
    next
      case (Some e)
      with Cons.prems(3) \<open>node_at w (rev (c # rk)) = None\<close> p have "w' = w1" by simp
      with wf1 show ?thesis by simp
    qed
  next
    case (Some v)
    with Cons.prems show ?thesis
      by (cases v) auto
  qed
qed

lemma MkdirAll_wf:
  assumes "wf_world w" "MkdirAll p w = (r, w')"
  shows "wf_world w'"
proof (cases "resolve w p")
  case None
  with assms show ?thesis
    by (simp add: MkdirAll_def)
next
  case (Some k)
  with assms(2) have mk: "mkdir_all_rev (rev k) w = (r, w')"
    by (simp add: MkdirAll_def)
  have "list_all valid_name (rev k)"
    using wf_resolve [OF assms(1) Some] by simp
  with assms(1) show ?thesis
    using mk by (rule mkdir_all_rev_wf)
qed

lemma GetTargetDir_wf:
  assumes "wf_world w" "GetTargetDir m t w = (d, m1, w1)"
  shows "wf_world w1"
proof -
  have "wf_world (snd (MkdirAll p w))" for p
    using MkdirAll_wf [OF assms(1), of p] by (cases "MkdirAll p w") auto
  with assms show ?thesis
    by (auto simp: GetTargetDir_def Let_def split: option.splits)
qed

lemma children_iff:
  "(n, d) \<in> set (children w k) \<longleftrightarrow>
     (\<exists>k'. k' \<in> set (keys w) \<and> k' \<noteq> [] \<and> butlast k' = k \<and> last k' = n
          \<and> d = is_dir (node_at w k'))"
  by (auto simp: children_def)

lemma children_valid:
  assumes "wf_world w" "(n, d) \<in> set (children w k)"
  shows "valid_name n"
proof -
  from assms(2) obtain k' where k': "k' \<in> set (keys w)" "k' \<noteq> []" "last k' = n"
    by (auto simp: children_iff)
  from assms(1) k'(1) have "list_all valid_name k'"
    by (auto simp: wf_world_def keys_def list_all_iff)
  with k'(2,3) show ?thesis
    by (auto simp: list_all_iff)
qed

lemma second_import_copies_nothing:
  assumes wf: "wf_world w1"
    and rd: "ReadDir src w1 = Inr es"
    and loop: "import_entries src targetDir es w1 = (None, w2)"
  shows "\<exists>es2. ReadDir src w2 = Inr es2 \<and> import_entries src targetDir es2 w2 = (None, w2)"
proof -
  from ReadDir_cases [OF rd] obtain ks where
    ks: "resolve w1 src = Some ks" "node_at w1 ks = Some Directory" "es = children w1 ks"
    by blast
  have g: "grows w1 w2"
    using loop by (rule import_entries_grows)
  have r2: "resolve w2 src = Some ks"
    using grows_resolve [OF g] ks(1) by simp
  have d2: "node_at w2 ks = Some Directory"
    using g ks(2) by (simp add: grows_def)
  have rd2: "ReadDir src w2 = Inr (children w2 ks)"
    using r2 d2 by (simp add: ReadDir_def)
  have present: "d \<or> Stat (Join [targetDir, n]) w2 \<noteq> None"
    if m: "(n, d) \<in> set (children w2 ks)" for n d
  proof (cases d)
    case True
    then show ?thesis by simp
  next
    case False
    from m obtain k' where k': "k' \<in> set (keys w2)" "k' \<noteq> []" "butlast k' = ks"
        "last k' = n" "d = is_dir (node_at w2 k')"
      by (auto simp: children_iff)
    show ?thesis
    proof (cases "node_at w1 k'")
      case None
      from k'(1,2) have "node_at w2 k' \<noteq> None"
        by (simp add: keys_iff node_at_def)
      from import_entries_new [OF loop None this] obtain n0 where
        n0: "(n0, False) \<in> set es" "resolve w1 (Join [targetDir, n0]) = Some k'"
        by blast
      have "valid_name n0"
        using wf n0(1) unfolding ks(3) by (rule children_valid)
      from resolve_Join_name [OF this, of w1 targetDir] n0(2) have "last k' = n0"
        by auto
      with k'(4) import_entries_present [OF loop n0(1)] show ?thesis
        by simp
    next
      case (Some v)
      with g have v2: "node_at w2 k' = Some v"
        by (simp add: grows_def)
      from Some k'(2) have "k' \<in> set (keys w1)"
        by (simp add: keys_iff node_at_def)
      with k'(2,3,4) have "(n, is_dir (node_at w1 k')) \<in> set (children w1 ks)"
        by (auto simp: children_iff)
      with Some v2 k'(5) False have "(n, False) \<in> set es"
        by (simp add: ks(3))
      from import_entries_present [OF loop this] show ?thesis
        by simp
    qed
  qed
  have "import_entries src targetDir (children w2 ks) w2 = (None, w2)"
    by (rule import_entries_noop) (rule present)
  with rd2 show ?thesis
    by blast
qed
subsection \<open>Importing corpus entries\<close>

text \<open>
  C5. An entry that is in the target's corpus directory under some name keeps its bytes
  when a file of the same name is offered again: the loop of the import skips the
  offered file without an error, whatever else it imports, and when the offered file is
  all there is to import the import succeeds and changes nothing. This holds for the
  whole import when no minimization follows it or the minimizer leaves the files alone.
\<close>

theorem name_collision_keeps_first:
  "(Stat (Join [targetDir, name]) w = Some (RegFile c1) \<longrightarrow>
       import_entries src targetDir ((name, False) # es) w = import_entries src targetDir es w
     \<and> import_entries src targetDir [(name, False)] w = (None, w)
     \<and> (import_entries src targetDir es w = (res, w')
         \<longrightarrow> Stat (Join [targetDir, name]) w' = Some (RegFile c1)))
   \<and> (quiet en m \<and> GetTargetDir m t w = (targetDir, m1, w1)
       \<and> Stat (Join [targetDir, name]) w = Some (RegFile c1)
       \<and> ImportNewCorpusEntries en m t src w = (res, m', w')
      \<longrightarrow> Stat (Join [targetDir, name]) w' = Some (RegFile c1)
        \<and> (ReadDir src w1 = Inr [(name, False)] \<longrightarrow> res = None \<and> w' = w1))"
proof (intro conjI impI)
  assume s: "Stat (Join [targetDir, name]) w = Some (RegFile c1)"
  then have sk: "False \<or> Stat (Join [targetDir, name]) w \<noteq> None"
    by simp
  show "import_entries src targetDir ((name, False) # es) w = import_entries src targetDir es w"
    using sk by (rule import_entries_skip)
  show "import_entries src targetDir [(name, False)] w = (None, w)"
    using import_entries_skip [OF sk, of src "[]"] by simp
next
  assume s: "Stat (Join [targetDir, name]) w = Some (RegFile c1)"
    and i: "import_entries src targetDir es w = (res, w')"
  from import_entries_grows [OF i] s show "Stat (Join [targetDir, name]) w' = Some (RegFile c1)"
    by (rule grows_Stat)
next
  assume a: "quiet en m \<and> GetTargetDir m t w = (targetDir, m1, w1)
       \<and> Stat (Join [targetDir, name]) w = Some (RegFile c1)
       \<and> ImportNewCorpusEntries en m t src w = (res, m', w')"
  then have "grows w w'"
    using ImportNewCorpusEntries_grows by blast
  with a show "Stat (Join [targetDir, name]) w' = Some (RegFile c1)"
    by (blast intro: grows_Stat)
next
  assume a: "quiet en m \<and> GetTargetDir m t w = (targetDir, m1, w1)
       \<and> Stat (Join [targetDir, name]) w = Some (RegFile c1)
       \<and> ImportNewCorpusEntries en m t src w = (res, m', w')"
    and rd: "ReadDir src w1 = Inr [(name, False)]"
  from a have q: "quiet en m" and g: "GetTargetDir m t w = (targetDir, m1, w1)"
    and s: "Stat (Join [targetDir, name]) w = Some (RegFile c1)"
    and i: "ImportNewCorpusEntries en m t src w = (res, m', w')"
    by simp_all
  have "grows w w1"
    using GetTargetDir_grows [OF g] by simp
  then have "Stat (Join [targetDir, name]) w1 = Some (RegFile c1)"
    using s by (rule grows_Stat)
  then have "False \<or> Stat (Join [targetDir, name]) w1 \<noteq> None"
    by simp
  from import_entries_skip [OF this, of src "[]"]
  have "import_entries src targetDir [(name, False)] w1 = (None, w1)"
    by simp
  with i rd have "res = None" "w' = w1"
    unfolding ImportNewCorpusEntries_quiet [OF q g] by simp_all
  then show "res = None" and "w' = w1" .
qed

text \<open>
  The content \<open>first\<close> is imported under the name \<open>x\<close>; the import of \<open>second\<close>
  under the same name succeeds and the corpus still holds \<open>first\<close>.
\<close>

theorem name_collision_keeps_first_witness:
  "(let t = target_in ''pkg'' ''FuzzX'';
        one = ImportNewCorpusEntries (crash_env []) (fresh_manager CoverageMinimization) t ''in1''
                import_world;
        two = ImportNewCorpusEntries (crash_env []) (fst (snd one)) t ''in2'' (snd (snd one))
    in fst one = None
     \<and> Stat ''fuzz-corpus/pkg/FuzzX/x'' (snd (snd one)) = Some (RegFile ''first'')
     \<and> Stat ''in2/x'' (snd (snd one)) = Some (RegFile ''second'')
     \<and> fst two = None
     \<and> Stat ''fuzz-corpus/pkg/FuzzX/x'' (snd (snd two)) = Some (RegFile ''first''))"
proof -
  define t where "t = target_in ''pkg'' ''FuzzX''"
  define one where
    "one = ImportNewCorpusEntries (crash_env []) (fresh_manager CoverageMinimization) t ''in1''
             import_world"
  define two where
    "two = ImportNewCorpusEntries (crash_env []) (fst (snd one)) t ''in2'' (snd (snd one))"
  define dir where "dir = GetTargetDir (fst (snd one)) t (snd (snd one))"
  have o1: "fst one = None"
    unfolding one_def t_def by code_simp
  have o2: "Stat ''fuzz-corpus/pkg/FuzzX/x'' (snd (snd one)) = Some (RegFile ''first'')"
    unfolding one_def t_def by code_simp
  have o3: "Stat ''in2/x'' (snd (snd one)) = Some (RegFile ''second'')"
    unfolding one_def t_def by code_simp
  have q: "quiet (crash_env []) (fst (snd one))"
    by (simp add: quiet_def crash_env_def)
  have d1: "fst dir = ''fuzz-corpus/pkg/FuzzX''"
    unfolding dir_def one_def t_def by code_simp
  have j: "Join [''fuzz-corpus/pkg/FuzzX'', ''x''] = ''fuzz-corpus/pkg/FuzzX/x''"
    by code_simp
  have g: "GetTargetDir (fst (snd one)) t (snd (snd one))
             = (''fuzz-corpus/pkg/FuzzX'', fst (snd dir), snd (snd dir))"
    using d1 by (simp add: dir_def [symmetric] prod_eq_iff)
  have rd: "ReadDir ''in2'' (snd (snd dir)) = Inr [(''x'', False)]"
    unfolding dir_def one_def t_def by code_simp
  have i: "ImportNewCorpusEntries (crash_env []) (fst (snd one)) t ''in2'' (snd (snd one))
             = (fst two, fst (snd two), snd (snd two))"
    by (simp add: two_def)
  have s: "Stat (Join [''fuzz-corpus/pkg/FuzzX'', ''x'']) (snd (snd one))
             = Some (RegFile ''first'')"
    unfolding j by (rule o2)
  have "Stat (Join [''fuzz-corpus/pkg/FuzzX'', ''x'']) (snd (snd two)) = Some (RegFile ''first'')
      \<and> fst two = None"
    using name_collision_keeps_first
            [where en = "crash_env []" and m = "fst (snd one)" and t = t
               and w = "snd (snd one)" and targetDir = "''fuzz-corpus/pkg/FuzzX''"
               and ?m1.0 = "fst (snd dir)" and ?w1.0 = "snd (snd dir)" and name = "''x''"
               and ?c1.0 = "''first''" and src = "''in2''" and res = "fst two"
               and m' = "fst (snd two)" and w' = "snd (snd two)"]
          q g s i rd
    by blast
  then have t1: "fst two = None"
    and t2: "Stat ''fuzz-corpus/pkg/FuzzX/x'' (snd (snd two)) = Some (RegFile ''first'')"
    unfolding j by simp_all
  show ?thesis
    unfolding Let_def t_def [symmetric] one_def [symmetric] two_def [symmetric]
    by (intro conjI o1 o2 o3 t1 t2)
qed

text \<open>
  C6. Importing the same directory a second time is idempotent. In a well-formed file
  system, after an import that succeeded, the import of the same directory for the same
  target succeeds again and leaves the manager and the file system, and with them the
  files of the corpus directory, exactly as the first import left them. This holds
  when no minimization follows the import or the minimizer leaves the files alone.
\<close>

theorem import_twice_idempotent:
  assumes wf: "wf_world w"
    and q: "quiet en m"
    and first: "ImportNewCorpusEntries en m t src w = (None, m1, w1)"
  shows "ImportNewCorpusEntries en m1 t src w1 = (None, m1, w1)"
proof -
  obtain targetDir ma wa where g: "GetTargetDir m t w = (targetDir, ma, wa)"
    by (metis prod_cases3)
  from first obtain es where
    rd: "ReadDir src wa = Inr es" and
    loop: "import_entries src targetDir es wa = (None, w1)" and
    m1: "m1 = ma"
    unfolding ImportNewCorpusEntries_quiet [OF q g]
    by (auto split: sum.splits prod.splits)
  have wfa: "wf_world wa"
    using wf g by (rule GetTargetDir_wf)
  from second_import_copies_nothing [OF wfa rd loop] obtain es2 where
    rd2: "ReadDir src w1 = Inr es2" and
    loop2: "import_entries src targetDir es2 w1 = (None, w1)"
    by blast
  have hit: "GetTargetDir m1 t w1 = (targetDir, m1, w1)"
    unfolding m1 by (rule GetTargetDir_hit) (rule GetTargetDir_cached [OF g])
  have q1: "quiet en m1"
    using q GetTargetDir_grows [OF g] by (simp add: quiet_def m1)
  show ?thesis
    unfolding ImportNewCorpusEntries_quiet [OF q1 hit] using rd2 loop2 by simp
qed

text \<open>
  The first import of \<open>in1\<close> copies \<open>x\<close>; the second one returns the same manager
  and file system, with \<open>x\<close> the only entry of the corpus directory.
\<close>

theorem import_twice_idempotent_witness:
  "(let t = target_in ''pkg'' ''FuzzX'';
        one = ImportNewCorpusEntries (crash_env []) (fresh_manager CoverageMinimization) t ''in1''
                import_world
    in wf_world import_world
     \<and> fst one = None
     \<and> names_in ''fuzz-corpus/pkg/FuzzX'' (snd (snd one)) = [''x'']
     \<and> ImportNewCorpusEntries (crash_env []) (fst (snd one)) t ''in1'' (snd (snd one))
         = (None, fst (snd one), snd (snd one)))"
proof -
  define t where "t = target_in ''pkg'' ''FuzzX''"
  define one where
    "one = ImportNewCorpusEntries (crash_env []) (fresh_manager CoverageMinimization) t ''in1''
             import_world"
  have wf: "wf_world import_world"
    by code_simp
  have q: "quiet (crash_env []) (fresh_manager CoverageMinimization)"
    by (simp add: quiet_def crash_env_def)
  have o1: "fst one = None"
    unfolding one_def t_def by code_simp
  have o2: "names_in ''fuzz-corpus/pkg/FuzzX'' (snd (snd one)) = [''x'']"
    unfolding one_def t_def by code_simp
  have i: "ImportNewCorpusEntries (crash_env []) (fresh_manager CoverageMinimization) t ''in1''
             import_world = (None, fst (snd one), snd (snd one))"
    using o1 by (simp add: one_def [symmetric] prod_eq_iff)
  have two: "ImportNewCorpusEntries (crash_env []) (fst (snd one)) t ''in1'' (snd (snd one))
               = (None, fst (snd one), snd (snd one))"
    using wf q i by (rule import_twice_idempotent)
  show ?thesis
    unfolding Let_def t_def [symmetric] one_def [symmetric]
    by (intro conjI wf o1 o2 two)
qed

text \<open>
  C3, as the code has it. The copying loop of the import only adds entries: every entry
  of the file system is still there afterwards with the same content, so the number of
  files below any directory does not decrease, whether the import succeeds or fails.
  The same holds for the whole import when the manager's strategy is not \<open>coverage\<close>.
  With the strategy \<open>coverage\<close> every import whose copying succeeded ends with a run of
  the minimizer, which decides what the file system is afterwards; and the engine
  always makes its manager with the strategy \<open>coverage\<close>.
\<close>

theorem import_only_adds:
  "(import_entries src targetDir es w = (res, w')
      \<longrightarrow> (\<forall>k v. node_at w k = Some v \<longrightarrow> node_at w' k = Some v)
        \<and> file_count base w \<le> file_count base w')
   \<and> (Minimization m \<noteq> CoverageMinimization
       \<and> ImportNewCorpusEntries en m t src w = (res, m', w')
      \<longrightarrow> (\<forall>k v. node_at w k = Some v \<longrightarrow> node_at w' k = Some v)
        \<and> file_count base w \<le> file_count base w')
   \<and> (NewFuzzEngine cfg targets w = (Inr e, w')
      \<longrightarrow> Minimization (CorpusManager e) = CoverageMinimization)
   \<and> (Minimization m = CoverageMinimization \<and> GetTargetDir m t w = (targetDir, m1, w1)
       \<and> ReadDir src w1 = Inr es \<and> import_entries src targetDir es w1 = (None, w2)
      \<longrightarrow> ImportNewCorpusEntries en m t src w
            = (case minimizer en (Name t) (Package t) targetDir w2 of
                 (Some x, w3) \<Rightarrow>
                   (Some (Wrap ''corpus minimization failed'' (Wrap ''minimization failed'' x)),
                    m1, w3)
               | (None, w3) \<Rightarrow> (None, m1, w3)))"
proof (intro conjI impI)
  assume i: "import_entries src targetDir es w = (res, w')"
  then have g: "grows w w'" by (rule import_entries_grows)
  then show "\<forall>k v. node_at w k = Some v \<longrightarrow> node_at w' k = Some v"
    by (simp add: grows_def)
  from g show "file_count base w \<le> file_count base w'"
    by (rule grows_file_count)
next
  assume a: "Minimization m \<noteq> CoverageMinimization
       \<and> ImportNewCorpusEntries en m t src w = (res, m', w')"
  then have "quiet en m" by (simp add: quiet_def)
  with a have g: "grows w w'"
    using ImportNewCorpusEntries_grows by blast
  then show "\<forall>k v. node_at w k = Some v \<longrightarrow> node_at w' k = Some v"
    by (simp add: grows_def)
  from g show "file_count base w \<le> file_count base w'"
    by (rule grows_file_count)
next
  assume "NewFuzzEngine cfg targets w = (Inr e, w')"
  then show "Minimization (CorpusManager e) = CoverageMinimization"
    by (auto simp: NewFuzzEngine_def NewCorpusManager_def split: prod.splits option.splits)
next
  assume a: "Minimization m = CoverageMinimization \<and> GetTargetDir m t w = (targetDir, m1, w1)
       \<and> ReadDir src w1 = Inr es \<and> import_entries src targetDir es w1 = (None, w2)"
  then have g: "GetTargetDir m t w = (targetDir, m1, w1)" by simp
  have c: "Minimization m1 = CoverageMinimization"
    using GetTargetDir_grows [OF g] a by simp
  have hit: "GetTargetDir m1 t w2 = (targetDir, m1, w2)"
    by (rule GetTargetDir_hit) (rule GetTargetDir_cached [OF g])
  have mz: "Minimize en m1 t w2
              = (case minimizer en (Name t) (Package t) targetDir w2 of
                   (Some x, w3) \<Rightarrow> (Some (Wrap ''minimization failed'' x), m1, w3)
                 | (None, w3) \<Rightarrow> (None, m1, w3))"
    using c strategies_differ hit by (simp add: Minimize_def)
  show "ImportNewCorpusEntries en m t src w
            = (case minimizer en (Name t) (Package t) targetDir w2 of
                 (Some x, w3) \<Rightarrow>
                   (Some (Wrap ''corpus minimization failed'' (Wrap ''minimization failed'' x)),
                    m1, w3)
               | (None, w3) \<Rightarrow> (None, m1, w3))"
    using a c mz
    by (auto simp: ImportNewCorpusEntries_def split: prod.splits option.splits)
qed

text \<open>
  C3, as the claim has it, fails: an engine made from the default configuration, with
  nothing opted into, runs the minimizer in every run, and with a minimizer that removes
  an entry a successful run takes the corpus from one file to none.
\<close>

theorem corpus_shrinks_counterexample:
  "file_count [''work'', ''fuzz-corpus''] codec_world = 1
   \<and> (case NewFuzzEngine Default [codec_target] codec_world of
        (Inl x, w0) \<Rightarrow> False
      | (Inr e, w0) \<Rightarrow>
          file_count [''work'', ''fuzz-corpus''] w0 = 1
        \<and> (case RunTarget shrink_env e codec_target w0 of
             (Inl x, e', w') \<Rightarrow> False
           | (Inr r, e', w') \<Rightarrow> Success r \<and> file_count [''work'', ''fuzz-corpus''] w' = 0))"
  by code_simp

theorem import_only_adds_witness:
  "(let one = ImportNewCorpusEntries shrink_env (fresh_manager NoMinimization)
                (target_in ''pkg'' ''FuzzX'') ''in1'' import_world
    in fst one = None
     \<and> file_count [''work'', ''fuzz-corpus''] import_world = 0
     \<and> file_count [''work'', ''fuzz-corpus''] (snd (snd one)) = 1
     \<and> file_count [''work'', ''fuzz-corpus''] import_world
         \<le> file_count [''work'', ''fuzz-corpus''] (snd (snd one)))
   \<and> (\<exists>e w'. NewFuzzEngine Default [codec_target] codec_world = (Inr e, w')
             \<and> Minimization (CorpusManager e) = CoverageMinimization)"
proof (intro conjI)
  define one where
    "one = ImportNewCorpusEntries shrink_env (fresh_manager NoMinimization)
             (target_in ''pkg'' ''FuzzX'') ''in1'' import_world"
  have o1: "fst one = None"
    unfolding one_def by code_simp
  have c0: "file_count [''work'', ''fuzz-corpus''] import_world = 0"
    by code_simp
  have c1: "file_count [''work'', ''fuzz-corpus''] (snd (snd one)) = 1"
    unfolding one_def by code_simp
  have n: "Minimization (fresh_manager NoMinimization) \<noteq> CoverageMinimization"
    by (simp add: fresh_manager_def NoMinimization_def CoverageMinimization_def)
  have i: "ImportNewCorpusEntries shrink_env (fresh_manager NoMinimization)
             (target_in ''pkg'' ''FuzzX'') ''in1'' import_world
             = (fst one, fst (snd one), snd (snd one))"
    by (simp add: one_def)
  have le: "file_count [''work'', ''fuzz-corpus''] import_world
              \<le> file_count [''work'', ''fuzz-corpus''] (snd (snd one))"
    using import_only_adds
            [where m = "fresh_manager NoMinimization" and en = shrink_env
               and t = "target_in ''pkg'' ''FuzzX''" and src = "''in1''" and w = import_world
               and res = "fst one" and m' = "fst (snd one)" and w' = "snd (snd one)"
               and base = "[''work'', ''fuzz-corpus'']"] n i
    by blast
  show "(let one = ImportNewCorpusEntries shrink_env (fresh_manager NoMinimization)
                (target_in ''pkg'' ''FuzzX'') ''in1'' import_world
    in fst one = None
     \<and> file_count [''work'', ''fuzz-corpus''] import_world = 0
     \<and> file_count [''work'', ''fuzz-corpus''] (snd (snd one)) = 1
     \<and> file_count [''work'', ''fuzz-corpus''] import_world
         \<le> file_count [''work'', ''fuzz-corpus''] (snd (snd one)))"
    unfolding Let_def one_def [symmetric]
    by (intro conjI o1 c0 c1 le)
next
  define N where "N = NewFuzzEngine Default [codec_target] codec_world"
  have "(case fst N of Inr e \<Rightarrow> True | Inl x \<Rightarrow> False)"
    unfolding N_def by code_simp
  then obtain e where e: "fst N = Inr e"
    by (cases "fst N") auto
  then have n: "NewFuzzEngine Default [codec_target] codec_world = (Inr e, snd N)"
    by (simp add: N_def [symmetric] prod_eq_iff)
  have "Minimization (CorpusManager e) = CoverageMinimization"
    using import_only_adds
            [where cfg = Default and targets = "[codec_target]" and w = codec_world
               and e = e and w' = "snd N"] n
    by blast
  with n show "\<exists>e w'. NewFuzzEngine Default [codec_target] codec_world = (Inr e, w')
             \<and> Minimization (CorpusManager e) = CoverageMinimization"
    by blast
qed

end
